theory Spec2Isabelle
  imports Complex_Main
begin

section \<open>The model-serving daemon as seen by the program\<close>

text \<open>
  The program \<^verbatim>\<open>ollama_model_keeper.py\<close> talks to the daemon through two calls of the
  client library, \<^verbatim>\<open>client.ps()\<close> and \<^verbatim>\<open>client.generate(model=..., keep_alive=...)\<close>,
  reads the wall clock, sleeps and writes log lines. Nothing else is observable.

  The client is an \<^verbatim>\<open>ollama.Client\<close> (line 24). An entry of the list
  \<^verbatim>\<open>response["models"]\<close> is an object of the client library with the fields \<^verbatim>\<open>name\<close>
  and \<^verbatim>\<open>expires_at\<close>, each of which the daemon may have left unset:
  \<^item> \<^verbatim>\<open>model["name"]\<close> raises a \<^verbatim>\<open>KeyError\<close> when the name is unset;
  \<^item> \<^verbatim>\<open>model.get("expires_at", 0)\<close> gives \<^verbatim>\<open>None\<close> when \<^verbatim>\<open>expires_at\<close> is unset: the
    library returns the default only for a key that is no field of the entry, so the
    default 0 of the program is never used.

  A value of \<^verbatim>\<open>expires_at\<close> that is set is a \<^verbatim>\<open>datetime\<close>, which is what the library makes
  of the answer of the daemon, or a number of seconds since the epoch, which the program
  handles as well (lines 84 and 131). Time is a real number of seconds.

  What the model leaves out:
  \<^item> a value of \<^verbatim>\<open>expires_at\<close> of another type, such as a string;
  \<^item> the rounding of floating-point numbers;
  \<^item> an interrupt that arrives while the program sleeps: the interrupt of the operator is
    an answer to a call of the client.
\<close>

datatype expiry = Datetime real | Num real

text \<open>An entry: \<open>None\<close> is a field that is unset.\<close>

record model =
  name :: "string option"
  expires_at :: "expiry option"

text \<open>
  Of a response only the entry \<^verbatim>\<open>"models"\<close> is ever read: \<open>None\<close> is a response
  without that key, which \<^verbatim>\<open>response.get("models", [])\<close> reads as the empty list.
\<close>

type_synonym response = "model list option"

text \<open>
  The exceptions: the \<^verbatim>\<open>KeyError\<close> of \<^verbatim>\<open>model["name"]\<close>, the \<^verbatim>\<open>TypeError\<close> and the
  \<^verbatim>\<open>ValueError\<close> of \<^verbatim>\<open>datetime.fromtimestamp\<close>, an exception raised by a call of the
  client, and the interrupt of the operator.
\<close>

datatype exn = KeyError string | TypeError | ValueError | ClientError string | KeyboardInterrupt

text \<open>
  \<^verbatim>\<open>except Exception\<close> catches every exception but the ones outside the class
  \<^verbatim>\<open>Exception\<close>; of those only the interrupt of the operator is modelled.
\<close>

fun is_Exception :: "exn \<Rightarrow> bool" where
  "is_Exception KeyboardInterrupt = False"
| "is_Exception _ = True"

datatype reply = Reply response | Fail exn

datatype request = Ps | Generate string int

datatype level = ERROR | INFO

text \<open>
  The log lines of the program at the levels INFO and ERROR, one constructor for each
  \<^verbatim>\<open>logger.info\<close> and \<^verbatim>\<open>logger.error\<close> of the source, with the values the line prints.
  The two lines "Other models loaded. Waiting for latest expires_at" (lines 91 and 137) and
  the two lines "No models are loaded now. Loading" (lines 121 and 143) have the same text.
\<close>

datatype msg =
    Starting
  | Entering_main_cycle
  | Error_checking_loaded_models exn
  | Successfully_loaded string
  | Error_loading_model string exn
  | Waiting_until_unload real
  | Other_models_detected "string list"
  | Only_target_loaded string
  | Other_models_waiting real
  | Other_models_no_expiration
  | No_longer_loaded string
  | Error_during_monitoring exn
  | Already_loaded string
  | No_models_now_loading string
  | Models_still_loaded "string list"
  | Only_non_expiring
  | No_models_loading string
  | Cycle_complete
  | Stopped_by_user
  | Error_occurred exn
  | Retrying

text \<open>
  What the program does is recorded as a trace. A call of the client is recorded with the
  answer of the daemon; the answer is \<open>None\<close> when the script of the daemon has no
  answer left, which is where the model stops following the program. Log lines of level
  DEBUG are not written at the configured level INFO and are left out.
\<close>

datatype event = Call request "reply option" | Sleep real | Log level msg

text \<open>
  The world: the answers the daemon will give to the coming calls of the client, in
  order; the wall clock; and the trace so far. The clock moves only while the program
  sleeps.
\<close>

record world =
  script :: "reply list"
  now :: real
  trace :: "event list"

datatype 'a result = Return 'a | Raised exn | OutOfScript

section \<open>The program\<close>

definition CYCLE_INTERVAL :: real where
  "CYCLE_INTERVAL = 5"

definition MONITOR_INTERVAL :: real where
  "MONITOR_INTERVAL = 60"

definition TARGET_MODEL :: string where
  "TARGET_MODEL = ''ENTER_MODEL_HERE''"

text \<open>\<^verbatim>\<open>logger.info\<close> and \<^verbatim>\<open>logger.error\<close>: a line of the trace.\<close>

definition logger :: "level \<Rightarrow> msg \<Rightarrow> world \<Rightarrow> world" where
  "logger l m w = w\<lparr>trace := trace w @ [Log l m]\<rparr>"

text \<open>\<^verbatim>\<open>asyncio.sleep\<close>: the clock moves on by the duration.\<close>

definition sleep :: "real \<Rightarrow> world \<Rightarrow> world" where
  "sleep d w = w\<lparr>now := now w + d, trace := trace w @ [Sleep d]\<rparr>"

text \<open>
  A call of the client takes the next answer of the script: a response, or an exception
  that the call raises. With no answer left the model stops there, with \<open>OutOfScript\<close>.
\<close>

definition client_call :: "request \<Rightarrow> world \<Rightarrow> response result \<times> world" where
  "client_call rq w =
     (case script w of
        [] \<Rightarrow> (OutOfScript, w\<lparr>trace := trace w @ [Call rq None]\<rparr>)
      | a # rest \<Rightarrow>
          (case a of Reply r \<Rightarrow> Return r | Fail e \<Rightarrow> Raised e,
           w\<lparr>script := rest, trace := trace w @ [Call rq (Some a)]\<rparr>))"

text \<open>
  \<^verbatim>\<open>check_loaded_models\<close> (lines 26 to 34) and \<^verbatim>\<open>load_model\<close> (lines 36 to 44): an
  exception of the class \<^verbatim>\<open>Exception\<close> is logged and raised again.
\<close>

definition check_loaded_models :: "world \<Rightarrow> response result \<times> world" where
  "check_loaded_models w =
     (case client_call Ps w of
        (Return response, w') \<Rightarrow> (Return response, w')
      | (Raised e, w') \<Rightarrow>
          (Raised e,
           if is_Exception e then logger ERROR (Error_checking_loaded_models e) w' else w')
      | (OutOfScript, w') \<Rightarrow> (OutOfScript, w'))"

definition load_model :: "string \<Rightarrow> world \<Rightarrow> unit result \<times> world" where
  "load_model model_name w =
     (case client_call (Generate model_name (- 1)) w of
        (Return response, w') \<Rightarrow> (Return (), logger INFO (Successfully_loaded model_name) w')
      | (Raised e, w') \<Rightarrow>
          (Raised e,
           if is_Exception e then logger ERROR (Error_loading_model model_name e) w' else w')
      | (OutOfScript, w') \<Rightarrow> (OutOfScript, w'))"

text \<open>
  \<^verbatim>\<open>expires_at.timestamp() if isinstance(expires_at, datetime) else expires_at\<close>, and
  \<^verbatim>\<open>wait_for_unload\<close> (lines 46 to 56).
\<close>

fun timestamp :: "expiry \<Rightarrow> real" where
  "timestamp (Datetime t) = t"
| "timestamp (Num t) = t"

definition wait_for_unload :: "expiry \<Rightarrow> world \<Rightarrow> world" where
  "wait_for_unload expires_at' w =
     (let expires_at_timestamp = timestamp expires_at';
          current_time = now w;
          remaining_seconds = max 0 (expires_at_timestamp - current_time)
      in if remaining_seconds > 0
         then sleep remaining_seconds (logger INFO (Waiting_until_unload remaining_seconds) w)
         else w)"

text \<open>\<^verbatim>\<open>response.get("models", [])\<close>\<close>

fun get_models :: "response \<Rightarrow> model list" where
  "get_models None = []"
| "get_models (Some ms) = ms"

text \<open>
  \<^verbatim>\<open>[model["name"] for model in models]\<close>: \<open>None\<close> stands for the \<^verbatim>\<open>KeyError\<close> that
  an entry without a name raises.
\<close>

fun model_names :: "model list \<Rightarrow> string list option" where
  "model_names [] = Some []"
| "model_names (m # ms) =
     (case name m of
        None \<Rightarrow> None
      | Some n \<Rightarrow> (case model_names ms of None \<Rightarrow> None | Some ns \<Rightarrow> Some (n # ns)))"

text \<open>\<^verbatim>\<open>expires_at == 0\<close>: a \<^verbatim>\<open>datetime\<close> never equals the number 0.\<close>

fun eq_zero :: "expiry \<Rightarrow> bool" where
  "eq_zero (Num t) = (t = 0)"
| "eq_zero (Datetime t) = False"

text \<open>
  \<^verbatim>\<open>datetime.fromtimestamp\<close> stands in the messages of lines 85, 91, 132 and 137. The
  messages of lines 85 and 132 are of level DEBUG and are not written, but Python builds
  the string before it calls the logger, so that the exceptions of
  \<^verbatim>\<open>datetime.fromtimestamp\<close> are raised all the same: a \<^verbatim>\<open>TypeError\<close> on \<^verbatim>\<open>None\<close>, and a
  \<^verbatim>\<open>ValueError\<close> on a time outside the years 1 to 9999 of a \<^verbatim>\<open>datetime\<close>. The bounds are
  those of the time zone UTC, in seconds since the epoch; another time zone moves them by
  less than a day. (Far outside the range Python raises an \<^verbatim>\<open>OverflowError\<close> or an
  \<^verbatim>\<open>OSError\<close> instead, which the program handles in the same way.)
\<close>

definition fromtimestamp_ok :: "real \<Rightarrow> bool" where
  "fromtimestamp_ok t \<longleftrightarrow> - 62135596800 \<le> t \<and> t < 253402300800"

text \<open>
  The loop over the entries in \<^verbatim>\<open>main\<close> (lines 125 to 134), with the clock reading
  \<open>t\<close> and the running value of \<^verbatim>\<open>latest_expires_at\<close>. For an entry whose
  \<^verbatim>\<open>expires_at\<close> is unset, \<^verbatim>\<open>model.get("expires_at", 0)\<close> is \<^verbatim>\<open>None\<close>, which is not equal
  to 0 and is no \<^verbatim>\<open>datetime\<close>, so that line 132 calls \<^verbatim>\<open>datetime.fromtimestamp(None)\<close>. The
  result is the exception that ends the loop (\<open>Inl\<close>), or the value of
  \<^verbatim>\<open>latest_expires_at\<close> after the last entry (\<open>Inr\<close>).
\<close>

fun latest_expires_at_main :: "real \<Rightarrow> model list \<Rightarrow> real \<Rightarrow> exn + real" where
  "latest_expires_at_main t [] latest = Inr latest"
| "latest_expires_at_main t (m # ms) latest =
     (case expires_at m of
        None \<Rightarrow> Inl TypeError
      | Some e \<Rightarrow>
          if eq_zero e then latest_expires_at_main t ms latest
          else if \<not> fromtimestamp_ok (timestamp e) then Inl ValueError
          else if timestamp e > t then latest_expires_at_main t ms (max latest (timestamp e))
          else latest_expires_at_main t ms latest)"

text \<open>
  The loop over the entries in \<^verbatim>\<open>monitor_for_other_models\<close> (lines 77 to 88): the
  five seconds are added inside the loop.
\<close>

fun latest_expires_at_monitor :: "real \<Rightarrow> model list \<Rightarrow> real \<Rightarrow> exn + real" where
  "latest_expires_at_monitor t [] latest = Inr latest"
| "latest_expires_at_monitor t (m # ms) latest =
     (case expires_at m of
        None \<Rightarrow> Inl TypeError
      | Some e \<Rightarrow>
          if eq_zero e then latest_expires_at_monitor t ms latest
          else if \<not> fromtimestamp_ok (timestamp e) then Inl ValueError
          else if timestamp e > t then latest_expires_at_monitor t ms (max latest (timestamp e) + 5)
          else latest_expires_at_monitor t ms latest)"

text \<open>
  Every answered call of the client shortens the script: the measure of the two loops.
\<close>

lemma check_loaded_models_script:
  "check_loaded_models w = (Return r, w') \<Longrightarrow> length (script w') < length (script w)"
  by (auto simp: check_loaded_models_def client_call_def logger_def
      split: list.splits reply.splits prod.splits result.splits if_splits)

lemma script_logger [simp]: "script (logger l m w) = script w"
  by (simp add: logger_def)

lemma script_sleep [simp]: "script (sleep d w) = script w"
  by (simp add: sleep_def)

lemma script_wait_for_unload [simp]: "script (wait_for_unload e w) = script w"
  by (simp add: wait_for_unload_def Let_def)

text \<open>
  \<^verbatim>\<open>monitor_for_other_models\<close> (lines 58 to 103). The \<^verbatim>\<open>except Exception\<close> around the loop
  logs the exception and raises it again; it sees the exceptions of the probe, the
  \<^verbatim>\<open>KeyError\<close> of an entry without a name and the exceptions of
  \<^verbatim>\<open>datetime.fromtimestamp\<close>, in the loop over the entries and in the message of line 91.
\<close>

function monitor_for_other_models :: "string \<Rightarrow> world \<Rightarrow> bool result \<times> world" where
  "monitor_for_other_models target_model w =
     (case check_loaded_models w of
        (OutOfScript, w1) \<Rightarrow> (OutOfScript, w1)
      | (Raised e, w1) \<Rightarrow>
          (Raised e, if is_Exception e then logger ERROR (Error_during_monitoring e) w1 else w1)
      | (Return response, w1) \<Rightarrow>
          (let models = get_models response in
           case model_names models of
             None \<Rightarrow>
               (Raised (KeyError ''name''),
                logger ERROR (Error_during_monitoring (KeyError ''name'')) w1)
           | Some names \<Rightarrow>
               if target_model \<in> set names then
                 if length names > 1 then
                   (Return True,
                    logger INFO (Other_models_detected (filter (\<lambda>n. n \<noteq> target_model) names)) w1)
                 else
                   monitor_for_other_models target_model
                     (sleep MONITOR_INTERVAL (logger INFO (Only_target_loaded target_model) w1))
               else if models \<noteq> [] then
                 (case latest_expires_at_monitor (now w1) models 0 of
                    Inl e \<Rightarrow> (Raised e, logger ERROR (Error_during_monitoring e) w1)
                  | Inr latest_expires_at \<Rightarrow>
                      if latest_expires_at > 0 then
                        if fromtimestamp_ok latest_expires_at then
                          monitor_for_other_models target_model
                            (wait_for_unload (Num latest_expires_at)
                               (logger INFO (Other_models_waiting latest_expires_at) w1))
                        else
                          (Raised ValueError, logger ERROR (Error_during_monitoring ValueError) w1)
                      else
                        monitor_for_other_models target_model
                          (sleep MONITOR_INTERVAL (logger INFO Other_models_no_expiration w1)))
               else
                 (Return False, logger INFO (No_longer_loaded target_model) w1)))"
  by pat_completeness auto
termination
  by (relation "measure (\<lambda>(t, w). length (script w))")
     (auto dest: check_loaded_models_script [OF sym])

declare monitor_for_other_models.simps [simp del]

lemma check_loaded_models_script_le:
  "check_loaded_models w = (r, w') \<Longrightarrow> length (script w') \<le> length (script w)"
  by (auto simp: check_loaded_models_def client_call_def logger_def
      split: list.splits reply.splits prod.splits result.splits if_splits)

lemma check_loaded_models_script_less:
  "check_loaded_models w = (r, w') \<Longrightarrow> r \<noteq> OutOfScript \<Longrightarrow>
   length (script w') < length (script w)"
  by (auto simp: check_loaded_models_def client_call_def logger_def
      split: list.splits reply.splits prod.splits result.splits if_splits)

lemma load_model_script_le:
  "load_model n w = (r, w') \<Longrightarrow> length (script w') \<le> length (script w)"
  by (auto simp: load_model_def client_call_def logger_def
      split: list.splits reply.splits prod.splits result.splits if_splits)

lemma monitor_script_less:
  "monitor_for_other_models t w = (r, w') \<Longrightarrow> r \<noteq> OutOfScript \<Longrightarrow>
   length (script w') < length (script w)"
proof (induction t w arbitrary: r w' rule: monitor_for_other_models.induct)
  case (1 t w)
  obtain r1 w1 where c: "check_loaded_models w = (r1, w1)"
    by (cases "check_loaded_models w")
  show ?case
  proof (cases r1)
    case OutOfScript
    with c "1.prems" show ?thesis
      by (simp add: monitor_for_other_models.simps [of t w])
  next
    case (Raised e)
    with c "1.prems" check_loaded_models_script_less [OF c] show ?thesis
      by (auto simp: monitor_for_other_models.simps [of t w] split: if_splits)
  next
    case (Return response)
    note lt = check_loaded_models_script_less [OF c]
    from Return c "1.prems" "1.IH" lt show ?thesis
      by (simp add: monitor_for_other_models.simps [of t w] Let_def
          split: option.splits sum.splits if_splits) fastforce+
  qed
qed

lemma monitor_script_le:
  "monitor_for_other_models t w = (r, w') \<Longrightarrow> length (script w') \<le> length (script w)"
proof (induction t w arbitrary: r w' rule: monitor_for_other_models.induct)
  case (1 t w)
  obtain r1 w1 where c: "check_loaded_models w = (r1, w1)"
    by (cases "check_loaded_models w")
  note le = check_loaded_models_script_le [OF c]
  show ?case
  proof (cases r1)
    case OutOfScript
    with c "1.prems" le show ?thesis
      by (simp add: monitor_for_other_models.simps [of t w])
  next
    case (Raised e)
    with c "1.prems" le show ?thesis
      by (auto simp: monitor_for_other_models.simps [of t w] split: if_splits)
  next
    case (Return response)
    from Return c "1.prems" "1.IH" le show ?thesis
      by (simp add: monitor_for_other_models.simps [of t w] Let_def
          split: option.splits sum.splits if_splits) fastforce+
  qed
qed

text \<open>Lines 117 to 122 of \<^verbatim>\<open>main\<close>: the target model is among the loaded models.\<close>

definition target_loaded :: "string \<Rightarrow> world \<Rightarrow> unit result \<times> world" where
  "target_loaded target w1 =
     (case monitor_for_other_models target (logger INFO (Already_loaded target) w1) of
        (Return another_model_loaded, w2) \<Rightarrow>
          if \<not> another_model_loaded
          then load_model target (logger INFO (No_models_now_loading target) w2)
          else (Return (), w2)
      | (Raised e, w2) \<Rightarrow> (Raised e, w2)
      | (OutOfScript, w2) \<Rightarrow> (OutOfScript, w2))"

text \<open>Lines 140 to 147 of \<^verbatim>\<open>main\<close>: the probe after the wait.\<close>

definition check_again :: "string \<Rightarrow> world \<Rightarrow> unit result \<times> world" where
  "check_again target w2 =
     (case check_loaded_models w2 of
        (Return new_response, w3) \<Rightarrow>
          if get_models new_response = []
          then load_model target (logger INFO (No_models_now_loading target) w3)
          else
            (case model_names (get_models new_response) of
               None \<Rightarrow> (Raised (KeyError ''name''), w3)
             | Some remaining_models \<Rightarrow>
                 (Return (), logger INFO (Models_still_loaded remaining_models) w3))
      | (Raised e, w3) \<Rightarrow> (Raised e, w3)
      | (OutOfScript, w3) \<Rightarrow> (OutOfScript, w3))"

text \<open>
  Lines 124 to 150 of \<^verbatim>\<open>main\<close>: other models are loaded, the target is not. An exception
  of \<^verbatim>\<open>datetime.fromtimestamp\<close>, in the loop over the entries or in the message of line
  137, leaves the cycle.
\<close>

definition others_loaded :: "string \<Rightarrow> model list \<Rightarrow> world \<Rightarrow> unit result \<times> world" where
  "others_loaded target models w1 =
     (case latest_expires_at_main (now w1) models 0 of
        Inl e \<Rightarrow> (Raised e, w1)
      | Inr latest_expires_at \<Rightarrow>
          if latest_expires_at > 0 then
            if fromtimestamp_ok latest_expires_at then
              check_again target
                (wait_for_unload (Num latest_expires_at)
                   (logger INFO (Other_models_waiting latest_expires_at) w1))
            else (Raised ValueError, w1)
          else (Return (), sleep MONITOR_INTERVAL (logger INFO Only_non_expiring w1)))"

text \<open>The body of the \<^verbatim>\<open>try\<close> in \<^verbatim>\<open>main\<close> (lines 110 to 158): one cycle.\<close>

definition cycle :: "string \<Rightarrow> world \<Rightarrow> unit result \<times> world" where
  "cycle target w0 =
     (case check_loaded_models (logger INFO Entering_main_cycle w0) of
        (OutOfScript, w1) \<Rightarrow> (OutOfScript, w1)
      | (Raised e, w1) \<Rightarrow> (Raised e, w1)
      | (Return response, w1) \<Rightarrow>
          (case model_names (get_models response) of
             None \<Rightarrow> (Raised (KeyError ''name''), w1)
           | Some names \<Rightarrow>
               (case
                  (if target \<in> set names then target_loaded target w1
                   else if get_models response \<noteq> [] then
                     others_loaded target (get_models response) w1
                   else load_model target (logger INFO (No_models_loading target) w1))
                of
                  (Return u, w4) \<Rightarrow>
                    (Return (), sleep CYCLE_INTERVAL (logger INFO Cycle_complete w4))
                | (Raised e, w4) \<Rightarrow> (Raised e, w4)
                | (OutOfScript, w4) \<Rightarrow> (OutOfScript, w4))))"

lemma check_again_script_le:
  "check_again t w = (r, w') \<Longrightarrow> length (script w') \<le> length (script w)"
  unfolding check_again_def
  by (auto split: prod.splits result.splits if_splits option.splits
      dest!: check_loaded_models_script_le load_model_script_le)

lemma target_loaded_script_le:
  "target_loaded t w = (r, w') \<Longrightarrow> length (script w') \<le> length (script w)"
  unfolding target_loaded_def
  by (auto split: prod.splits result.splits if_splits
      dest!: monitor_script_le load_model_script_le)

lemma others_loaded_script_le:
  "others_loaded t ms w = (r, w') \<Longrightarrow> length (script w') \<le> length (script w)"
  unfolding others_loaded_def
  by (auto split: sum.splits if_splits dest!: check_again_script_le)

lemma cycle_script_less:
  assumes "cycle target w = (r, w')" and "r \<noteq> OutOfScript"
  shows "length (script w') < length (script w)"
proof -
  obtain r1 w1 where c: "check_loaded_models (logger INFO Entering_main_cycle w) = (r1, w1)"
    by (cases "check_loaded_models (logger INFO Entering_main_cycle w)")
  show ?thesis
  proof (cases r1)
    case OutOfScript
    with c assms show ?thesis by (simp add: cycle_def)
  next
    case (Raised e)
    with c assms check_loaded_models_script_less [OF c] show ?thesis
      by (auto simp: cycle_def)
  next
    case (Return response)
    with c have lt: "length (script w1) < length (script w)"
      using check_loaded_models_script_less [OF c] by simp
    from Return c assms lt show ?thesis
      by (auto simp: cycle_def
          split: option.splits if_splits prod.splits result.splits
          dest!: target_loaded_script_le others_loaded_script_le load_model_script_le)
  qed
qed

datatype outcome = Stopped | Running

text \<open>
  The loop of \<^verbatim>\<open>main\<close> (lines 108 to 166). It ends with \<open>Stopped\<close> at the
  \<^verbatim>\<open>break\<close>; \<open>Running\<close> says that the script of the daemon ran out while the loop
  was still going.
\<close>

function main_loop :: "string \<Rightarrow> world \<Rightarrow> outcome \<times> world" where
  "main_loop target w =
     (case cycle target w of
        (Return u, w') \<Rightarrow> main_loop target w'
      | (Raised e, w') \<Rightarrow>
          if e = KeyboardInterrupt then (Stopped, logger INFO Stopped_by_user w')
          else main_loop target
                 (sleep 10 (logger INFO Retrying (logger ERROR (Error_occurred e) w')))
      | (OutOfScript, w') \<Rightarrow> (Running, w'))"
  by pat_completeness auto
termination
  by (relation "measure (\<lambda>(t, w). length (script w))")
     (auto dest: cycle_script_less [OF sym])

declare main_loop.simps [simp del]

text \<open>\<^verbatim>\<open>main\<close> (lines 105 to 166), for the target model of the configuration.\<close>

definition main :: "world \<Rightarrow> outcome \<times> world" where
  "main w = main_loop TARGET_MODEL (logger INFO Starting w)"

text \<open>The two answers of a probe that the later sections compute with.\<close>

lemma check_loaded_models_reply:
  "script w = Reply r # rest \<Longrightarrow>
   check_loaded_models w =
     (Return r, w\<lparr>script := rest, trace := trace w @ [Call Ps (Some (Reply r))]\<rparr>)"
  by (simp add: check_loaded_models_def client_call_def)

lemma check_loaded_models_out:
  "script w = [] \<Longrightarrow>
   check_loaded_models w = (OutOfScript, w\<lparr>trace := trace w @ [Call Ps None]\<rparr>)"
  by (simp add: check_loaded_models_def client_call_def)

section \<open>Reading a trace\<close>

text \<open>
  A probe is a call of \<^verbatim>\<open>client.ps()\<close>. The probes cut a trace into segments: a segment
  starts with a probe and holds everything the program does until it probes again.
\<close>

fun is_Ps :: "event \<Rightarrow> bool" where
  "is_Ps (Call Ps a) = True"
| "is_Ps _ = False"

function segments :: "event list \<Rightarrow> event list list" where
  "segments [] = []"
| "segments (e # es) =
     (e # takeWhile (\<lambda>x. \<not> is_Ps x) es) # segments (dropWhile (\<lambda>x. \<not> is_Ps x) es)"
  by pat_completeness auto
termination
  by (relation "measure length") (auto simp: less_Suc_eq_le length_dropWhile_le)

lemma segments_Nil_iff [simp]: "segments t = [] \<longleftrightarrow> t = []"
  by (cases t) auto

lemma takeWhile_no_Ps:
  "\<forall>y\<in>set xs. \<not> is_Ps y \<Longrightarrow> takeWhile (\<lambda>x. \<not> is_Ps x) xs = xs"
  by (induction xs) auto

lemma segments_snoc:
  "segments (t @ [e]) =
     (if t = [] \<or> is_Ps e then segments t @ [[e]]
      else butlast (segments t) @ [last (segments t) @ [e]])"
proof (induction t rule: segments.induct)
  case 1
  show ?case by simp
next
  case (2 x xs)
  show ?case
  proof (cases "\<forall>y\<in>set xs. \<not> is_Ps y")
    case True
    then show ?thesis by (simp add: takeWhile_append dropWhile_append takeWhile_no_Ps)
  next
    case False
    then have ne: "dropWhile (\<lambda>x. \<not> is_Ps x) xs \<noteq> []" by auto
    from False have tw: "takeWhile (\<lambda>x. \<not> is_Ps x) (xs @ [e]) = takeWhile (\<lambda>x. \<not> is_Ps x) xs"
      by (auto simp: takeWhile_append)
    from False have dw: "dropWhile (\<lambda>x. \<not> is_Ps x) (xs @ [e]) = dropWhile (\<lambda>x. \<not> is_Ps x) xs @ [e]"
      by (auto simp: dropWhile_append)
    from False have nall: "(\<forall>x\<in>set xs. \<not> is_Ps x) = False" by simp
    show ?thesis using "2.IH" by (simp add: tw dw nall)
  qed
qed

text \<open>
  While a run goes on, the last segment of its trace is still open: the events of the
  program are added to it until the next probe closes it and opens a new one.
\<close>

definition open_segment :: "event list \<Rightarrow> event list" where
  "open_segment t = (if t = [] then [] else last (segments t))"

definition closed_segments :: "event list \<Rightarrow> event list list" where
  "closed_segments t = butlast (segments t)"

lemma open_segment_Nil [simp]: "open_segment [] = []"
  by (simp add: open_segment_def)

lemma closed_segments_Nil [simp]: "closed_segments [] = []"
  by (simp add: closed_segments_def)

lemma open_segment_snoc [simp]:
  "open_segment (t @ [e]) = (if is_Ps e then [e] else open_segment t @ [e])"
  by (simp add: open_segment_def segments_snoc)

lemma closed_segments_snoc [simp]:
  "closed_segments (t @ [e]) =
     (if is_Ps e \<and> t \<noteq> [] then closed_segments t @ [open_segment t] else closed_segments t)"
  by (auto simp: open_segment_def closed_segments_def segments_snoc butlast_append)

lemma segments_closed_open:
  "t \<noteq> [] \<Longrightarrow> segments t = closed_segments t @ [open_segment t]"
  by (simp add: open_segment_def closed_segments_def)

lemma open_segment_append:
  "\<forall>e\<in>set es. \<not> is_Ps e \<Longrightarrow> open_segment (t @ es) = open_segment t @ es"
  by (induction es rule: rev_induct) (simp_all flip: append_assoc)

lemma closed_segments_append:
  "\<forall>e\<in>set es. \<not> is_Ps e \<Longrightarrow> closed_segments (t @ es) = closed_segments t"
  by (induction es rule: rev_induct) (simp_all flip: append_assoc)

section \<open>What the program does between two probes\<close>

text \<open>
  Every segment of a run has one of a few shapes, one for each place where the program
  probes (the start of a cycle, the monitoring loop, the check after a wait) and each
  kind of answer. The events that end a cycle and start the next one belong to the
  segment of the last probe of the cycle. A shape that depends on the reading \<open>t\<close> of the
  clock says that \<open>t\<close> is not earlier than the time \<open>t0\<close> at which the run started.
\<close>

text \<open>
  How a cycle ends: normally, with the pause before the next cycle; after an exception,
  in the handlers of the main loop (lines 160 to 166). And what \<^verbatim>\<open>load_model\<close> and
  \<^verbatim>\<open>wait_for_unload\<close> add to the trace.
\<close>

definition next_cycle_events :: "event list" where
  "next_cycle_events = [Log INFO Cycle_complete, Sleep CYCLE_INTERVAL, Log INFO Entering_main_cycle]"

definition handler_events :: "exn \<Rightarrow> event list" where
  "handler_events e =
     (if e = KeyboardInterrupt then [Log INFO Stopped_by_user]
      else [Log ERROR (Error_occurred e), Log INFO Retrying, Sleep 10,
            Log INFO Entering_main_cycle])"

fun load_events :: "string \<Rightarrow> reply option \<Rightarrow> event list" where
  "load_events target None = [Call (Generate target (- 1)) None]"
| "load_events target (Some (Reply r)) =
     Call (Generate target (- 1)) (Some (Reply r)) #
     Log INFO (Successfully_loaded target) # next_cycle_events"
| "load_events target (Some (Fail e)) =
     Call (Generate target (- 1)) (Some (Fail e)) #
     (if is_Exception e then [Log ERROR (Error_loading_model target e)] else []) @
     handler_events e"

definition wait_events :: "real \<Rightarrow> real \<Rightarrow> event list" where
  "wait_events l t =
     (if max 0 (l - t) > 0
      then [Log INFO (Waiting_until_unload (max 0 (l - t))), Sleep (max 0 (l - t))]
      else [])"

inductive shape :: "string \<Rightarrow> real \<Rightarrow> event list \<Rightarrow> bool"
  for target :: string and t0 :: real where
  before_first: "s = [] \<or> \<not> is_Ps (hd s) \<Longrightarrow> shape target t0 s"
| unanswered: "shape target t0 [Call Ps None]"
| failed:
    "shape target t0
       (Call Ps (Some (Fail e)) #
        (if is_Exception e then [Log ERROR (Error_checking_loaded_models e)] else []) @
        handler_events e)"
| failed_monitor:
    "shape target t0
       (Call Ps (Some (Fail e)) #
        (if is_Exception e
         then [Log ERROR (Error_checking_loaded_models e), Log ERROR (Error_during_monitoring e)]
         else []) @
        handler_events e)"
| nameless:
    "model_names (get_models r) = None \<Longrightarrow>
     shape target t0 (Call Ps (Some (Reply r)) # handler_events (KeyError ''name''))"
| nameless_monitor:
    "model_names (get_models r) = None \<Longrightarrow>
     shape target t0
       (Call Ps (Some (Reply r)) # Log ERROR (Error_during_monitoring (KeyError ''name'')) #
        handler_events (KeyError ''name''))"
| main_target:
    "model_names (get_models r) = Some ns \<Longrightarrow> target \<in> set ns \<Longrightarrow>
     shape target t0 [Call Ps (Some (Reply r)), Log INFO (Already_loaded target)]"
| main_unreadable:
    "model_names (get_models r) = Some ns \<Longrightarrow> target \<notin> set ns \<Longrightarrow> get_models r \<noteq> [] \<Longrightarrow>
     t0 \<le> t \<Longrightarrow> latest_expires_at_main t (get_models r) 0 = Inl e \<Longrightarrow>
     shape target t0 (Call Ps (Some (Reply r)) # handler_events e)"
| main_unprintable:
    "model_names (get_models r) = Some ns \<Longrightarrow> target \<notin> set ns \<Longrightarrow> get_models r \<noteq> [] \<Longrightarrow>
     t0 \<le> t \<Longrightarrow> latest_expires_at_main t (get_models r) 0 = Inr l \<Longrightarrow> l > 0 \<Longrightarrow>
     \<not> fromtimestamp_ok l \<Longrightarrow>
     shape target t0 (Call Ps (Some (Reply r)) # handler_events ValueError)"
| main_wait:
    "model_names (get_models r) = Some ns \<Longrightarrow> target \<notin> set ns \<Longrightarrow> get_models r \<noteq> [] \<Longrightarrow>
     t0 \<le> t \<Longrightarrow> latest_expires_at_main t (get_models r) 0 = Inr l \<Longrightarrow> l > 0 \<Longrightarrow>
     fromtimestamp_ok l \<Longrightarrow>
     shape target t0
       (Call Ps (Some (Reply r)) # Log INFO (Other_models_waiting l) # wait_events l t)"
| main_never:
    "model_names (get_models r) = Some ns \<Longrightarrow> target \<notin> set ns \<Longrightarrow> get_models r \<noteq> [] \<Longrightarrow>
     t0 \<le> t \<Longrightarrow> latest_expires_at_main t (get_models r) 0 = Inr l \<Longrightarrow> \<not> l > 0 \<Longrightarrow>
     shape target t0
       (Call Ps (Some (Reply r)) # Log INFO Only_non_expiring # Sleep MONITOR_INTERVAL #
        next_cycle_events)"
| main_empty:
    "get_models r = [] \<Longrightarrow>
     shape target t0
       (Call Ps (Some (Reply r)) # Log INFO (No_models_loading target) # load_events target a)"
| monitor_mixed:
    "model_names (get_models r) = Some ns \<Longrightarrow> target \<in> set ns \<Longrightarrow> length ns > 1 \<Longrightarrow>
     shape target t0
       (Call Ps (Some (Reply r)) #
        Log INFO (Other_models_detected (filter (\<lambda>n. n \<noteq> target) ns)) # next_cycle_events)"
| monitor_target:
    "model_names (get_models r) = Some ns \<Longrightarrow> target \<in> set ns \<Longrightarrow> \<not> length ns > 1 \<Longrightarrow>
     shape target t0
       [Call Ps (Some (Reply r)), Log INFO (Only_target_loaded target), Sleep MONITOR_INTERVAL]"
| monitor_unreadable:
    "model_names (get_models r) = Some ns \<Longrightarrow> target \<notin> set ns \<Longrightarrow> get_models r \<noteq> [] \<Longrightarrow>
     t0 \<le> t \<Longrightarrow> latest_expires_at_monitor t (get_models r) 0 = Inl e \<Longrightarrow>
     shape target t0
       (Call Ps (Some (Reply r)) # Log ERROR (Error_during_monitoring e) # handler_events e)"
| monitor_unprintable:
    "model_names (get_models r) = Some ns \<Longrightarrow> target \<notin> set ns \<Longrightarrow> get_models r \<noteq> [] \<Longrightarrow>
     t0 \<le> t \<Longrightarrow> latest_expires_at_monitor t (get_models r) 0 = Inr l \<Longrightarrow> l > 0 \<Longrightarrow>
     \<not> fromtimestamp_ok l \<Longrightarrow>
     shape target t0
       (Call Ps (Some (Reply r)) # Log ERROR (Error_during_monitoring ValueError) #
        handler_events ValueError)"
| monitor_wait:
    "model_names (get_models r) = Some ns \<Longrightarrow> target \<notin> set ns \<Longrightarrow> get_models r \<noteq> [] \<Longrightarrow>
     t0 \<le> t \<Longrightarrow> latest_expires_at_monitor t (get_models r) 0 = Inr l \<Longrightarrow> l > 0 \<Longrightarrow>
     fromtimestamp_ok l \<Longrightarrow>
     shape target t0
       (Call Ps (Some (Reply r)) # Log INFO (Other_models_waiting l) # wait_events l t)"
| monitor_never:
    "model_names (get_models r) = Some ns \<Longrightarrow> target \<notin> set ns \<Longrightarrow> get_models r \<noteq> [] \<Longrightarrow>
     t0 \<le> t \<Longrightarrow> latest_expires_at_monitor t (get_models r) 0 = Inr l \<Longrightarrow> \<not> l > 0 \<Longrightarrow>
     shape target t0
       [Call Ps (Some (Reply r)), Log INFO Other_models_no_expiration, Sleep MONITOR_INTERVAL]"
| monitor_empty:
    "get_models r = [] \<Longrightarrow>
     shape target t0
       (Call Ps (Some (Reply r)) # Log INFO (No_longer_loaded target) #
        Log INFO (No_models_now_loading target) # load_events target a)"
| again_empty:
    "get_models r = [] \<Longrightarrow>
     shape target t0
       (Call Ps (Some (Reply r)) # Log INFO (No_models_now_loading target) #
        load_events target a)"
| again_still:
    "get_models r \<noteq> [] \<Longrightarrow> model_names (get_models r) = Some ns \<Longrightarrow>
     shape target t0
       (Call Ps (Some (Reply r)) # Log INFO (Models_still_loaded ns) # next_cycle_events)"

lemma trace_logger [simp]: "trace (logger l m w) = trace w @ [Log l m]"
  by (simp add: logger_def)

lemma now_logger [simp]: "now (logger l m w) = now w"
  by (simp add: logger_def)

lemma trace_sleep [simp]: "trace (sleep d w) = trace w @ [Sleep d]"
  by (simp add: sleep_def)

lemma trace_wait_for_unload [simp]:
  "trace (wait_for_unload e w) = trace w @ wait_events (timestamp e) (now w)"
  by (simp add: wait_for_unload_def wait_events_def Let_def)

lemma no_Ps_wait_events [simp]: "e \<in> set (wait_events l t) \<Longrightarrow> \<not> is_Ps e"
  by (auto simp: wait_events_def split: if_splits)

text \<open>
  The invariant of a run that started at the time \<open>t0\<close>: the closed segments of the trace
  have a shape, the clock has not gone back, and the open segment is such that the events
  to come complete it to a shape.
\<close>

definition segs_ok :: "string \<Rightarrow> real \<Rightarrow> world \<Rightarrow> bool" where
  "segs_ok target t0 w \<longleftrightarrow>
     (\<forall>s\<in>set (closed_segments (trace w)). shape target t0 s) \<and> t0 \<le> now w"

definition cur :: "world \<Rightarrow> event list" where
  "cur w = open_segment (trace w)"

lemma now_sleep [simp]: "now (sleep d w) = now w + d"
  by (simp add: sleep_def)

lemma now_wait_for_unload: "now w \<le> now (wait_for_unload e w)"
  by (auto simp: wait_for_unload_def Let_def max_def)

lemma segs_ok_now: "segs_ok t t0 w \<Longrightarrow> t0 \<le> now w"
  by (simp add: segs_ok_def)

lemma segs_ok_logger [simp]: "segs_ok t t0 (logger l m w) = segs_ok t t0 w"
  by (simp add: segs_ok_def)

lemma segs_ok_sleep [simp]: "0 \<le> d \<Longrightarrow> segs_ok t t0 w \<Longrightarrow> segs_ok t t0 (sleep d w)"
  by (simp add: segs_ok_def)

lemma segs_ok_wait [simp]: "segs_ok t t0 w \<Longrightarrow> segs_ok t t0 (wait_for_unload e w)"
  using now_wait_for_unload [of w e] by (simp add: segs_ok_def closed_segments_append)

lemma MONITOR_INTERVAL_nonneg [simp]: "0 \<le> MONITOR_INTERVAL"
  by (simp add: MONITOR_INTERVAL_def)

lemma CYCLE_INTERVAL_nonneg [simp]: "0 \<le> CYCLE_INTERVAL"
  by (simp add: CYCLE_INTERVAL_def)

lemma cur_logger [simp]: "cur (logger l m w) = cur w @ [Log l m]"
  by (simp add: cur_def)

lemma cur_sleep [simp]: "cur (sleep d w) = cur w @ [Sleep d]"
  by (simp add: cur_def)

lemma cur_wait [simp]: "cur (wait_for_unload e w) = cur w @ wait_events (timestamp e) (now w)"
  by (simp add: cur_def open_segment_append)

lemma shape_Nil [simp]: "shape t t0 []"
  by (simp add: shape.before_first)

text \<open>
  The next answer of the script, the world after a call of the client, and the events
  with which a cycle ends after a result.
\<close>

definition answer :: "world \<Rightarrow> reply option" where
  "answer w = (case script w of [] \<Rightarrow> None | a # rest \<Rightarrow> Some a)"

fun after_result :: "'a result \<Rightarrow> event list" where
  "after_result (Return x) = next_cycle_events"
| "after_result (Raised e) = handler_events e"
| "after_result OutOfScript = []"

definition answered :: "request \<Rightarrow> world \<Rightarrow> world" where
  "answered rq w = w\<lparr>script := tl (script w), trace := trace w @ [Call rq (answer w)]\<rparr>"

lemma client_call_eq:
  "client_call rq w =
     (case answer w of None \<Rightarrow> OutOfScript | Some (Reply x) \<Rightarrow> Return x | Some (Fail e) \<Rightarrow> Raised e,
      answered rq w)"
  by (cases "script w") (simp_all add: client_call_def answer_def answered_def)

lemma cur_answered [simp]:
  "cur (answered rq w) = (if rq = Ps then [] else cur w) @ [Call rq (answer w)]"
  by (cases rq) (simp_all add: cur_def answered_def)

lemma segs_ok_answered [simp]:
  "segs_ok t t0 (answered rq w) = (segs_ok t t0 w \<and> (rq = Ps \<longrightarrow> shape t t0 (cur w)))"
  by (cases rq) (auto simp: segs_ok_def cur_def answered_def)

lemma now_answered [simp]: "now (answered rq w) = now w"
  by (simp add: answered_def)

lemma check_loaded_models_eq:
  "check_loaded_models w =
     (case answer w of None \<Rightarrow> OutOfScript | Some (Reply x) \<Rightarrow> Return x | Some (Fail e) \<Rightarrow> Raised e,
      case answer w of
        Some (Fail e) \<Rightarrow>
          if is_Exception e
          then logger ERROR (Error_checking_loaded_models e) (answered Ps w)
          else answered Ps w
      | _ \<Rightarrow> answered Ps w)"
  by (simp add: check_loaded_models_def client_call_eq split: option.splits reply.splits)

lemma load_model_eq:
  "load_model n w =
     (case answer w of None \<Rightarrow> OutOfScript | Some (Reply x) \<Rightarrow> Return () | Some (Fail e) \<Rightarrow> Raised e,
      case answer w of
        None \<Rightarrow> answered (Generate n (- 1)) w
      | Some (Reply x) \<Rightarrow> logger INFO (Successfully_loaded n) (answered (Generate n (- 1)) w)
      | Some (Fail e) \<Rightarrow>
          if is_Exception e
          then logger ERROR (Error_loading_model n e) (answered (Generate n (- 1)) w)
          else answered (Generate n (- 1)) w)"
  by (simp add: load_model_def client_call_eq split: option.splits reply.splits)

lemma shape_failed_exc:
  "is_Exception e \<Longrightarrow>
   shape t t0
     (Call Ps (Some (Fail e)) # Log ERROR (Error_checking_loaded_models e) # handler_events e)"
  using shape.failed [of t t0 e] by simp

lemma shape_failed_int:
  "\<not> is_Exception e \<Longrightarrow> shape t t0 (Call Ps (Some (Fail e)) # handler_events e)"
  using shape.failed [of t t0 e] by simp

lemma shape_failed_monitor_exc:
  "is_Exception e \<Longrightarrow>
   shape t t0
     (Call Ps (Some (Fail e)) # Log ERROR (Error_checking_loaded_models e) #
      Log ERROR (Error_during_monitoring e) # handler_events e)"
  using shape.failed_monitor [of t t0 e] by simp

text \<open>
  What holds of the open segment when the monitoring loop is left, for each result.
\<close>

fun monitor_post :: "string \<Rightarrow> real \<Rightarrow> bool result \<Rightarrow> event list \<Rightarrow> bool" where
  "monitor_post t t0 (Return b) c =
     (if b then shape t t0 (c @ next_cycle_events)
      else (\<forall>a. shape t t0 (c @ Log INFO (No_models_now_loading t) # load_events t a)))"
| "monitor_post t t0 (Raised e) c = shape t t0 (c @ handler_events e)"
| "monitor_post t t0 OutOfScript c = shape t t0 c"

lemma monitor_segs:
  "monitor_for_other_models t w = (r, w') \<Longrightarrow> segs_ok t t0 w \<Longrightarrow> shape t t0 (cur w) \<Longrightarrow>
   segs_ok t t0 w' \<and> monitor_post t t0 r (cur w')"
proof (induction t w arbitrary: r w' rule: monitor_for_other_models.induct)
  case (1 t w)
  let ?w1 = "answered Ps w"
  have ok1: "segs_ok t t0 ?w1" using "1.prems" by simp
  have t0: "t0 \<le> now w" using "1.prems"(2) by (rule segs_ok_now)
  have cur1: "cur ?w1 = [Call Ps (answer w)]" by simp
  show ?case
  proof (cases "answer w")
    case None
    with "1.prems" ok1 show ?thesis
      by (auto simp: monitor_for_other_models.simps [of t w] check_loaded_models_eq
          shape.unanswered)
  next
    case (Some a)
    show ?thesis
    proof (cases a)
      case (Fail e)
      with Some "1.prems" ok1 show ?thesis
        by (auto simp: monitor_for_other_models.simps [of t w] check_loaded_models_eq
            shape_failed_monitor_exc shape_failed_int)
    next
      case (Reply x)
      have c: "check_loaded_models w = (Return x, ?w1)"
        using Some Reply by (simp add: check_loaded_models_eq)
      show ?thesis
      proof (cases "model_names (get_models x)")
        case None
        with c Some Reply "1.prems" ok1 show ?thesis
          by (auto simp: monitor_for_other_models.simps [of t w] shape.nameless_monitor)
      next
        case (Some ns)
        note names = Some
        show ?thesis
        proof (cases "t \<in> set ns")
          case True
          show ?thesis
          proof (cases "length ns > 1")
            case long: True
            with True names c \<open>answer w = Some a\<close> Reply "1.prems" ok1 show ?thesis
              by (auto simp: monitor_for_other_models.simps [of t w] shape.monitor_mixed)
          next
            case False
            let ?w2 = "sleep MONITOR_INTERVAL (logger INFO (Only_target_loaded t) ?w1)"
            have m: "monitor_for_other_models t ?w2 = (r, w')"
              using "1.prems"(1) c names True False
              by (simp add: monitor_for_other_models.simps [of t w])
            have "shape t t0 (cur ?w2)"
              using \<open>answer w = Some a\<close> Reply names True False
              by (simp add: shape.monitor_target)
            moreover have "segs_ok t t0 ?w2" using ok1 by simp
            ultimately show ?thesis
              using "1.IH"(1) [OF c [symmetric] refl refl names True False m] by simp
          qed
        next
          case False
          show ?thesis
          proof (cases "get_models x = []")
            case True
            with False names c \<open>answer w = Some a\<close> Reply "1.prems" ok1 show ?thesis
              by (auto simp: monitor_for_other_models.simps [of t w] shape.monitor_empty)
          next
            case ne: False
            show ?thesis
            proof (cases "latest_expires_at_monitor (now ?w1) (get_models x) 0")
              case (Inl e)
              then have "latest_expires_at_monitor (now w) (get_models x) 0 = Inl e"
                by simp
              from shape.monitor_unreadable [OF names False ne t0 this] Inl
                "1.prems"(1) c names False ne \<open>answer w = Some a\<close> Reply ok1
              show ?thesis
                by (auto simp: monitor_for_other_models.simps [of t w])
            next
              case (Inr l)
              then have l: "latest_expires_at_monitor (now w) (get_models x) 0 = Inr l"
                by simp
              show ?thesis
              proof (cases "l > 0")
                case True
                show ?thesis
                proof (cases "fromtimestamp_ok l")
                  case ok: True
                  let ?w2 = "wait_for_unload (Num l) (logger INFO (Other_models_waiting l) ?w1)"
                  have m: "monitor_for_other_models t ?w2 = (r, w')"
                    using "1.prems"(1) c names False ne Inr True ok
                    by (simp add: monitor_for_other_models.simps [of t w])
                  have "shape t t0 (cur ?w2)"
                    using shape.monitor_wait [OF names False ne t0 l True ok]
                      \<open>answer w = Some a\<close> Reply
                    by simp
                  moreover have "segs_ok t t0 ?w2" using ok1 by simp
                  ultimately show ?thesis
                    using "1.IH"(2) [OF c [symmetric] refl refl names False ne Inr True ok m]
                    by simp
                next
                  case False
                  from shape.monitor_unprintable [OF names \<open>t \<notin> set ns\<close> ne t0 l True False]
                    Inr True False "1.prems"(1) c names \<open>t \<notin> set ns\<close> ne
                    \<open>answer w = Some a\<close> Reply ok1
                  show ?thesis
                    by (auto simp: monitor_for_other_models.simps [of t w])
                qed
              next
                case nev: False
                let ?w2 = "sleep MONITOR_INTERVAL (logger INFO Other_models_no_expiration ?w1)"
                have m: "monitor_for_other_models t ?w2 = (r, w')"
                  using "1.prems"(1) c names False ne Inr nev
                  by (simp add: monitor_for_other_models.simps [of t w])
                have "shape t t0 (cur ?w2)"
                  using shape.monitor_never [OF names False ne t0 l nev]
                    \<open>answer w = Some a\<close> Reply
                  by simp
                moreover have "segs_ok t t0 ?w2" using ok1 by simp
                ultimately show ?thesis
                  using "1.IH"(3) [OF c [symmetric] refl refl names False ne Inr nev m] by simp
              qed
            qed
          qed
        qed
      qed
    qed
  qed
qed

lemma load_model_segs:
  assumes "load_model n w = (r, w')"
  shows "segs_ok t t0 w' = segs_ok t t0 w"
    and "cur w' @ after_result r = cur w @ load_events n (answer w)"
proof -
  show "segs_ok t t0 w' = segs_ok t t0 w"
  proof (cases "answer w")
    case None
    with assms show ?thesis by (auto simp: load_model_eq)
  next
    case (Some a)
    with assms show ?thesis by (cases a) (auto simp: load_model_eq split: if_splits)
  qed
  show "cur w' @ after_result r = cur w @ load_events n (answer w)"
  proof (cases "answer w")
    case None
    with assms show ?thesis by (auto simp: load_model_eq)
  next
    case (Some a)
    with assms show ?thesis by (cases a) (auto simp: load_model_eq split: if_splits)
  qed
qed

lemma target_loaded_segs:
  assumes "target_loaded t w = (r, w')" and "segs_ok t t0 w"
    and "shape t t0 (cur w @ [Log INFO (Already_loaded t)])"
  shows "segs_ok t t0 w' \<and> shape t t0 (cur w' @ after_result r)"
proof -
  obtain rm w2 where m: "monitor_for_other_models t (logger INFO (Already_loaded t) w) = (rm, w2)"
    by (cases "monitor_for_other_models t (logger INFO (Already_loaded t) w)")
  from monitor_segs [OF m, of t0] assms(2,3)
  have ok2: "segs_ok t t0 w2" and post: "monitor_post t t0 rm (cur w2)" by simp_all
  show ?thesis
  proof (cases rm)
    case OutOfScript
    with m assms(1) ok2 post show ?thesis by (auto simp: target_loaded_def)
  next
    case (Raised e)
    with m assms(1) ok2 post show ?thesis by (auto simp: target_loaded_def)
  next
    case (Return b)
    show ?thesis
    proof (cases b)
      case True
      with Return m assms(1) ok2 post show ?thesis by (auto simp: target_loaded_def)
    next
      case False
      with Return m assms(1)
      have l: "load_model t (logger INFO (No_models_now_loading t) w2) = (r, w')"
        by (simp add: target_loaded_def)
      from load_model_segs [OF l] ok2 post Return False show ?thesis by simp
    qed
  qed
qed

lemma check_again_segs:
  assumes "check_again t w = (r, w')" and "segs_ok t t0 w" and "shape t t0 (cur w)"
  shows "segs_ok t t0 w' \<and> shape t t0 (cur w' @ after_result r)"
proof -
  let ?w1 = "answered Ps w"
  have ok1: "segs_ok t t0 ?w1" using assms by simp
  show ?thesis
  proof (cases "answer w")
    case None
    with assms ok1 show ?thesis
      by (auto simp: check_again_def check_loaded_models_eq shape.unanswered)
  next
    case (Some a)
    show ?thesis
    proof (cases a)
      case (Fail e)
      with Some assms ok1 show ?thesis
        by (auto simp: check_again_def check_loaded_models_eq shape_failed_exc shape_failed_int)
    next
      case (Reply x)
      have c: "check_loaded_models w = (Return x, ?w1)"
        using Some Reply by (simp add: check_loaded_models_eq)
      show ?thesis
      proof (cases "get_models x = []")
        case True
        with c assms(1)
        have l: "load_model t (logger INFO (No_models_now_loading t) ?w1) = (r, w')"
          by (simp add: check_again_def)
        from load_model_segs [OF l] ok1 Some Reply True show ?thesis
          by (simp add: shape.again_empty)
      next
        case False
        with c assms(1) ok1 Some Reply show ?thesis
          by (auto simp: check_again_def shape.nameless shape.again_still
              split: option.splits)
      qed
    qed
  qed
qed

lemma others_loaded_segs:
  assumes "others_loaded t (get_models x) w = (r, w')" and "segs_ok t t0 w"
    and "cur w = [Call Ps (Some (Reply x))]"
    and "model_names (get_models x) = Some ns" and "t \<notin> set ns" and "get_models x \<noteq> []"
  shows "segs_ok t t0 w' \<and> shape t t0 (cur w' @ after_result r)"
proof (cases "latest_expires_at_main (now w) (get_models x) 0")
  case (Inl e)
  from shape.main_unreadable [OF assms(4,5,6) segs_ok_now [OF assms(2)] Inl] Inl assms(1,2,3)
  show ?thesis
    by (auto simp: others_loaded_def)
next
  case (Inr l)
  note t0 = segs_ok_now [OF assms(2)]
  show ?thesis
  proof (cases "l > 0")
    case True
    show ?thesis
    proof (cases "fromtimestamp_ok l")
      case ok: True
      let ?w2 = "wait_for_unload (Num l) (logger INFO (Other_models_waiting l) w)"
      from Inr True ok assms(1) have c: "check_again t ?w2 = (r, w')"
        by (simp add: others_loaded_def)
      have "shape t t0 (cur ?w2)"
        using shape.main_wait [OF assms(4,5,6) t0 Inr True ok] assms(3) by simp
      moreover have "segs_ok t t0 ?w2" using assms(2) by simp
      ultimately show ?thesis using check_again_segs [OF c] by simp
    next
      case False
      from shape.main_unprintable [OF assms(4,5,6) t0 Inr True False] Inr True False assms(1,2,3)
      show ?thesis
        by (auto simp: others_loaded_def)
    qed
  next
    case False
    from shape.main_never [OF assms(4,5,6) t0 Inr False] Inr False assms(1,2,3)
    show ?thesis
      by (auto simp: others_loaded_def)
  qed
qed

text \<open>What holds of the open segment when a cycle is left.\<close>

fun cycle_post :: "string \<Rightarrow> real \<Rightarrow> unit result \<Rightarrow> event list \<Rightarrow> bool" where
  "cycle_post t t0 (Return u) c = shape t t0 (c @ [Log INFO Entering_main_cycle])"
| "cycle_post t t0 (Raised e) c = shape t t0 (c @ handler_events e)"
| "cycle_post t t0 OutOfScript c = shape t t0 c"

lemma cycle_post_finish:
  assumes "segs_ok t t0 w4" and "shape t t0 (cur w4 @ after_result r4)"
    and "(case (r4, w4) of
            (Return u, w4) \<Rightarrow> (Return (), sleep CYCLE_INTERVAL (logger INFO Cycle_complete w4))
          | (Raised e, w4) \<Rightarrow> (Raised e, w4)
          | (OutOfScript, w4) \<Rightarrow> (OutOfScript, w4)) = (r, w')"
  shows "segs_ok t t0 w' \<and> cycle_post t t0 r (cur w')"
  using assms by (cases r4) (auto simp: next_cycle_events_def)

lemma cycle_segs:
  assumes "cycle t w = (r, w')" and "segs_ok t t0 w"
    and "shape t t0 (cur w @ [Log INFO Entering_main_cycle])"
  shows "segs_ok t t0 w' \<and> cycle_post t t0 r (cur w')"
proof -
  let ?w0 = "logger INFO Entering_main_cycle w"
  let ?w1 = "answered Ps ?w0"
  have ok1: "segs_ok t t0 ?w1" using assms(2,3) by simp
  have cur1: "cur ?w1 = [Call Ps (answer ?w0)]" by simp
  show ?thesis
  proof (cases "answer ?w0")
    case None
    with assms(1) ok1 show ?thesis
      by (auto simp: cycle_def check_loaded_models_eq shape.unanswered)
  next
    case (Some a)
    show ?thesis
    proof (cases a)
      case (Fail e)
      with Some assms(1) ok1 show ?thesis
        by (auto simp: cycle_def check_loaded_models_eq shape_failed_exc shape_failed_int)
    next
      case (Reply x)
      have c: "check_loaded_models ?w0 = (Return x, ?w1)"
        using Some Reply by (simp add: check_loaded_models_eq)
      show ?thesis
      proof (cases "model_names (get_models x)")
        case None
        with c assms(1) ok1 Some Reply show ?thesis
          by (auto simp: cycle_def shape.nameless)
      next
        case names: (Some ns)
        obtain r4 w4 where b:
          "(if t \<in> set ns then target_loaded t ?w1
            else if get_models x \<noteq> [] then others_loaded t (get_models x) ?w1
            else load_model t (logger INFO (No_models_loading t) ?w1)) = (r4, w4)"
          by (cases "if t \<in> set ns then target_loaded t ?w1
            else if get_models x \<noteq> [] then others_loaded t (get_models x) ?w1
            else load_model t (logger INFO (No_models_loading t) ?w1)")
        have fin: "(case (r4, w4) of
            (Return u, w4) \<Rightarrow> (Return (), sleep CYCLE_INTERVAL (logger INFO Cycle_complete w4))
          | (Raised e, w4) \<Rightarrow> (Raised e, w4)
          | (OutOfScript, w4) \<Rightarrow> (OutOfScript, w4)) = (r, w')"
          using assms(1) c names b by (simp add: cycle_def)
        have "segs_ok t t0 w4 \<and> shape t t0 (cur w4 @ after_result r4)"
        proof (cases "t \<in> set ns")
          case True
          with b have tl: "target_loaded t ?w1 = (r4, w4)" by simp
          have "shape t t0 (cur ?w1 @ [Log INFO (Already_loaded t)])"
            using Some Reply names True by (simp add: shape.main_target)
          with target_loaded_segs [OF tl ok1] show ?thesis by simp
        next
          case False
          show ?thesis
          proof (cases "get_models x = []")
            case True
            with False b have l: "load_model t (logger INFO (No_models_loading t) ?w1) = (r4, w4)"
              by simp
            from load_model_segs [OF l] ok1 Some Reply True show ?thesis
              by (simp add: shape.main_empty)
          next
            case ne: False
            with False b have ol: "others_loaded t (get_models x) ?w1 = (r4, w4)" by simp
            have "cur ?w1 = [Call Ps (Some (Reply x))]" using Some Reply by simp
            from others_loaded_segs [OF ol ok1 this names False ne] show ?thesis .
          qed
        qed
        then show ?thesis using cycle_post_finish [OF _ _ fin] by simp
      qed
    qed
  qed
qed

lemma main_loop_segs:
  "main_loop t w = (out, w') \<Longrightarrow> segs_ok t t0 w \<Longrightarrow>
   shape t t0 (cur w @ [Log INFO Entering_main_cycle]) \<Longrightarrow>
   segs_ok t t0 w' \<and> shape t t0 (cur w')"
proof (induction t w arbitrary: out w' rule: main_loop.induct)
  case (1 t w)
  obtain r w1 where c: "cycle t w = (r, w1)" by (cases "cycle t w")
  from cycle_segs [OF c "1.prems"(2,3)]
  have ok1: "segs_ok t t0 w1" and post: "cycle_post t t0 r (cur w1)" by simp_all
  show ?case
  proof (cases r)
    case OutOfScript
    with c "1.prems"(1) ok1 post show ?thesis
      by (auto simp: main_loop.simps [of t w])
  next
    case (Return u)
    with c "1.prems"(1) have "main_loop t w1 = (out, w')"
      by (simp add: main_loop.simps [of t w])
    from "1.IH"(1) [OF c [symmetric] Return this ok1] post Return show ?thesis by simp
  next
    case (Raised e)
    show ?thesis
    proof (cases "e = KeyboardInterrupt")
      case True
      with Raised c "1.prems"(1) ok1 post show ?thesis
        by (auto simp: main_loop.simps [of t w] handler_events_def)
    next
      case False
      let ?w2 = "sleep 10 (logger INFO Retrying (logger ERROR (Error_occurred e) w1))"
      from False Raised c "1.prems"(1) have m: "main_loop t ?w2 = (out, w')"
        by (simp add: main_loop.simps [of t w])
      have "shape t t0 (cur ?w2 @ [Log INFO Entering_main_cycle])"
        using post Raised False by (simp add: handler_events_def)
      moreover have "segs_ok t t0 ?w2" using ok1 by simp
      ultimately show ?thesis using "1.IH"(2) [OF c [symmetric] Raised False m] by simp
    qed
  qed
qed

text \<open>
  Every segment of the trace of a run has a shape, for the time \<open>t0\<close> at which the run
  started or any earlier time.
\<close>

lemma run_segments_from:
  assumes "main_loop t w = (out, w')" and "\<forall>e\<in>set (trace w). \<not> is_Ps e"
    and "s \<in> set (segments (trace w'))" and "t0 \<le> now w"
  shows "shape t t0 s"
proof -
  have cl: "closed_segments (trace w) = closed_segments ([] @ trace w)" by simp
  have "closed_segments ([] @ trace w) = closed_segments []"
    using assms(2) by (rule closed_segments_append)
  then have ok: "segs_ok t t0 w" using assms(4) by (simp add: segs_ok_def)
  have "open_segment ([] @ trace w) = open_segment [] @ trace w"
    using assms(2) by (rule open_segment_append)
  then have cw: "cur w = trace w" by (simp add: cur_def)
  have "shape t t0 (cur w @ [Log INFO Entering_main_cycle])"
    using assms(2) by (cases "trace w") (auto simp: cw intro: shape.before_first)
  from main_loop_segs [OF assms(1) ok this]
  have "segs_ok t t0 w'" and "shape t t0 (cur w')" by simp_all
  with assms(3) show ?thesis
    by (cases "trace w' = []") (auto simp: segments_closed_open segs_ok_def cur_def)
qed

lemma run_segments:
  assumes "main_loop t w = (out, w')" and "\<forall>e\<in>set (trace w). \<not> is_Ps e"
    and "s \<in> set (segments (trace w'))"
  shows "shape t (now w) s"
  using assms by (rule run_segments_from) simp

section \<open>Observations on a trace\<close>

text \<open>
  The client calls of a trace with their answers, the requests alone, the durations of
  the sleeps and the messages logged at level ERROR, in the order of the trace.
\<close>

fun calls :: "event list \<Rightarrow> (request \<times> reply option) list" where
  "calls [] = []"
| "calls (Call rq a # es) = (rq, a) # calls es"
| "calls (e # es) = calls es"

definition requests :: "event list \<Rightarrow> request list" where
  "requests es = map fst (calls es)"

fun sleeps :: "event list \<Rightarrow> real list" where
  "sleeps [] = []"
| "sleeps (Sleep d # es) = d # sleeps es"
| "sleeps (e # es) = sleeps es"

fun error_logs :: "event list \<Rightarrow> msg list" where
  "error_logs [] = []"
| "error_logs (Log ERROR m # es) = m # error_logs es"
| "error_logs (e # es) = error_logs es"

fun replied :: "reply option \<Rightarrow> bool" where
  "replied (Some (Reply x)) = True"
| "replied a = False"

lemma calls_append [simp]: "calls (xs @ ys) = calls xs @ calls ys"
  by (induction xs rule: calls.induct) auto

lemma sleeps_append [simp]: "sleeps (xs @ ys) = sleeps xs @ sleeps ys"
  by (induction xs rule: sleeps.induct) auto

lemma error_logs_append [simp]: "error_logs (xs @ ys) = error_logs xs @ error_logs ys"
  by (induction xs rule: error_logs.induct) auto

lemma requests_append [simp]: "requests (xs @ ys) = requests xs @ requests ys"
  by (simp add: requests_def)

lemma calls_wait_events [simp]: "calls (wait_events l t) = []"
  by (simp add: wait_events_def)

lemma error_logs_wait_events [simp]: "error_logs (wait_events l t) = []"
  by (simp add: wait_events_def)

lemma calls_next [simp]: "calls next_cycle_events = []"
  by (simp add: next_cycle_events_def)

lemma sleeps_next [simp]: "sleeps next_cycle_events = [CYCLE_INTERVAL]"
  by (simp add: next_cycle_events_def)

lemma error_logs_next [simp]: "error_logs next_cycle_events = []"
  by (simp add: next_cycle_events_def)

lemma last_next [simp]: "last (es @ next_cycle_events) = Log INFO Entering_main_cycle"
  by (simp add: next_cycle_events_def)

lemma next_not_Nil [simp]: "next_cycle_events \<noteq> []"
  by (simp add: next_cycle_events_def)

lemma calls_handler [simp]: "calls (handler_events e) = []"
  by (simp add: handler_events_def)

lemma handler_not_Nil [simp]: "handler_events e \<noteq> []"
  by (simp add: handler_events_def)

lemma calls_load_events [simp]: "calls (load_events t a) = [(Generate t (- 1), a)]"
  by (cases "(t, a)" rule: load_events.cases) auto

lemma load_events_not_Nil [simp]: "load_events t a \<noteq> []"
  by (cases "(t, a)" rule: load_events.cases) auto

lemma sleeps_load_events [simp]: "replied a \<Longrightarrow> sleeps (load_events t a) = [CYCLE_INTERVAL]"
  by (cases "(t, a)" rule: load_events.cases) auto

lemma last_load_events [simp]:
  "replied a \<Longrightarrow> last (load_events t a) = Log INFO Entering_main_cycle"
  by (cases "(t, a)" rule: load_events.cases) (auto simp: next_cycle_events_def)

lemma model_names_Nil [simp]: "model_names ms = Some [] \<longleftrightarrow> ms = []"
  by (cases ms) (auto split: option.splits)

text \<open>The definitions that evaluate a run on a given script.\<close>

lemmas run_defs =
  main_loop.simps cycle_def target_loaded_def others_loaded_def check_again_def
  monitor_for_other_models.simps check_loaded_models_def load_model_def client_call_def
  wait_for_unload_def logger_def sleep_def fromtimestamp_ok_def requests_def
  CYCLE_INTERVAL_def MONITOR_INTERVAL_def

section \<open>An empty snapshot\<close>

lemma shape_empty:
  assumes "shape t t0 (Call Ps (Some (Reply r)) # es)" and "get_models r = []"
  shows "requests es = [Generate t (- 1)] \<and>
    (list_all (\<lambda>c. replied (snd c)) (calls es) \<longrightarrow>
       sleeps es = [CYCLE_INTERVAL] \<and> last es = Log INFO Entering_main_cycle)"
  using assms by (auto elim!: shape.cases simp: requests_def)

text \<open>
  Claim C4. Whenever a probe is answered with an empty snapshot (the response has no
  entry \<^verbatim>\<open>models\<close>, or an empty list), whichever of the three probes of the program it is,
  the program makes exactly one call of the client before it probes again, and this call is
  the generate request for the target model with \<^verbatim>\<open>keep_alive=-1\<close>. If the daemon answers
  that request with a response, the only sleep before the next probe is the cycle pause
  \<open>CYCLE_INTERVAL\<close>, and the next probe is the first one of a new cycle.
\<close>

theorem empty_snapshot_one_load:
  assumes "main_loop target w = (out, w')" and "\<forall>e\<in>set (trace w). \<not> is_Ps e"
    and "Call Ps (Some (Reply r)) # es \<in> set (segments (trace w'))"
    and "get_models r = []"
  shows "requests es = [Generate target (- 1)] \<and>
    (list_all (\<lambda>c. replied (snd c)) (calls es) \<longrightarrow>
       sleeps es = [CYCLE_INTERVAL] \<and> last es = Log INFO Entering_main_cycle)"
  using run_segments [OF assms(1,2,3)] assms(4) by (rule shape_empty)

theorem empty_snapshot_one_load_witness:
  "main_loop ''B'' \<lparr>script = [Reply (Some []), Reply None], now = 0, trace = []\<rparr> =
     (Running,
      \<lparr>script = [], now = 5,
       trace =
         [Log INFO Entering_main_cycle, Call Ps (Some (Reply (Some []))),
          Log INFO (No_models_loading ''B''),
          Call (Generate ''B'' (- 1)) (Some (Reply None)),
          Log INFO (Successfully_loaded ''B''), Log INFO Cycle_complete,
          Sleep 5, Log INFO Entering_main_cycle, Call Ps None]\<rparr>) \<and>
   requests
     [Log INFO (No_models_loading ''B''),
      Call (Generate ''B'' (- 1)) (Some (Reply None)),
      Log INFO (Successfully_loaded ''B''), Log INFO Cycle_complete,
      Sleep 5, Log INFO Entering_main_cycle] = [Generate ''B'' (- 1)] \<and>
   sleeps
     [Log INFO (No_models_loading ''B''),
      Call (Generate ''B'' (- 1)) (Some (Reply None)),
      Log INFO (Successfully_loaded ''B''), Log INFO Cycle_complete,
      Sleep 5, Log INFO Entering_main_cycle] = [CYCLE_INTERVAL]"
proof -
  let ?w = "\<lparr>script = [Reply (Some []), Reply None], now = 0, trace = []\<rparr>"
  let ?es = "[Log INFO (No_models_loading ''B''),
      Call (Generate ''B'' (- 1)) (Some (Reply None)),
      Log INFO (Successfully_loaded ''B''), Log INFO Cycle_complete,
      Sleep 5, Log INFO Entering_main_cycle]"
  let ?w' = "\<lparr>script = [], now = 5,
       trace = Log INFO Entering_main_cycle # Call Ps (Some (Reply (Some []))) # ?es @
               [Call Ps None]\<rparr>"
  have run: "main_loop ''B'' ?w = (Running, ?w')"
    by (simp add: run_defs)
  have init: "\<forall>e\<in>set (trace ?w). \<not> is_Ps e"
    by simp
  have seg: "Call Ps (Some (Reply (Some []))) # ?es \<in> set (segments (trace ?w'))"
    by simp
  have "get_models (Some []) = []"
    by simp
  from empty_snapshot_one_load [OF run init seg this] run show ?thesis
    by (simp add: requests_def CYCLE_INTERVAL_def)
qed

section \<open>A snapshot with the target model alone\<close>

lemma model_names_all_target:
  "\<forall>m\<in>set ms. name m = Some t \<Longrightarrow> model_names ms = Some (map (\<lambda>m. t) ms)"
  by (induction ms) auto

lemma shape_only_target:
  assumes "shape t t0 (Call Ps (Some (Reply r)) # es)" and "get_models r \<noteq> []"
    and "\<forall>m\<in>set (get_models r). name m = Some t"
  shows "requests es = []"
proof -
  have n: "model_names (get_models r) = Some (map (\<lambda>m. t) (get_models r))"
    using assms(3) by (rule model_names_all_target)
  have "t \<in> set (map (\<lambda>m. t) (get_models r))"
    using assms(2) by (cases "get_models r") auto
  with assms(1,2) n show ?thesis
    by (auto elim!: shape.cases simp: requests_def)
qed

text \<open>One round of the monitoring loop while the target is the only model loaded.\<close>

definition target_round :: "string \<Rightarrow> response \<Rightarrow> event list" where
  "target_round t r =
     [Call Ps (Some (Reply r)), Log INFO (Only_target_loaded t), Sleep MONITOR_INTERVAL]"

lemma monitor_target_only:
  assumes "script w = Reply r # rest" and "model_names (get_models r) = Some [t]"
  shows "monitor_for_other_models t w =
    monitor_for_other_models t
      (w\<lparr>script := rest, now := now w + MONITOR_INTERVAL, trace := trace w @ target_round t r\<rparr>)"
  using assms
  by (simp add: monitor_for_other_models.simps [of t w] check_loaded_models_reply
      target_round_def logger_def sleep_def)

lemma monitor_loop_target_only:
  "\<forall>r\<in>set rs. model_names (get_models r) = Some [t] \<Longrightarrow> script w = map Reply rs \<Longrightarrow>
   monitor_for_other_models t w =
     (OutOfScript,
      w\<lparr>script := [], now := now w + MONITOR_INTERVAL * real (length rs),
         trace := trace w @ concat (map (target_round t) rs) @ [Call Ps None]\<rparr>)"
proof (induction rs arbitrary: w)
  case Nil
  then show ?case
    by (simp add: monitor_for_other_models.simps [of t w] check_loaded_models_out)
next
  case (Cons r rs)
  let ?w1 = "w\<lparr>script := map Reply rs, now := now w + MONITOR_INTERVAL,
        trace := trace w @ target_round t r\<rparr>"
  have "monitor_for_other_models t w = monitor_for_other_models t ?w1"
    using Cons.prems by (simp add: monitor_target_only)
  also have "\<dots> = (OutOfScript,
      ?w1\<lparr>script := [], now := now ?w1 + MONITOR_INTERVAL * real (length rs),
         trace := trace ?w1 @ concat (map (target_round t) rs) @ [Call Ps None]\<rparr>)"
    using Cons.prems by (intro Cons.IH) simp_all
  finally show ?case
    by (simp add: algebra_simps)
qed

lemma main_loop_target_only:
  assumes "\<forall>r\<in>set (r0 # rs). model_names (get_models r) = Some [t]"
    and "script w = map Reply (r0 # rs)"
  shows "main_loop t w =
     (Running,
      w\<lparr>script := [], now := now w + MONITOR_INTERVAL * real (length rs),
         trace := trace w @
           [Log INFO Entering_main_cycle, Call Ps (Some (Reply r0)), Log INFO (Already_loaded t)] @
           concat (map (target_round t) rs) @ [Call Ps None]\<rparr>)"
proof -
  let ?w0 = "w\<lparr>script := map Reply rs,
        trace := trace w @ [Log INFO Entering_main_cycle, Call Ps (Some (Reply r0))]\<rparr>"
  let ?w1 = "logger INFO (Already_loaded t) ?w0"
  let ?w2 = "?w1\<lparr>script := [], now := now ?w1 + MONITOR_INTERVAL * real (length rs),
         trace := trace ?w1 @ concat (map (target_round t) rs) @ [Call Ps None]\<rparr>"
  have c: "check_loaded_models (logger INFO Entering_main_cycle w) = (Return r0, ?w0)"
    using assms(2) by (simp add: check_loaded_models_def client_call_def logger_def)
  have m: "monitor_for_other_models t ?w1 = (OutOfScript, ?w2)"
    using assms(1) by (intro monitor_loop_target_only) simp_all
  have "cycle t w = (OutOfScript, ?w2)"
    using assms(1) by (simp add: cycle_def c target_loaded_def m)
  then have "main_loop t w = (Running, ?w2)"
    by (simp add: main_loop.simps [of t w])
  then show ?thesis
    by (simp add: logger_def)
qed

text \<open>
  A call of the client other than a probe comes only after a probe that was answered with
  an empty snapshot, and it is the Loader call for the target.
\<close>

lemma shape_load_after_empty:
  assumes "shape t t0 (Call Ps a # es)" and "requests es \<noteq> []"
  shows "(\<exists>r. a = Some (Reply r) \<and> get_models r = []) \<and> requests es = [Generate t (- 1)]"
  using assms by (auto elim!: shape.cases simp: requests_def split: if_splits)

text \<open>
  Claim C5, as amended. Whenever a probe is answered with a snapshot that holds the target
  model and nothing else, whichever of the three probes of the program it is, the program
  makes no call of the client, and so no Loader call, before it probes again. In every run
  a Loader call is made only after a probe that was answered with an empty snapshot, and
  before the next probe. And a cycle of the main loop in which every probe is answered with
  the target model alone makes no Loader call however long it lasts: it enters the
  monitoring loop and probes again every \<open>MONITOR_INTERVAL\<close>.
\<close>

theorem target_only_no_load:
  "(main_loop target w = (out, w') \<longrightarrow> (\<forall>e\<in>set (trace w). \<not> is_Ps e) \<longrightarrow>
      Call Ps (Some (Reply r)) # es \<in> set (segments (trace w')) \<longrightarrow>
      get_models r \<noteq> [] \<longrightarrow> (\<forall>m\<in>set (get_models r). name m = Some target) \<longrightarrow>
      requests es = []) \<and>
   (main_loop target w = (out, w') \<longrightarrow> (\<forall>e\<in>set (trace w). \<not> is_Ps e) \<longrightarrow>
      Call Ps a # es' \<in> set (segments (trace w')) \<longrightarrow> requests es' \<noteq> [] \<longrightarrow>
      (\<exists>r'. a = Some (Reply r') \<and> get_models r' = []) \<and>
      requests es' = [Generate target (- 1)]) \<and>
   ((\<forall>r\<in>set (r0 # rs). model_names (get_models r) = Some [target]) \<longrightarrow>
      script v = map Reply (r0 # rs) \<longrightarrow>
      main_loop target v =
        (Running,
         v\<lparr>script := [], now := now v + MONITOR_INTERVAL * real (length rs),
            trace := trace v @
              [Log INFO Entering_main_cycle, Call Ps (Some (Reply r0)),
               Log INFO (Already_loaded target)] @
              concat (map (\<lambda>r. [Call Ps (Some (Reply r)), Log INFO (Only_target_loaded target),
                                 Sleep MONITOR_INTERVAL]) rs) @
              [Call Ps None]\<rparr>))"
proof (intro conjI impI)
  assume "main_loop target w = (out, w')" and "\<forall>e\<in>set (trace w). \<not> is_Ps e"
    and "Call Ps (Some (Reply r)) # es \<in> set (segments (trace w'))"
  then have "shape target (now w) (Call Ps (Some (Reply r)) # es)"
    by (rule run_segments)
  moreover assume "get_models r \<noteq> []" and "\<forall>m\<in>set (get_models r). name m = Some target"
  ultimately show "requests es = []"
    by (rule shape_only_target)
next
  assume "main_loop target w = (out, w')" and "\<forall>e\<in>set (trace w). \<not> is_Ps e"
    and "Call Ps a # es' \<in> set (segments (trace w'))"
  then have "shape target (now w) (Call Ps a # es')"
    by (rule run_segments)
  moreover assume "requests es' \<noteq> []"
  ultimately have l: "(\<exists>r. a = Some (Reply r) \<and> get_models r = []) \<and>
      requests es' = [Generate target (- 1)]"
    by (rule shape_load_after_empty)
  from l show "\<exists>r'. a = Some (Reply r') \<and> get_models r' = []"
    by simp
  from l show "requests es' = [Generate target (- 1)]"
    by simp
next
  assume a: "\<forall>r\<in>set (r0 # rs). model_names (get_models r) = Some [target]"
    and s: "script v = map Reply (r0 # rs)"
  have "target_round target =
      (\<lambda>r. [Call Ps (Some (Reply r)), Log INFO (Only_target_loaded target),
            Sleep MONITOR_INTERVAL])"
    by (rule ext) (simp add: target_round_def)
  with main_loop_target_only [OF a s]
  show "main_loop target v =
        (Running,
         v\<lparr>script := [], now := now v + MONITOR_INTERVAL * real (length rs),
            trace := trace v @
              [Log INFO Entering_main_cycle, Call Ps (Some (Reply r0)),
               Log INFO (Already_loaded target)] @
              concat (map (\<lambda>r. [Call Ps (Some (Reply r)), Log INFO (Only_target_loaded target),
                                 Sleep MONITOR_INTERVAL]) rs) @
              [Call Ps None]\<rparr>)"
    by simp
qed

theorem target_only_no_load_witness:
  "main_loop ''B''
     \<lparr>script = [Reply (Some [\<lparr>name = Some ''B'', expires_at = Some (Datetime 4000)\<rparr>]),
                Reply (Some [\<lparr>name = Some ''B'', expires_at = Some (Datetime 4000)\<rparr>]),
                Reply (Some []), Reply None],
      now = 1000, trace = []\<rparr> =
     (Running,
      \<lparr>script = [], now = 1065,
       trace =
         [Log INFO Entering_main_cycle,
          Call Ps (Some (Reply (Some [\<lparr>name = Some ''B'', expires_at = Some (Datetime 4000)\<rparr>]))),
          Log INFO (Already_loaded ''B''),
          Call Ps (Some (Reply (Some [\<lparr>name = Some ''B'', expires_at = Some (Datetime 4000)\<rparr>]))),
          Log INFO (Only_target_loaded ''B''), Sleep 60,
          Call Ps (Some (Reply (Some []))),
          Log INFO (No_longer_loaded ''B''), Log INFO (No_models_now_loading ''B''),
          Call (Generate ''B'' (- 1)) (Some (Reply None)),
          Log INFO (Successfully_loaded ''B''), Log INFO Cycle_complete, Sleep 5,
          Log INFO Entering_main_cycle, Call Ps None]\<rparr>) \<and>
   requests [Log INFO (Only_target_loaded ''B''), Sleep 60] = [] \<and>
   requests
     [Log INFO (No_longer_loaded ''B''), Log INFO (No_models_now_loading ''B''),
      Call (Generate ''B'' (- 1)) (Some (Reply None)),
      Log INFO (Successfully_loaded ''B''), Log INFO Cycle_complete, Sleep 5,
      Log INFO Entering_main_cycle] = [Generate ''B'' (- 1)] \<and>
   main_loop ''B''
     \<lparr>script = [Reply (Some [\<lparr>name = Some ''B'', expires_at = Some (Datetime 4000)\<rparr>]),
                Reply (Some [\<lparr>name = Some ''B'', expires_at = Some (Datetime 4000)\<rparr>])],
      now = 1000, trace = []\<rparr> =
     (Running,
      \<lparr>script = [], now = 1060,
       trace =
         [Log INFO Entering_main_cycle,
          Call Ps (Some (Reply (Some [\<lparr>name = Some ''B'', expires_at = Some (Datetime 4000)\<rparr>]))),
          Log INFO (Already_loaded ''B''),
          Call Ps (Some (Reply (Some [\<lparr>name = Some ''B'', expires_at = Some (Datetime 4000)\<rparr>]))),
          Log INFO (Only_target_loaded ''B''), Sleep 60, Call Ps None]\<rparr>)"
proof -
  let ?r = "Some [\<lparr>name = Some ''B'', expires_at = Some (Datetime 4000)\<rparr>]"
  let ?w = "\<lparr>script = [Reply ?r, Reply ?r, Reply (Some []), Reply None], now = 1000,
             trace = []\<rparr>"
  let ?v = "\<lparr>script = [Reply ?r, Reply ?r], now = 1000, trace = []\<rparr>"
  let ?es = "[Log INFO (Only_target_loaded ''B''), Sleep 60]"
  let ?es' = "[Log INFO (No_longer_loaded ''B''), Log INFO (No_models_now_loading ''B''),
      Call (Generate ''B'' (- 1)) (Some (Reply None)),
      Log INFO (Successfully_loaded ''B''), Log INFO Cycle_complete, Sleep 5,
      Log INFO Entering_main_cycle]"
  let ?w' = "\<lparr>script = [], now = 1065,
       trace = [Log INFO Entering_main_cycle, Call Ps (Some (Reply ?r)),
          Log INFO (Already_loaded ''B'')] @ Call Ps (Some (Reply ?r)) # ?es @
          Call Ps (Some (Reply (Some []))) # ?es' @ [Call Ps None]\<rparr>"
  have run: "main_loop ''B'' ?w = (Running, ?w')"
    by (simp add: run_defs)
  have names: "\<forall>r\<in>set (?r # [?r]). model_names (get_models r) = Some [''B'']"
    by simp
  have sc: "script ?v = map Reply (?r # [?r])"
    by simp
  have init: "\<forall>e\<in>set (trace ?w). \<not> is_Ps e"
    by simp
  have seg: "Call Ps (Some (Reply ?r)) # ?es \<in> set (segments (trace ?w'))"
    by simp
  have seg': "Call Ps (Some (Reply (Some []))) # ?es' \<in> set (segments (trace ?w'))"
    by simp
  have ne: "get_models ?r \<noteq> []"
    by simp
  have all: "\<forall>m\<in>set (get_models ?r). name m = Some ''B''"
    by simp
  have load: "requests ?es' \<noteq> []"
    by (simp add: requests_def)
  from target_only_no_load
      [of "''B''" ?w Running ?w' ?r ?es "Some (Reply (Some []))" ?es' ?r "[?r]" ?v]
    run init seg seg' ne all load names sc
  show ?thesis
    by (simp add: requests_def MONITOR_INTERVAL_def)
qed

text \<open>
  Claim C5 as stated fails: a cycle whose first two probes are answered with the target
  model alone stays in the monitoring loop, and when its third probe finds no model
  loaded the same cycle calls the Loader.
\<close>

theorem target_only_then_empty_counterexample:
  "cycle ''B''
     \<lparr>script = [Reply (Some [\<lparr>name = Some ''B'', expires_at = Some (Datetime 4000)\<rparr>]),
                Reply (Some [\<lparr>name = Some ''B'', expires_at = Some (Datetime 4000)\<rparr>]),
                Reply (Some []), Reply None],
      now = 1000, trace = []\<rparr> =
     (Return (),
      \<lparr>script = [], now = 1065,
       trace =
         [Log INFO Entering_main_cycle,
          Call Ps (Some (Reply (Some [\<lparr>name = Some ''B'', expires_at = Some (Datetime 4000)\<rparr>]))),
          Log INFO (Already_loaded ''B''),
          Call Ps (Some (Reply (Some [\<lparr>name = Some ''B'', expires_at = Some (Datetime 4000)\<rparr>]))),
          Log INFO (Only_target_loaded ''B''), Sleep 60,
          Call Ps (Some (Reply (Some []))),
          Log INFO (No_longer_loaded ''B''), Log INFO (No_models_now_loading ''B''),
          Call (Generate ''B'' (- 1)) (Some (Reply None)),
          Log INFO (Successfully_loaded ''B''), Log INFO Cycle_complete, Sleep 5]\<rparr>) \<and>
   requests
     (trace (snd (cycle ''B''
        \<lparr>script = [Reply (Some [\<lparr>name = Some ''B'', expires_at = Some (Datetime 4000)\<rparr>]),
                   Reply (Some [\<lparr>name = Some ''B'', expires_at = Some (Datetime 4000)\<rparr>]),
                   Reply (Some []), Reply None],
         now = 1000, trace = []\<rparr>))) =
     [Ps, Ps, Ps, Generate ''B'' (- 1)]"
  by (simp add: run_defs)

section \<open>A snapshot with the target model and others\<close>

lemma mixed_length: "t \<in> set ns \<Longrightarrow> \<exists>n\<in>set ns. n \<noteq> t \<Longrightarrow> length ns > 1"
  by (cases ns; cases "tl ns") auto

lemma shape_mixed:
  assumes "shape t t0 (Call Ps (Some (Reply r)) # es)"
    and "model_names (get_models r) = Some ns" and "t \<in> set ns" and "length ns > 1"
  shows "requests es = [] \<and> (sleeps es = [] \<or> sleeps es = [CYCLE_INTERVAL])"
  using assms by (auto elim!: shape.cases simp: requests_def)

lemma monitor_mixed_returns:
  assumes "script w = Reply r # rest"
    and "model_names (get_models r) = Some ns" and "t \<in> set ns" and "length ns > 1"
  shows "monitor_for_other_models t w =
    (Return True,
     w\<lparr>script := rest,
        trace := trace w @ [Call Ps (Some (Reply r)),
                            Log INFO (Other_models_detected (filter (\<lambda>n. n \<noteq> t) ns))]\<rparr>)"
  using assms
  by (simp add: monitor_for_other_models.simps [of t w] check_loaded_models_reply logger_def)

text \<open>
  Claim C2, as amended. For a snapshot that holds the target model together with at least
  one other model: the monitoring loop does not keep monitoring; on such an answer
  \<^verbatim>\<open>monitor_for_other_models\<close> returns \<^verbatim>\<open>True\<close> at once, having logged the other models and
  without sleeping. In every run, after a probe answered with such a snapshot the program
  makes no call of the client (no Loader call) before it probes again, and until then it
  sleeps either not at all (the probe at the start of a cycle, which is followed by the
  probe of the monitoring loop) or for \<open>CYCLE_INTERVAL\<close> once (the cycle ends and the next
  one starts); it never sleeps \<open>MONITOR_INTERVAL\<close>.
\<close>

theorem mixed_snapshot_monitor_returns:
  assumes "model_names (get_models r) = Some ns" and "target \<in> set ns"
    and "\<exists>n\<in>set ns. n \<noteq> target"
  shows "(script w0 = Reply r # rest \<longrightarrow>
            monitor_for_other_models target w0 =
              (Return True,
               w0\<lparr>script := rest,
                   trace := trace w0 @
                     [Call Ps (Some (Reply r)),
                      Log INFO (Other_models_detected (filter (\<lambda>n. n \<noteq> target) ns))]\<rparr>)) \<and>
         (main_loop target w = (out, w') \<longrightarrow> (\<forall>e\<in>set (trace w). \<not> is_Ps e) \<longrightarrow>
            Call Ps (Some (Reply r)) # es \<in> set (segments (trace w')) \<longrightarrow>
            requests es = [] \<and> (sleeps es = [] \<or> sleeps es = [CYCLE_INTERVAL]))"
proof -
  have len: "length ns > 1"
    using assms(2,3) by (rule mixed_length)
  show ?thesis
  proof (intro conjI impI)
    assume "script w0 = Reply r # rest"
    then show "monitor_for_other_models target w0 =
              (Return True,
               w0\<lparr>script := rest,
                   trace := trace w0 @
                     [Call Ps (Some (Reply r)),
                      Log INFO (Other_models_detected (filter (\<lambda>n. n \<noteq> target) ns))]\<rparr>)"
      using assms(1,2) len by (rule monitor_mixed_returns)
  next
    assume "main_loop target w = (out, w')" and "\<forall>e\<in>set (trace w). \<not> is_Ps e"
      and "Call Ps (Some (Reply r)) # es \<in> set (segments (trace w'))"
    then have "shape target (now w) (Call Ps (Some (Reply r)) # es)"
      by (rule run_segments)
    from shape_mixed [OF this assms(1,2) len]
    show "requests es = []" and "sleeps es = [] \<or> sleeps es = [CYCLE_INTERVAL]"
      by simp_all
  qed
qed

theorem mixed_snapshot_monitor_returns_witness:
  "monitor_for_other_models ''B'' \<lparr>script = [Reply (Some [\<lparr>name = Some ''B'', expires_at = None\<rparr>, \<lparr>name = Some ''A'', expires_at = Some (Datetime 1300)\<rparr>]), Reply (Some [\<lparr>name = Some ''B'', expires_at = None\<rparr>, \<lparr>name = Some ''A'', expires_at = Some (Datetime 1300)\<rparr>])], now = 1000, trace = []\<rparr> =
     (Return True,
      \<lparr>script = [Reply (Some [\<lparr>name = Some ''B'', expires_at = None\<rparr>, \<lparr>name = Some ''A'', expires_at = Some (Datetime 1300)\<rparr>])], now = 1000,
       trace = [Call Ps (Some (Reply (Some [\<lparr>name = Some ''B'', expires_at = None\<rparr>, \<lparr>name = Some ''A'', expires_at = Some (Datetime 1300)\<rparr>]))), Log INFO (Other_models_detected [''A''])]\<rparr>) \<and>
   main_loop ''B'' \<lparr>script = [Reply (Some [\<lparr>name = Some ''B'', expires_at = None\<rparr>, \<lparr>name = Some ''A'', expires_at = Some (Datetime 1300)\<rparr>]), Reply (Some [\<lparr>name = Some ''B'', expires_at = None\<rparr>, \<lparr>name = Some ''A'', expires_at = Some (Datetime 1300)\<rparr>])], now = 1000, trace = []\<rparr> =
     (Running,
      \<lparr>script = [], now = 1005,
       trace =
         [Log INFO Entering_main_cycle, Call Ps (Some (Reply (Some [\<lparr>name = Some ''B'', expires_at = None\<rparr>, \<lparr>name = Some ''A'', expires_at = Some (Datetime 1300)\<rparr>]))),
          Log INFO (Already_loaded ''B''), Call Ps (Some (Reply (Some [\<lparr>name = Some ''B'', expires_at = None\<rparr>, \<lparr>name = Some ''A'', expires_at = Some (Datetime 1300)\<rparr>]))),
          Log INFO (Other_models_detected [''A'']), Log INFO Cycle_complete, Sleep 5,
          Log INFO Entering_main_cycle, Call Ps None]\<rparr>) \<and>
   requests
     [Log INFO (Other_models_detected [''A'']), Log INFO Cycle_complete, Sleep 5,
      Log INFO Entering_main_cycle] = [] \<and>
   sleeps
     [Log INFO (Other_models_detected [''A'']), Log INFO Cycle_complete, Sleep 5,
      Log INFO Entering_main_cycle] = [CYCLE_INTERVAL]"
proof -
  let ?r = "Some [\<lparr>name = Some ''B'', expires_at = None\<rparr>, \<lparr>name = Some ''A'', expires_at = Some (Datetime 1300)\<rparr>]"
  let ?w = "\<lparr>script = [Reply ?r, Reply ?r], now = 1000, trace = []\<rparr>"
  let ?es = "[Log INFO (Other_models_detected [''A'']), Log INFO Cycle_complete, Sleep 5,
      Log INFO Entering_main_cycle]"
  let ?w' = "\<lparr>script = [], now = 1005,
       trace = [Log INFO Entering_main_cycle, Call Ps (Some (Reply ?r)),
          Log INFO (Already_loaded ''B'')] @ Call Ps (Some (Reply ?r)) # ?es @
          [Call Ps None]\<rparr>"
  have names: "model_names (get_models ?r) = Some [''B'', ''A'']"
    by simp
  have target: "''B'' \<in> set [''B'', ''A'']"
    by simp
  have other: "\<exists>n\<in>set [''B'', ''A'']. n \<noteq> ''B''"
    by simp
  have run: "main_loop ''B'' ?w = (Running, ?w')"
    by (simp add: run_defs)
  have init: "\<forall>e\<in>set (trace ?w). \<not> is_Ps e"
    by simp
  have seg: "Call Ps (Some (Reply ?r)) # ?es \<in> set (segments (trace ?w'))"
    by simp
  have head: "script ?w = Reply ?r # [Reply ?r]"
    by simp
  from mixed_snapshot_monitor_returns [OF names target other, of ?w "[Reply ?r]" ?w Running ?w' ?es]
    run init seg head
  show ?thesis
    by (simp add: requests_def CYCLE_INTERVAL_def)
qed

text \<open>
  Claim C2 as stated fails: the monitoring loop leaves on the first snapshot with another
  model (the second answer of the script is not read, and nothing is slept), and it is
  while the target is the only model that it probes again every \<open>MONITOR_INTERVAL\<close>.
\<close>

theorem mixed_snapshot_keeps_monitoring_counterexample:
  "monitor_for_other_models ''B'' \<lparr>script = [Reply (Some [\<lparr>name = Some ''B'', expires_at = None\<rparr>, \<lparr>name = Some ''A'', expires_at = Some (Datetime 1300)\<rparr>]), Reply (Some [\<lparr>name = Some ''B'', expires_at = None\<rparr>, \<lparr>name = Some ''A'', expires_at = Some (Datetime 1300)\<rparr>])], now = 1000, trace = []\<rparr> =
     (Return True,
      \<lparr>script = [Reply (Some [\<lparr>name = Some ''B'', expires_at = None\<rparr>, \<lparr>name = Some ''A'', expires_at = Some (Datetime 1300)\<rparr>])], now = 1000,
       trace = [Call Ps (Some (Reply (Some [\<lparr>name = Some ''B'', expires_at = None\<rparr>, \<lparr>name = Some ''A'', expires_at = Some (Datetime 1300)\<rparr>]))), Log INFO (Other_models_detected [''A''])]\<rparr>) \<and>
   monitor_for_other_models ''B'' \<lparr>script = [Reply (Some [\<lparr>name = Some ''B'', expires_at = None\<rparr>]), Reply (Some [\<lparr>name = Some ''B'', expires_at = None\<rparr>])], now = 1000, trace = []\<rparr> =
     (OutOfScript,
      \<lparr>script = [], now = 1120,
       trace =
         [Call Ps (Some (Reply (Some [\<lparr>name = Some ''B'', expires_at = None\<rparr>]))), Log INFO (Only_target_loaded ''B''),
          Sleep MONITOR_INTERVAL,
          Call Ps (Some (Reply (Some [\<lparr>name = Some ''B'', expires_at = None\<rparr>]))), Log INFO (Only_target_loaded ''B''),
          Sleep MONITOR_INTERVAL, Call Ps None]\<rparr>)"
  by (simp add: run_defs)

section \<open>How the loops over the entries treat an entry\<close>

text \<open>
  With the clock at \<open>t\<close>, the loops of lines 126 to 134 and 78 to 88 go through an entry
  without an exception when its \<^verbatim>\<open>expires_at\<close> is set and is the number 0 or a time that
  \<^verbatim>\<open>datetime.fromtimestamp\<close> can print: the entry is readable. They count a readable entry
  when its \<^verbatim>\<open>expires_at\<close> is not the number 0 and lies after \<open>t\<close>. A readable entry that is
  not counted is what the messages of lines 94 and 149 call a non-expiring model: its
  \<^verbatim>\<open>expires_at\<close> is the number 0, the mark of the program for a model that never expires, or
  a time that is not later than \<open>t\<close>.
\<close>

definition readable :: "model \<Rightarrow> bool" where
  "readable m \<longleftrightarrow>
     (case expires_at m of
        None \<Rightarrow> False
      | Some e \<Rightarrow> eq_zero e \<or> fromtimestamp_ok (timestamp e))"

definition counted :: "real \<Rightarrow> model \<Rightarrow> bool" where
  "counted t m \<longleftrightarrow>
     (case expires_at m of
        None \<Rightarrow> False
      | Some e \<Rightarrow> \<not> eq_zero e \<and> fromtimestamp_ok (timestamp e) \<and> t < timestamp e)"

definition non_expiring :: "real \<Rightarrow> model \<Rightarrow> bool" where
  "non_expiring t m \<longleftrightarrow>
     (case expires_at m of
        None \<Rightarrow> False
      | Some e \<Rightarrow> eq_zero e \<or> (fromtimestamp_ok (timestamp e) \<and> timestamp e \<le> t))"

lemma non_expiring_mono: "non_expiring t m \<Longrightarrow> t \<le> t' \<Longrightarrow> non_expiring t' m"
  by (auto simp: non_expiring_def split: option.splits)

lemma non_expiring_iff: "non_expiring t m \<longleftrightarrow> readable m \<and> \<not> counted t m"
  by (auto simp: non_expiring_def readable_def counted_def split: option.splits)

lemma latest_main_non_expiring:
  "\<forall>m\<in>set ms. non_expiring t m \<Longrightarrow> latest_expires_at_main t ms acc = Inr acc"
  by (induction ms arbitrary: acc) (auto simp: non_expiring_def split: option.splits)

lemma latest_monitor_non_expiring:
  "\<forall>m\<in>set ms. non_expiring t m \<Longrightarrow> latest_expires_at_monitor t ms acc = Inr acc"
  by (induction ms arbitrary: acc) (auto simp: non_expiring_def split: option.splits)

text \<open>The exceptions that the loops raise.\<close>

lemma latest_main_Inl:
  "latest_expires_at_main t ms acc = Inl e \<Longrightarrow> e = TypeError \<or> e = ValueError"
  by (induction ms arbitrary: acc) (auto split: option.splits if_splits)

lemma latest_monitor_Inl:
  "latest_expires_at_monitor t ms acc = Inl e \<Longrightarrow> e = TypeError \<or> e = ValueError"
  by (induction ms arbitrary: acc) (auto split: option.splits if_splits)

text \<open>
  A time that \<^verbatim>\<open>datetime.fromtimestamp\<close> cannot print ends the cycle, before the time is
  compared with the clock: here the number 1000000000000, a time in the year 33658.
\<close>

lemma unprintable_expiry_raises:
  "cycle ''B''
     \<lparr>script = [Reply (Some [\<lparr>name = Some ''A'', expires_at = Some (Num 1000000000000)\<rparr>])],
      now = 1000, trace = []\<rparr> =
     (Raised ValueError,
      \<lparr>script = [], now = 1000,
       trace =
         [Log INFO Entering_main_cycle,
          Call Ps (Some (Reply (Some [\<lparr>name = Some ''A'',
                                       expires_at = Some (Num 1000000000000)\<rparr>])))]\<rparr>)"
  by (simp add: run_defs)

text \<open>The probe after the wait reads the names of the entries and nothing else.\<close>

lemma check_again_still:
  assumes "script w = Reply r # rest" and "get_models r \<noteq> []"
    and "model_names (get_models r) = Some ns"
  shows "check_again t w =
    (Return (),
     w\<lparr>script := rest,
        trace := trace w @ [Call Ps (Some (Reply r)), Log INFO (Models_still_loaded ns)]\<rparr>)"
  using assms by (simp add: check_again_def check_loaded_models_reply logger_def)

section \<open>Other models that never expire\<close>

definition others_never :: "string \<Rightarrow> real \<Rightarrow> response \<Rightarrow> bool" where
  "others_never target t r \<longleftrightarrow>
     get_models r \<noteq> [] \<and>
     (\<forall>m\<in>set (get_models r). name m \<noteq> None \<and> name m \<noteq> Some target \<and> non_expiring t m)"

lemma others_never_mono: "others_never target t r \<Longrightarrow> t \<le> t' \<Longrightarrow> others_never target t' r"
  by (auto simp: others_never_def intro: non_expiring_mono)

lemma model_names_others:
  "\<forall>m\<in>set ms. name m \<noteq> None \<and> name m \<noteq> Some t \<Longrightarrow>
   \<exists>ns. model_names ms = Some ns \<and> t \<notin> set ns"
  by (induction ms) auto

text \<open>
  The events of a cycle, and of a round of the monitoring loop, on a snapshot of other
  models that never expire.
\<close>

definition never_cycle :: "response \<Rightarrow> event list" where
  "never_cycle r =
     [Log INFO Entering_main_cycle, Call Ps (Some (Reply r)), Log INFO Only_non_expiring,
      Sleep MONITOR_INTERVAL, Log INFO Cycle_complete, Sleep CYCLE_INTERVAL]"

definition never_round :: "response \<Rightarrow> event list" where
  "never_round r =
     [Call Ps (Some (Reply r)), Log INFO Other_models_no_expiration, Sleep MONITOR_INTERVAL]"

lemma shape_others_never:
  assumes "shape t t0 (Call Ps (Some (Reply r)) # es)" and "others_never t t0 r"
  shows "es = [Log INFO Only_non_expiring, Sleep MONITOR_INTERVAL, Log INFO Cycle_complete,
               Sleep CYCLE_INTERVAL, Log INFO Entering_main_cycle] \<or>
         es = [Log INFO Other_models_no_expiration, Sleep MONITOR_INTERVAL] \<or>
         (\<exists>ns. model_names (get_models r) = Some ns \<and>
            es = [Log INFO (Models_still_loaded ns), Log INFO Cycle_complete,
                  Sleep CYCLE_INTERVAL, Log INFO Entering_main_cycle])"
proof -
  from assms(2) obtain ns where ns: "model_names (get_models r) = Some ns" "t \<notin> set ns"
    using model_names_others [of "get_models r" t] by (auto simp: others_never_def)
  from assms(2) have ne: "get_models r \<noteq> []"
    by (simp add: others_never_def)
  have main: "latest_expires_at_main x (get_models r) 0 = Inr 0" if "t0 \<le> x" for x
    using others_never_mono [OF assms(2) that]
    by (simp add: latest_main_non_expiring others_never_def)
  have monitor: "latest_expires_at_monitor x (get_models r) 0 = Inr 0" if "t0 \<le> x" for x
    using others_never_mono [OF assms(2) that]
    by (simp add: latest_monitor_non_expiring others_never_def)
  from assms(1) ns ne show ?thesis
    by (auto elim!: shape.cases simp: main monitor next_cycle_events_def)
qed

lemma cycle_others_never:
  assumes "script w = Reply r # rest" and "others_never t (now w) r"
  shows "cycle t w =
    (Return (),
     w\<lparr>script := rest, now := now w + MONITOR_INTERVAL + CYCLE_INTERVAL,
        trace := trace w @ never_cycle r\<rparr>)"
proof -
  from assms(2) obtain ns where "model_names (get_models r) = Some ns" "t \<notin> set ns"
    using model_names_others [of "get_models r" t] by (auto simp: others_never_def)
  moreover from assms(2) have "latest_expires_at_main (now w) (get_models r) 0 = Inr 0"
    by (simp add: latest_main_non_expiring others_never_def)
  moreover from assms(2) have "get_models r \<noteq> []"
    by (simp add: others_never_def)
  ultimately show ?thesis
    using assms(1)
    by (simp add: cycle_def check_loaded_models_reply others_loaded_def never_cycle_def
        logger_def sleep_def)
qed

lemma monitor_others_never:
  assumes "script w = Reply r # rest" and "others_never t (now w) r"
  shows "monitor_for_other_models t w =
    monitor_for_other_models t
      (w\<lparr>script := rest, now := now w + MONITOR_INTERVAL, trace := trace w @ never_round r\<rparr>)"
proof -
  from assms(2) obtain ns where "model_names (get_models r) = Some ns" "t \<notin> set ns"
    using model_names_others [of "get_models r" t] by (auto simp: others_never_def)
  moreover from assms(2) have "latest_expires_at_monitor (now w) (get_models r) 0 = Inr 0"
    by (simp add: latest_monitor_non_expiring others_never_def)
  moreover from assms(2) have "get_models r \<noteq> []"
    by (simp add: others_never_def)
  ultimately show ?thesis
    using assms(1)
    by (simp add: monitor_for_other_models.simps [of t w] check_loaded_models_reply
        never_round_def logger_def sleep_def)
qed

lemma main_loop_others_never:
  "\<forall>r\<in>set rs. others_never t (now w) r \<Longrightarrow> script w = map Reply rs \<Longrightarrow>
   main_loop t w =
     (Running,
      w\<lparr>script := [],
         now := now w + (MONITOR_INTERVAL + CYCLE_INTERVAL) * real (length rs),
         trace := trace w @ concat (map never_cycle rs) @
                  [Log INFO Entering_main_cycle, Call Ps None]\<rparr>)"
proof (induction rs arbitrary: w)
  case Nil
  then show ?case
    by (simp add: main_loop.simps [of t w] cycle_def check_loaded_models_out logger_def)
next
  case (Cons r rs)
  let ?w1 = "w\<lparr>script := map Reply rs, now := now w + MONITOR_INTERVAL + CYCLE_INTERVAL,
        trace := trace w @ never_cycle r\<rparr>"
  have c: "cycle t w = (Return (), ?w1)"
    using Cons.prems by (simp add: cycle_others_never)
  have later: "\<forall>r\<in>set rs. others_never t (now ?w1) r"
    using Cons.prems(1) by (auto intro: others_never_mono)
  have "main_loop t w = main_loop t ?w1"
    by (simp add: main_loop.simps [of t w] c)
  also have "\<dots> = (Running,
      ?w1\<lparr>script := [],
         now := now ?w1 + (MONITOR_INTERVAL + CYCLE_INTERVAL) * real (length rs),
         trace := trace ?w1 @ concat (map never_cycle rs) @
                  [Log INFO Entering_main_cycle, Call Ps None]\<rparr>)"
    using later by (intro Cons.IH) simp_all
  finally show ?case
    by (simp add: algebra_simps)
qed

lemma monitor_loop_others_never:
  "\<forall>r\<in>set rs. others_never t (now w) r \<Longrightarrow> script w = map Reply rs \<Longrightarrow>
   monitor_for_other_models t w =
     (OutOfScript,
      w\<lparr>script := [], now := now w + MONITOR_INTERVAL * real (length rs),
         trace := trace w @ concat (map never_round rs) @ [Call Ps None]\<rparr>)"
proof (induction rs arbitrary: w)
  case Nil
  then show ?case
    by (simp add: monitor_for_other_models.simps [of t w] check_loaded_models_out)
next
  case (Cons r rs)
  let ?w1 = "w\<lparr>script := map Reply rs, now := now w + MONITOR_INTERVAL,
        trace := trace w @ never_round r\<rparr>"
  have later: "\<forall>r\<in>set rs. others_never t (now ?w1) r"
    using Cons.prems(1) by (auto intro: others_never_mono)
  have "monitor_for_other_models t w = monitor_for_other_models t ?w1"
    using Cons.prems by (simp add: monitor_others_never)
  also have "\<dots> = (OutOfScript,
      ?w1\<lparr>script := [], now := now ?w1 + MONITOR_INTERVAL * real (length rs),
         trace := trace ?w1 @ concat (map never_round rs) @ [Call Ps None]\<rparr>)"
    using later by (intro Cons.IH) simp_all
  finally show ?case
    by (simp add: algebra_simps)
qed

text \<open>
  Claim C6, as amended. Take snapshots that hold only models other than the target, all
  with a name, none of which the program counts as expiring: every \<^verbatim>\<open>expires_at\<close> is the
  number 0, the mark of the program for a model that never expires, or a time that can be
  printed and has passed when the run starts. In every run, after a probe answered with
  such a snapshot the program makes no call of the client before it probes again, logs no
  error, and does one of three things, according to the place of the probe:
  \<^item> at the start of a cycle it sleeps \<open>MONITOR_INTERVAL\<close>, ends the cycle with the pause
    \<open>CYCLE_INTERVAL\<close> and starts the next cycle, so that it probes again after the sum of
    the two;
  \<^item> in the monitoring loop it sleeps \<open>MONITOR_INTERVAL\<close> and probes again;
  \<^item> at the probe that follows a wait it logs the models still loaded and ends the cycle
    with the pause \<open>CYCLE_INTERVAL\<close> alone.

  As long as the daemon answers with such snapshots the main loop and the monitoring loop
  go on in this way, without a Loader call, until the script of the daemon is used up; the
  traces are given in full, for any number of such snapshots. (A snapshot with an entry
  whose \<^verbatim>\<open>expires_at\<close> is unset is not of this kind: see claim C10.)
\<close>

theorem never_expiring_others_polled:
  "(main_loop target w = (out, w') \<longrightarrow> (\<forall>e\<in>set (trace w). \<not> is_Ps e) \<longrightarrow>
      Call Ps (Some (Reply r)) # es \<in> set (segments (trace w')) \<longrightarrow>
      get_models r \<noteq> [] \<longrightarrow>
      (\<forall>m\<in>set (get_models r).
         name m \<noteq> None \<and> name m \<noteq> Some target \<and> non_expiring (now w) m) \<longrightarrow>
      es = [Log INFO Only_non_expiring, Sleep MONITOR_INTERVAL, Log INFO Cycle_complete,
            Sleep CYCLE_INTERVAL, Log INFO Entering_main_cycle] \<or>
      es = [Log INFO Other_models_no_expiration, Sleep MONITOR_INTERVAL] \<or>
      (\<exists>ns. model_names (get_models r) = Some ns \<and>
         es = [Log INFO (Models_still_loaded ns), Log INFO Cycle_complete,
               Sleep CYCLE_INTERVAL, Log INFO Entering_main_cycle])) \<and>
   ((\<forall>r\<in>set rs. get_models r \<noteq> [] \<and>
        (\<forall>m\<in>set (get_models r).
           name m \<noteq> None \<and> name m \<noteq> Some target \<and> non_expiring (now v) m)) \<longrightarrow>
      script v = map Reply rs \<longrightarrow>
      main_loop target v =
        (Running,
         v\<lparr>script := [],
            now := now v + (MONITOR_INTERVAL + CYCLE_INTERVAL) * real (length rs),
            trace := trace v @
              concat (map (\<lambda>r. [Log INFO Entering_main_cycle, Call Ps (Some (Reply r)),
                                 Log INFO Only_non_expiring, Sleep MONITOR_INTERVAL,
                                 Log INFO Cycle_complete, Sleep CYCLE_INTERVAL]) rs) @
              [Log INFO Entering_main_cycle, Call Ps None]\<rparr>) \<and>
      monitor_for_other_models target v =
        (OutOfScript,
         v\<lparr>script := [], now := now v + MONITOR_INTERVAL * real (length rs),
            trace := trace v @
              concat (map (\<lambda>r. [Call Ps (Some (Reply r)), Log INFO Other_models_no_expiration,
                                 Sleep MONITOR_INTERVAL]) rs) @
              [Call Ps None]\<rparr>)) \<and>
   (script u = Reply r1 # rest \<longrightarrow> get_models r1 \<noteq> [] \<longrightarrow>
      model_names (get_models r1) = Some ns1 \<longrightarrow>
      check_again target u =
        (Return (),
         u\<lparr>script := rest,
            trace := trace u @
              [Call Ps (Some (Reply r1)), Log INFO (Models_still_loaded ns1)]\<rparr>))"
proof (intro conjI impI)
  assume "main_loop target w = (out, w')" and "\<forall>e\<in>set (trace w). \<not> is_Ps e"
    and "Call Ps (Some (Reply r)) # es \<in> set (segments (trace w'))"
  then have s: "shape target (now w) (Call Ps (Some (Reply r)) # es)"
    by (rule run_segments)
  assume "get_models r \<noteq> []"
    and "\<forall>m\<in>set (get_models r).
         name m \<noteq> None \<and> name m \<noteq> Some target \<and> non_expiring (now w) m"
  then have "others_never target (now w) r"
    by (simp add: others_never_def)
  with s show "es = [Log INFO Only_non_expiring, Sleep MONITOR_INTERVAL, Log INFO Cycle_complete,
            Sleep CYCLE_INTERVAL, Log INFO Entering_main_cycle] \<or>
      es = [Log INFO Other_models_no_expiration, Sleep MONITOR_INTERVAL] \<or>
      (\<exists>ns. model_names (get_models r) = Some ns \<and>
         es = [Log INFO (Models_still_loaded ns), Log INFO Cycle_complete,
               Sleep CYCLE_INTERVAL, Log INFO Entering_main_cycle])"
    by (rule shape_others_never)
next
  assume "\<forall>r\<in>set rs. get_models r \<noteq> [] \<and>
        (\<forall>m\<in>set (get_models r).
           name m \<noteq> None \<and> name m \<noteq> Some target \<and> non_expiring (now v) m)"
  then have all: "\<forall>r\<in>set rs. others_never target (now v) r"
    by (simp add: others_never_def)
  assume sc: "script v = map Reply rs"
  have nc: "never_cycle = (\<lambda>r. [Log INFO Entering_main_cycle, Call Ps (Some (Reply r)),
                               Log INFO Only_non_expiring, Sleep MONITOR_INTERVAL,
                               Log INFO Cycle_complete, Sleep CYCLE_INTERVAL])"
    by (rule ext) (simp add: never_cycle_def)
  have nr: "never_round = (\<lambda>r. [Call Ps (Some (Reply r)), Log INFO Other_models_no_expiration,
                               Sleep MONITOR_INTERVAL])"
    by (rule ext) (simp add: never_round_def)
  from main_loop_others_never [OF all sc]
  show "main_loop target v =
        (Running,
         v\<lparr>script := [],
            now := now v + (MONITOR_INTERVAL + CYCLE_INTERVAL) * real (length rs),
            trace := trace v @
              concat (map (\<lambda>r. [Log INFO Entering_main_cycle, Call Ps (Some (Reply r)),
                                 Log INFO Only_non_expiring, Sleep MONITOR_INTERVAL,
                                 Log INFO Cycle_complete, Sleep CYCLE_INTERVAL]) rs) @
              [Log INFO Entering_main_cycle, Call Ps None]\<rparr>)"
    by (simp add: nc)
  from monitor_loop_others_never [OF all sc]
  show "monitor_for_other_models target v =
        (OutOfScript,
         v\<lparr>script := [], now := now v + MONITOR_INTERVAL * real (length rs),
            trace := trace v @
              concat (map (\<lambda>r. [Call Ps (Some (Reply r)), Log INFO Other_models_no_expiration,
                                 Sleep MONITOR_INTERVAL]) rs) @
              [Call Ps None]\<rparr>)"
    by (simp add: nr)
next
  assume "script u = Reply r1 # rest" and "get_models r1 \<noteq> []"
    and "model_names (get_models r1) = Some ns1"
  then show "check_again target u =
        (Return (),
         u\<lparr>script := rest,
            trace := trace u @
              [Call Ps (Some (Reply r1)), Log INFO (Models_still_loaded ns1)]\<rparr>)"
    by (rule check_again_still)
qed

theorem never_expiring_others_polled_witness:
  "main_loop ''B''
     \<lparr>script =
        [Reply (Some [\<lparr>name = Some ''A'', expires_at = Some (Datetime 900)\<rparr>,
                      \<lparr>name = Some ''C'', expires_at = Some (Num 0)\<rparr>]),
         Reply (Some [\<lparr>name = Some ''B'', expires_at = Some (Datetime 4000)\<rparr>]),
         Reply (Some [\<lparr>name = Some ''A'', expires_at = Some (Datetime 900)\<rparr>,
                      \<lparr>name = Some ''C'', expires_at = Some (Num 0)\<rparr>]),
         Reply (Some [\<lparr>name = Some ''B'', expires_at = Some (Datetime 4000)\<rparr>,
                      \<lparr>name = Some ''A'', expires_at = Some (Datetime 900)\<rparr>]),
         Reply (Some [\<lparr>name = Some ''A'', expires_at = Some (Datetime 2000)\<rparr>]),
         Reply (Some [\<lparr>name = Some ''A'', expires_at = Some (Datetime 900)\<rparr>,
                      \<lparr>name = Some ''C'', expires_at = Some (Num 0)\<rparr>])],
      now = 1000, trace = []\<rparr> =
     (Running,
      \<lparr>script = [], now = 2005,
       trace =
         [Log INFO Entering_main_cycle,
          Call Ps (Some (Reply (Some [\<lparr>name = Some ''A'', expires_at = Some (Datetime 900)\<rparr>,
                                      \<lparr>name = Some ''C'', expires_at = Some (Num 0)\<rparr>]))),
          Log INFO Only_non_expiring, Sleep 60, Log INFO Cycle_complete, Sleep 5,
          Log INFO Entering_main_cycle,
          Call Ps (Some (Reply (Some [\<lparr>name = Some ''B'', expires_at = Some (Datetime 4000)\<rparr>]))),
          Log INFO (Already_loaded ''B''),
          Call Ps (Some (Reply (Some [\<lparr>name = Some ''A'', expires_at = Some (Datetime 900)\<rparr>,
                                      \<lparr>name = Some ''C'', expires_at = Some (Num 0)\<rparr>]))),
          Log INFO Other_models_no_expiration, Sleep 60,
          Call Ps (Some (Reply (Some [\<lparr>name = Some ''B'', expires_at = Some (Datetime 4000)\<rparr>,
                                      \<lparr>name = Some ''A'', expires_at = Some (Datetime 900)\<rparr>]))),
          Log INFO (Other_models_detected [''A'']), Log INFO Cycle_complete, Sleep 5,
          Log INFO Entering_main_cycle,
          Call Ps (Some (Reply (Some [\<lparr>name = Some ''A'', expires_at = Some (Datetime 2000)\<rparr>]))),
          Log INFO (Other_models_waiting 2000), Log INFO (Waiting_until_unload 870), Sleep 870,
          Call Ps (Some (Reply (Some [\<lparr>name = Some ''A'', expires_at = Some (Datetime 900)\<rparr>,
                                      \<lparr>name = Some ''C'', expires_at = Some (Num 0)\<rparr>]))),
          Log INFO (Models_still_loaded [''A'', ''C'']), Log INFO Cycle_complete, Sleep 5,
          Log INFO Entering_main_cycle, Call Ps None]\<rparr>) \<and>
   [Log INFO Only_non_expiring, Sleep 60, Log INFO Cycle_complete, Sleep 5,
    Log INFO Entering_main_cycle] =
   [Log INFO Only_non_expiring, Sleep MONITOR_INTERVAL, Log INFO Cycle_complete,
    Sleep CYCLE_INTERVAL, Log INFO Entering_main_cycle] \<and>
   [Log INFO Other_models_no_expiration, Sleep 60] =
   [Log INFO Other_models_no_expiration, Sleep MONITOR_INTERVAL] \<and>
   [Log INFO (Models_still_loaded [''A'', ''C'']), Log INFO Cycle_complete, Sleep 5,
    Log INFO Entering_main_cycle] =
   [Log INFO (Models_still_loaded [''A'', ''C'']), Log INFO Cycle_complete,
    Sleep CYCLE_INTERVAL, Log INFO Entering_main_cycle] \<and>
   main_loop ''B''
     \<lparr>script = [Reply (Some [\<lparr>name = Some ''A'', expires_at = Some (Datetime 900)\<rparr>]),
                Reply (Some [\<lparr>name = Some ''A'', expires_at = Some (Num 0)\<rparr>])],
      now = 1000, trace = []\<rparr> =
     (Running,
      \<lparr>script = [], now = 1130,
       trace =
         [Log INFO Entering_main_cycle,
          Call Ps (Some (Reply (Some [\<lparr>name = Some ''A'', expires_at = Some (Datetime 900)\<rparr>]))),
          Log INFO Only_non_expiring, Sleep 60, Log INFO Cycle_complete, Sleep 5,
          Log INFO Entering_main_cycle,
          Call Ps (Some (Reply (Some [\<lparr>name = Some ''A'', expires_at = Some (Num 0)\<rparr>]))),
          Log INFO Only_non_expiring, Sleep 60, Log INFO Cycle_complete, Sleep 5,
          Log INFO Entering_main_cycle, Call Ps None]\<rparr>) \<and>
   monitor_for_other_models ''B''
     \<lparr>script = [Reply (Some [\<lparr>name = Some ''A'', expires_at = Some (Datetime 900)\<rparr>]),
                Reply (Some [\<lparr>name = Some ''A'', expires_at = Some (Num 0)\<rparr>])],
      now = 1000, trace = []\<rparr> =
     (OutOfScript,
      \<lparr>script = [], now = 1120,
       trace =
         [Call Ps (Some (Reply (Some [\<lparr>name = Some ''A'', expires_at = Some (Datetime 900)\<rparr>]))),
          Log INFO Other_models_no_expiration, Sleep 60,
          Call Ps (Some (Reply (Some [\<lparr>name = Some ''A'', expires_at = Some (Num 0)\<rparr>]))),
          Log INFO Other_models_no_expiration, Sleep 60, Call Ps None]\<rparr>) \<and>
   check_again ''B''
     \<lparr>script = [Reply (Some [\<lparr>name = Some ''A'', expires_at = Some (Datetime 900)\<rparr>])],
      now = 1000, trace = []\<rparr> =
     (Return (),
      \<lparr>script = [], now = 1000,
       trace =
         [Call Ps (Some (Reply (Some [\<lparr>name = Some ''A'', expires_at = Some (Datetime 900)\<rparr>]))),
          Log INFO (Models_still_loaded [''A''])]\<rparr>)"
proof -
  let ?N = "Some [\<lparr>name = Some ''A'', expires_at = Some (Datetime 900)\<rparr>,
                  \<lparr>name = Some ''C'', expires_at = Some (Num 0)\<rparr>]"
  let ?T = "Some [\<lparr>name = Some ''B'', expires_at = Some (Datetime 4000)\<rparr>]"
  let ?M = "Some [\<lparr>name = Some ''B'', expires_at = Some (Datetime 4000)\<rparr>,
                  \<lparr>name = Some ''A'', expires_at = Some (Datetime 900)\<rparr>]"
  let ?F = "Some [\<lparr>name = Some ''A'', expires_at = Some (Datetime 2000)\<rparr>]"
  let ?w = "\<lparr>script = [Reply ?N, Reply ?T, Reply ?N, Reply ?M, Reply ?F, Reply ?N],
             now = 1000, trace = []\<rparr>"
  let ?es1 = "[Log INFO Only_non_expiring, Sleep 60, Log INFO Cycle_complete, Sleep 5,
               Log INFO Entering_main_cycle]"
  let ?es2 = "[Log INFO Other_models_no_expiration, Sleep 60]"
  let ?es3 = "[Log INFO (Models_still_loaded [''A'', ''C'']), Log INFO Cycle_complete, Sleep 5,
               Log INFO Entering_main_cycle]"
  let ?w' = "\<lparr>script = [], now = 2005,
       trace =
         Log INFO Entering_main_cycle # Call Ps (Some (Reply ?N)) # ?es1 @
         [Call Ps (Some (Reply ?T)), Log INFO (Already_loaded ''B'')] @
         Call Ps (Some (Reply ?N)) # ?es2 @
         [Call Ps (Some (Reply ?M)), Log INFO (Other_models_detected [''A'']),
          Log INFO Cycle_complete, Sleep 5, Log INFO Entering_main_cycle,
          Call Ps (Some (Reply ?F)), Log INFO (Other_models_waiting 2000),
          Log INFO (Waiting_until_unload 870), Sleep 870] @
         Call Ps (Some (Reply ?N)) # ?es3 @ [Call Ps None]\<rparr>"
  let ?r1 = "Some [\<lparr>name = Some ''A'', expires_at = Some (Datetime 900)\<rparr>]"
  let ?r2 = "Some [\<lparr>name = Some ''A'', expires_at = Some (Num 0)\<rparr>]"
  let ?v = "\<lparr>script = map Reply [?r1, ?r2], now = 1000, trace = []\<rparr>"
  let ?u = "\<lparr>script = [Reply ?r1], now = 1000, trace = []\<rparr>"
  have run: "main_loop ''B'' ?w = (Running, ?w')"
    by (simp add: run_defs)
  have init: "\<forall>e\<in>set (trace ?w). \<not> is_Ps e"
    by simp
  have seg1: "Call Ps (Some (Reply ?N)) # ?es1 \<in> set (segments (trace ?w'))"
    by simp
  have seg2: "Call Ps (Some (Reply ?N)) # ?es2 \<in> set (segments (trace ?w'))"
    by simp
  have seg3: "Call Ps (Some (Reply ?N)) # ?es3 \<in> set (segments (trace ?w'))"
    by simp
  have ne: "get_models ?N \<noteq> []"
    by simp
  have never: "\<forall>m\<in>set (get_models ?N).
         name m \<noteq> None \<and> name m \<noteq> Some ''B'' \<and> non_expiring (now ?w) m"
    by (simp add: non_expiring_def fromtimestamp_ok_def)
  have all: "\<forall>r\<in>set [?r1, ?r2]. get_models r \<noteq> [] \<and>
        (\<forall>m\<in>set (get_models r).
           name m \<noteq> None \<and> name m \<noteq> Some ''B'' \<and> non_expiring (now ?v) m)"
    by (simp add: non_expiring_def fromtimestamp_ok_def)
  have sc: "script ?v = map Reply [?r1, ?r2]"
    by simp
  have scu: "script ?u = Reply ?r1 # []"
    by simp
  have neu: "get_models ?r1 \<noteq> []"
    by simp
  have names: "model_names (get_models ?r1) = Some [''A'']"
    by simp
  note inst = never_expiring_others_polled
    [of "''B''" ?w Running ?w' ?N _ "[?r1, ?r2]" ?v ?u ?r1 "[]" "[''A'']"]
  from inst [of ?es1] inst [of ?es2] inst [of ?es3]
    run init seg1 seg2 seg3 ne never all sc scu neu names
  show ?thesis
    by (simp add: MONITOR_INTERVAL_def CYCLE_INTERVAL_def)
qed

text \<open>
  Claim C6 as stated fails in two places. The main loop does not probe again after
  \<open>MONITOR_INTERVAL\<close>: every cycle ends with the pause \<open>CYCLE_INTERVAL\<close>, so that on
  snapshots of models that never expire (an \<^verbatim>\<open>expires_at\<close> equal to the number 0, or a
  \<^verbatim>\<open>datetime\<close> at the epoch) two probes are 65 seconds apart. And when such a snapshot
  answers the probe that follows a wait, the program does not sleep \<open>MONITOR_INTERVAL\<close> at
  all: it logs the models still loaded and starts the next cycle after \<open>CYCLE_INTERVAL\<close>.
\<close>

theorem never_expiring_poll_period_counterexample:
  "main_loop ''B''
     \<lparr>script = [Reply (Some [\<lparr>name = Some ''A'', expires_at = Some (Num 0)\<rparr>]),
                Reply (Some [\<lparr>name = Some ''A'', expires_at = Some (Datetime 0)\<rparr>])],
      now = 1000, trace = []\<rparr> =
     (Running,
      \<lparr>script = [], now = 1130,
       trace =
         [Log INFO Entering_main_cycle,
          Call Ps (Some (Reply (Some [\<lparr>name = Some ''A'', expires_at = Some (Num 0)\<rparr>]))),
          Log INFO Only_non_expiring, Sleep 60, Log INFO Cycle_complete, Sleep 5,
          Log INFO Entering_main_cycle,
          Call Ps (Some (Reply (Some [\<lparr>name = Some ''A'', expires_at = Some (Datetime 0)\<rparr>]))),
          Log INFO Only_non_expiring, Sleep 60, Log INFO Cycle_complete, Sleep 5,
          Log INFO Entering_main_cycle, Call Ps None]\<rparr>) \<and>
   MONITOR_INTERVAL + CYCLE_INTERVAL = 65 \<and>
   cycle ''B''
     \<lparr>script = [Reply (Some [\<lparr>name = Some ''A'', expires_at = Some (Datetime 1100)\<rparr>]),
                Reply (Some [\<lparr>name = Some ''A'', expires_at = Some (Num 0)\<rparr>,
                             \<lparr>name = Some ''C'', expires_at = Some (Datetime 0)\<rparr>])],
      now = 1000, trace = []\<rparr> =
     (Return (),
      \<lparr>script = [], now = 1105,
       trace =
         [Log INFO Entering_main_cycle,
          Call Ps (Some (Reply (Some [\<lparr>name = Some ''A'', expires_at = Some (Datetime 1100)\<rparr>]))),
          Log INFO (Other_models_waiting 1100), Log INFO (Waiting_until_unload 100), Sleep 100,
          Call Ps (Some (Reply (Some [\<lparr>name = Some ''A'', expires_at = Some (Num 0)\<rparr>,
                                      \<lparr>name = Some ''C'', expires_at = Some (Datetime 0)\<rparr>]))),
          Log INFO (Models_still_loaded [''A'', ''C'']), Log INFO Cycle_complete, Sleep 5]\<rparr>)"
  by (simp add: run_defs)

section \<open>Failures\<close>

text \<open>
  The events of a segment that follow its Loader call.
\<close>

fun after_load :: "event list \<Rightarrow> event list" where
  "after_load [] = []"
| "after_load (Call (Generate n k) a # es) = es"
| "after_load (e # es) = after_load es"

lemma model_names_None: "model_names ms = None \<longleftrightarrow> (\<exists>m\<in>set ms. name m = None)"
  by (induction ms) (auto split: option.splits)

lemma error_logs_handler [simp]:
  "error_logs (handler_events e) = (if e = KeyboardInterrupt then [] else [Error_occurred e])"
  by (simp add: handler_events_def)

lemma sleeps_handler [simp]:
  "sleeps (handler_events e) = (if e = KeyboardInterrupt then [] else [10])"
  by (simp add: handler_events_def)

lemma last_handler [simp]:
  "e \<noteq> KeyboardInterrupt \<Longrightarrow> last (es @ handler_events e) = Log INFO Entering_main_cycle"
  by (simp add: handler_events_def)

lemma last_handler' [simp]:
  "e \<noteq> KeyboardInterrupt \<Longrightarrow> last (handler_events e) = Log INFO Entering_main_cycle"
  by (simp add: handler_events_def)

lemma is_Exception_iff: "is_Exception e \<longleftrightarrow> e \<noteq> KeyboardInterrupt"
  by (cases e) auto

lemma error_logs_load_events [simp]: "replied a \<Longrightarrow> error_logs (load_events t a) = []"
  by (cases "(t, a)" rule: load_events.cases) auto

lemma shape_nameless:
  assumes "shape t t0 (Call Ps (Some (Reply r)) # es)"
    and "\<exists>m\<in>set (get_models r). name m = None"
  shows "requests es = [] \<and> sleeps es = [10] \<and>
    Error_occurred (KeyError ''name'') \<in> set (error_logs es) \<and>
    last es = Log INFO Entering_main_cycle"
proof -
  from assms(2) have "model_names (get_models r) = None"
    by (simp add: model_names_None)
  with assms(1) show ?thesis
    by (auto elim!: shape.cases simp: requests_def)
qed

text \<open>
  A snapshot that holds the target: the \<^verbatim>\<open>expires_at\<close> of its entries is not read.
\<close>

lemma shape_with_target:
  assumes "shape t t0 (Call Ps (Some (Reply r)) # es)"
    and "model_names (get_models r) = Some ns" and "t \<in> set ns"
  shows "requests es = [] \<and> error_logs es = []"
  using assms by (auto elim!: shape.cases simp: requests_def)

lemma shape_failed_probe:
  assumes "shape t t0 (Call Ps (Some (Fail e)) # es)" and "is_Exception e"
  shows "requests es = [] \<and> sleeps es = [10] \<and> Error_occurred e \<in> set (error_logs es) \<and>
    last es = Log INFO Entering_main_cycle"
  using assms by (auto elim!: shape.cases simp: requests_def is_Exception_iff)

lemma after_load_load_events [simp]:
  "after_load (load_events t (Some (Fail e))) =
     (if is_Exception e then [Log ERROR (Error_loading_model t e)] else []) @ handler_events e"
  by simp

lemma shape_failed_load:
  assumes "shape t t0 (Call Ps a # es)" and "(Generate n k, Some (Fail e)) \<in> set (calls es)"
    and "is_Exception e"
  shows "requests (after_load es) = [] \<and> sleeps (after_load es) = [10] \<and>
    Error_occurred e \<in> set (error_logs (after_load es)) \<and>
    last (after_load es) = Log INFO Entering_main_cycle"
  using assms
  by (auto elim!: shape.cases simp: requests_def is_Exception_iff handler_events_def
      next_cycle_events_def wait_events_def split: if_splits)

text \<open>
  In a cycle only the last call of the client can be a Loader call.
\<close>

definition only_probes :: "event list \<Rightarrow> bool" where
  "only_probes es \<longleftrightarrow> list_all (\<lambda>q. q = Ps) (requests es)"

lemma trace_answered [simp]: "trace (answered rq w) = trace w @ [Call rq (answer w)]"
  by (simp add: answered_def)

lemma script_answered [simp]: "script (answered rq w) = tl (script w)"
  by (simp add: answered_def)

lemma requests_simps [simp]:
  "requests [] = []"
  "requests (Log l m # es) = requests es"
  "requests (Sleep d # es) = requests es"
  "requests (Call rq a # es) = rq # requests es"
  "requests (wait_events x y) = []"
  by (simp_all add: requests_def)

lemma only_probes_simps [simp]:
  "only_probes []"
  "only_probes (Log l m # es) = only_probes es"
  "only_probes (Sleep d # es) = only_probes es"
  "only_probes (Call rq a # es) = (rq = Ps \<and> only_probes es)"
  "only_probes (wait_events x y)"
  "only_probes (xs @ ys) = (only_probes xs \<and> only_probes ys)"
  by (auto simp: only_probes_def)

lemma check_loaded_models_probes:
  "check_loaded_models w = (r, w') \<Longrightarrow> only_probes (trace w') = only_probes (trace w)"
  by (auto simp: check_loaded_models_eq split: option.splits reply.splits if_splits)

lemma load_model_requests:
  "load_model n w = (r, w') \<Longrightarrow> requests (trace w') = requests (trace w) @ [Generate n (- 1)]"
  by (auto simp: load_model_eq split: option.splits reply.splits if_splits)

lemma monitor_probes:
  "monitor_for_other_models t w = (r, w') \<Longrightarrow> only_probes (trace w) \<Longrightarrow>
   only_probes (trace w')"
proof (induction t w arbitrary: r w' rule: monitor_for_other_models.induct)
  case (1 t w)
  obtain r1 w1 where c: "check_loaded_models w = (r1, w1)"
    by (cases "check_loaded_models w")
  from check_loaded_models_probes [OF c] "1.prems"(2) have p1: "only_probes (trace w1)"
    by simp
  show ?case
  proof (cases r1)
    case OutOfScript
    with c "1.prems"(1) p1 show ?thesis
      by (auto simp: monitor_for_other_models.simps [of t w])
  next
    case (Raised e)
    with c "1.prems"(1) p1 show ?thesis
      by (auto simp: monitor_for_other_models.simps [of t w] split: if_splits)
  next
    case (Return x)
    show ?thesis
    proof (cases "model_names (get_models x)")
      case None
      with Return c "1.prems"(1) p1 show ?thesis
        by (auto simp: monitor_for_other_models.simps [of t w])
    next
      case (Some ns)
      show ?thesis
      proof (cases "t \<in> set ns")
        case True
        show ?thesis
        proof (cases "length ns > 1")
          case long: True
          with True Some Return c "1.prems"(1) p1 show ?thesis
            by (auto simp: monitor_for_other_models.simps [of t w])
        next
          case False
          with True Some Return c "1.prems"(1)
          have m: "monitor_for_other_models t
                     (sleep MONITOR_INTERVAL (logger INFO (Only_target_loaded t) w1)) = (r, w')"
            by (simp add: monitor_for_other_models.simps [of t w])
          from "1.IH"(1) [OF c [symmetric] Return refl Some True False m] p1
          show ?thesis by simp
        qed
      next
        case False
        show ?thesis
        proof (cases "get_models x = []")
          case True
          with False Some Return c "1.prems"(1) p1 show ?thesis
            by (auto simp: monitor_for_other_models.simps [of t w])
        next
          case ne: False
          show ?thesis
          proof (cases "latest_expires_at_monitor (now w1) (get_models x) 0")
            case (Inl e)
            with ne False Some Return c "1.prems"(1) p1 show ?thesis
              by (auto simp: monitor_for_other_models.simps [of t w])
          next
            case (Inr l)
            show ?thesis
            proof (cases "l > 0")
              case True
              show ?thesis
              proof (cases "fromtimestamp_ok l")
                case ok: True
                with True Inr ne False Some Return c "1.prems"(1)
                have m: "monitor_for_other_models t
                           (wait_for_unload (Num l) (logger INFO (Other_models_waiting l) w1)) =
                         (r, w')"
                  by (simp add: monitor_for_other_models.simps [of t w])
                from "1.IH"(2) [OF c [symmetric] Return refl Some False ne Inr True ok m] p1
                show ?thesis by simp
              next
                case bad: False
                with True Inr ne False Some Return c "1.prems"(1) p1 show ?thesis
                  by (auto simp: monitor_for_other_models.simps [of t w])
              qed
            next
              case nev: False
              with Inr ne False Some Return c "1.prems"(1)
              have m: "monitor_for_other_models t
                         (sleep MONITOR_INTERVAL (logger INFO Other_models_no_expiration w1)) =
                       (r, w')"
                by (simp add: monitor_for_other_models.simps [of t w])
              from "1.IH"(3) [OF c [symmetric] Return refl Some False ne Inr nev m] p1
              show ?thesis by simp
            qed
          qed
        qed
      qed
    qed
  qed
qed

lemma only_probes_butlast:
  "only_probes es \<Longrightarrow> list_all (\<lambda>q. q = Ps) (butlast (requests es))"
  by (auto simp: only_probes_def list_all_iff dest: in_set_butlastD)

lemma load_model_butlast:
  "load_model n w = (r, w') \<Longrightarrow> only_probes (trace w) \<Longrightarrow>
   list_all (\<lambda>q. q = Ps) (butlast (requests (trace w')))"
  by (simp add: load_model_requests only_probes_def)

lemma target_loaded_butlast:
  assumes "target_loaded t w = (r, w')" and "only_probes (trace w)"
  shows "list_all (\<lambda>q. q = Ps) (butlast (requests (trace w')))"
proof -
  obtain rm w2 where m: "monitor_for_other_models t (logger INFO (Already_loaded t) w) = (rm, w2)"
    by (cases "monitor_for_other_models t (logger INFO (Already_loaded t) w)")
  from monitor_probes [OF m] assms(2) have p2: "only_probes (trace w2)"
    by simp
  show ?thesis
  proof (cases rm)
    case (Return b)
    show ?thesis
    proof (cases b)
      case True
      with Return m assms(1) p2 show ?thesis
        by (auto simp: target_loaded_def intro: only_probes_butlast)
    next
      case False
      with Return m assms(1)
      have "load_model t (logger INFO (No_models_now_loading t) w2) = (r, w')"
        by (simp add: target_loaded_def)
      from load_model_butlast [OF this] p2 show ?thesis by simp
    qed
  next
    case (Raised e)
    with m assms(1) p2 show ?thesis
      by (auto simp: target_loaded_def intro: only_probes_butlast)
  next
    case OutOfScript
    with m assms(1) p2 show ?thesis
      by (auto simp: target_loaded_def intro: only_probes_butlast)
  qed
qed

lemma check_again_butlast:
  assumes "check_again t w = (r, w')" and "only_probes (trace w)"
  shows "list_all (\<lambda>q. q = Ps) (butlast (requests (trace w')))"
proof -
  obtain r1 w1 where c: "check_loaded_models w = (r1, w1)"
    by (cases "check_loaded_models w")
  from check_loaded_models_probes [OF c] assms(2) have p1: "only_probes (trace w1)"
    by simp
  show ?thesis
  proof (cases r1)
    case (Return x)
    show ?thesis
    proof (cases "get_models x = []")
      case True
      with Return c assms(1)
      have "load_model t (logger INFO (No_models_now_loading t) w1) = (r, w')"
        by (simp add: check_again_def)
      from load_model_butlast [OF this] p1 show ?thesis by simp
    next
      case False
      with Return c assms(1) p1 show ?thesis
        by (auto simp: check_again_def split: option.splits intro: only_probes_butlast)
    qed
  next
    case (Raised e)
    with c assms(1) p1 show ?thesis
      by (auto simp: check_again_def intro: only_probes_butlast)
  next
    case OutOfScript
    with c assms(1) p1 show ?thesis
      by (auto simp: check_again_def intro: only_probes_butlast)
  qed
qed

lemma others_loaded_butlast:
  assumes "others_loaded t ms w = (r, w')" and "only_probes (trace w)"
  shows "list_all (\<lambda>q. q = Ps) (butlast (requests (trace w')))"
proof (cases "latest_expires_at_main (now w) ms 0")
  case (Inl e)
  with assms show ?thesis
    by (auto simp: others_loaded_def intro: only_probes_butlast)
next
  case (Inr l)
  show ?thesis
  proof (cases "l > 0 \<and> fromtimestamp_ok l")
    case True
    with Inr assms(1) have "check_again t
       (wait_for_unload (Num l) (logger INFO (Other_models_waiting l) w)) = (r, w')"
      by (simp add: others_loaded_def)
    from check_again_butlast [OF this] assms(2) show ?thesis by simp
  next
    case False
    with Inr assms show ?thesis
      by (auto simp: others_loaded_def intro: only_probes_butlast split: if_splits)
  qed
qed

lemma cycle_butlast:
  assumes "cycle t w = (r, w')" and "only_probes (trace w)"
  shows "list_all (\<lambda>q. q = Ps) (butlast (requests (trace w')))"
proof -
  obtain r1 w1 where c: "check_loaded_models (logger INFO Entering_main_cycle w) = (r1, w1)"
    by (cases "check_loaded_models (logger INFO Entering_main_cycle w)")
  from check_loaded_models_probes [OF c] assms(2) have p1: "only_probes (trace w1)"
    by simp
  show ?thesis
  proof (cases r1)
    case OutOfScript
    with c assms(1) p1 show ?thesis
      by (auto simp: cycle_def intro: only_probes_butlast)
  next
    case (Raised e)
    with c assms(1) p1 show ?thesis
      by (auto simp: cycle_def intro: only_probes_butlast)
  next
    case (Return x)
    show ?thesis
    proof (cases "model_names (get_models x)")
      case None
      with Return c assms(1) p1 show ?thesis
        by (auto simp: cycle_def intro: only_probes_butlast)
    next
      case (Some ns)
      obtain r4 w4 where b:
        "(if t \<in> set ns then target_loaded t w1
          else if get_models x \<noteq> [] then others_loaded t (get_models x) w1
          else load_model t (logger INFO (No_models_loading t) w1)) = (r4, w4)"
        by (cases "if t \<in> set ns then target_loaded t w1
          else if get_models x \<noteq> [] then others_loaded t (get_models x) w1
          else load_model t (logger INFO (No_models_loading t) w1)")
      have "list_all (\<lambda>q. q = Ps) (butlast (requests (trace w4)))"
        using b p1
        by (auto split: if_splits
            dest: target_loaded_butlast others_loaded_butlast load_model_butlast)
      moreover have "requests (trace w') = requests (trace w4)"
        using assms(1) c Return Some b by (cases r4) (auto simp: cycle_def)
      ultimately show ?thesis by simp
    qed
  qed
qed

text \<open>
  A result accounts for the script when the answers left are among those there were, an
  interrupt comes from the script, and the model stops only at the end of the script.
\<close>

definition accounted :: "world \<Rightarrow> 'a result \<Rightarrow> world \<Rightarrow> bool" where
  "accounted w r w' \<longleftrightarrow>
     set (script w') \<subseteq> set (script w) \<and>
     (r = Raised KeyboardInterrupt \<longrightarrow> Fail KeyboardInterrupt \<in> set (script w)) \<and>
     (r = OutOfScript \<longrightarrow> script w' = [])"

lemma check_loaded_models_accounted:
  "check_loaded_models w = (r, w') \<Longrightarrow> accounted w r w'"
  by (auto simp: check_loaded_models_def client_call_def accounted_def
      split: list.splits reply.splits if_splits)

lemma load_model_accounted:
  "load_model n w = (r, w') \<Longrightarrow> accounted w r w'"
  by (auto simp: load_model_def client_call_def accounted_def
      split: list.splits reply.splits if_splits)

lemma accounted_sub: "accounted w r w' \<Longrightarrow> set (script w') \<subseteq> set (script w)"
  by (simp add: accounted_def)

lemma monitor_accounted:
  "monitor_for_other_models t w = (r, w') \<Longrightarrow> accounted w r w'"
proof (induction t w arbitrary: r w' rule: monitor_for_other_models.induct)
  case (1 t w)
  obtain r1 w1 where c: "check_loaded_models w = (r1, w1)"
    by (cases "check_loaded_models w")
  note a1 = check_loaded_models_accounted [OF c]
  note sub = accounted_sub [OF a1]
  show ?case
  proof (cases r1)
    case OutOfScript
    with c "1.prems" a1 show ?thesis
      by (auto simp: monitor_for_other_models.simps [of t w] accounted_def)
  next
    case (Raised e)
    with c "1.prems" a1 show ?thesis
      by (auto simp: monitor_for_other_models.simps [of t w] accounted_def split: if_splits)
  next
    case (Return x)
    show ?thesis
    proof (cases "model_names (get_models x)")
      case None
      with Return c "1.prems" sub show ?thesis
        by (auto simp: monitor_for_other_models.simps [of t w] accounted_def)
    next
      case (Some ns)
      show ?thesis
      proof (cases "t \<in> set ns")
        case True
        show ?thesis
        proof (cases "length ns > 1")
          case long: True
          with True Some Return c "1.prems" sub show ?thesis
            by (auto simp: monitor_for_other_models.simps [of t w] accounted_def)
        next
          case False
          let ?w2 = "sleep MONITOR_INTERVAL (logger INFO (Only_target_loaded t) w1)"
          from False True Some Return c "1.prems"
          have m: "monitor_for_other_models t ?w2 = (r, w')"
            by (simp add: monitor_for_other_models.simps [of t w])
          from "1.IH"(1) [OF c [symmetric] Return refl Some True False m] sub
          show ?thesis by (auto simp: accounted_def)
        qed
      next
        case False
        show ?thesis
        proof (cases "get_models x = []")
          case True
          with False Some Return c "1.prems" sub show ?thesis
            by (auto simp: monitor_for_other_models.simps [of t w] accounted_def)
        next
          case ne: False
          show ?thesis
          proof (cases "latest_expires_at_monitor (now w1) (get_models x) 0")
            case (Inl e)
            from latest_monitor_Inl [OF Inl] have "e \<noteq> KeyboardInterrupt"
              by auto
            with Inl ne False Some Return c "1.prems" sub show ?thesis
              by (auto simp: monitor_for_other_models.simps [of t w] accounted_def)
          next
            case (Inr l)
            show ?thesis
            proof (cases "l > 0")
              case True
              show ?thesis
              proof (cases "fromtimestamp_ok l")
                case ok: True
                let ?w2 = "wait_for_unload (Num l) (logger INFO (Other_models_waiting l) w1)"
                from ok True Inr ne False Some Return c "1.prems"
                have m: "monitor_for_other_models t ?w2 = (r, w')"
                  by (simp add: monitor_for_other_models.simps [of t w])
                from "1.IH"(2) [OF c [symmetric] Return refl Some False ne Inr True ok m] sub
                show ?thesis by (auto simp: accounted_def)
              next
                case bad: False
                with True Inr ne False Some Return c "1.prems" sub show ?thesis
                  by (auto simp: monitor_for_other_models.simps [of t w] accounted_def)
              qed
            next
              case nev: False
              let ?w2 = "sleep MONITOR_INTERVAL (logger INFO Other_models_no_expiration w1)"
              from nev Inr ne False Some Return c "1.prems"
              have m: "monitor_for_other_models t ?w2 = (r, w')"
                by (simp add: monitor_for_other_models.simps [of t w])
              from "1.IH"(3) [OF c [symmetric] Return refl Some False ne Inr nev m] sub
              show ?thesis by (auto simp: accounted_def)
            qed
          qed
        qed
      qed
    qed
  qed
qed

lemma target_loaded_accounted:
  assumes "target_loaded t w = (r, w')"
  shows "accounted w r w'"
proof -
  obtain rm w2 where m: "monitor_for_other_models t (logger INFO (Already_loaded t) w) = (rm, w2)"
    by (cases "monitor_for_other_models t (logger INFO (Already_loaded t) w)")
  from monitor_accounted [OF m] have a2: "accounted w rm w2"
    by (simp add: accounted_def)
  show ?thesis
  proof (cases rm)
    case (Return b)
    show ?thesis
    proof (cases b)
      case True
      with Return m assms a2 show ?thesis
        by (auto simp: target_loaded_def accounted_def)
    next
      case False
      with Return m assms
      have "load_model t (logger INFO (No_models_now_loading t) w2) = (r, w')"
        by (simp add: target_loaded_def)
      from load_model_accounted [OF this] a2 show ?thesis
        by (auto simp: accounted_def)
    qed
  next
    case (Raised e)
    with m assms a2 show ?thesis
      by (auto simp: target_loaded_def accounted_def)
  next
    case OutOfScript
    with m assms a2 show ?thesis
      by (auto simp: target_loaded_def accounted_def)
  qed
qed

lemma check_again_accounted:
  assumes "check_again t w = (r, w')"
  shows "accounted w r w'"
proof -
  obtain r1 w1 where c: "check_loaded_models w = (r1, w1)"
    by (cases "check_loaded_models w")
  note a1 = check_loaded_models_accounted [OF c]
  show ?thesis
  proof (cases r1)
    case (Return x)
    show ?thesis
    proof (cases "get_models x = []")
      case True
      with Return c assms
      have "load_model t (logger INFO (No_models_now_loading t) w1) = (r, w')"
        by (simp add: check_again_def)
      from load_model_accounted [OF this] a1 show ?thesis
        by (auto simp: accounted_def)
    next
      case False
      with Return c assms a1 show ?thesis
        by (auto simp: check_again_def accounted_def split: option.splits)
    qed
  next
    case (Raised e)
    with c assms a1 show ?thesis
      by (auto simp: check_again_def accounted_def)
  next
    case OutOfScript
    with c assms a1 show ?thesis
      by (auto simp: check_again_def accounted_def)
  qed
qed

lemma others_loaded_accounted:
  assumes "others_loaded t ms w = (r, w')"
  shows "accounted w r w'"
proof (cases "latest_expires_at_main (now w) ms 0")
  case (Inl e)
  from latest_main_Inl [OF Inl] have "e \<noteq> KeyboardInterrupt"
    by auto
  with Inl assms show ?thesis
    by (auto simp: others_loaded_def accounted_def)
next
  case (Inr l)
  show ?thesis
  proof (cases "l > 0 \<and> fromtimestamp_ok l")
    case True
    with Inr assms have "check_again t
       (wait_for_unload (Num l) (logger INFO (Other_models_waiting l) w)) = (r, w')"
      by (simp add: others_loaded_def)
    from check_again_accounted [OF this] show ?thesis
      by (simp add: accounted_def)
  next
    case False
    with Inr assms show ?thesis
      by (auto simp: others_loaded_def accounted_def split: if_splits)
  qed
qed

lemma cycle_accounted:
  assumes "cycle t w = (r, w')"
  shows "accounted w r w'"
proof -
  obtain r1 w1 where c: "check_loaded_models (logger INFO Entering_main_cycle w) = (r1, w1)"
    by (cases "check_loaded_models (logger INFO Entering_main_cycle w)")
  from check_loaded_models_accounted [OF c] have a1: "accounted w r1 w1"
    by (simp add: accounted_def)
  show ?thesis
  proof (cases r1)
    case OutOfScript
    with c assms a1 show ?thesis
      by (auto simp: cycle_def accounted_def)
  next
    case (Raised e)
    with c assms a1 show ?thesis
      by (auto simp: cycle_def accounted_def)
  next
    case (Return x)
    show ?thesis
    proof (cases "model_names (get_models x)")
      case None
      with Return c assms a1 show ?thesis
        by (auto simp: cycle_def accounted_def)
    next
      case (Some ns)
      obtain r4 w4 where b:
        "(if t \<in> set ns then target_loaded t w1
          else if get_models x \<noteq> [] then others_loaded t (get_models x) w1
          else load_model t (logger INFO (No_models_loading t) w1)) = (r4, w4)"
        by (cases "if t \<in> set ns then target_loaded t w1
          else if get_models x \<noteq> [] then others_loaded t (get_models x) w1
          else load_model t (logger INFO (No_models_loading t) w1)")
      have "accounted w1 r4 w4"
        using b
        by (auto split: if_splits simp: accounted_def
            dest!: target_loaded_accounted others_loaded_accounted load_model_accounted)
      with a1 have "accounted w r4 w4"
        by (auto simp: accounted_def)
      moreover have "script w' = script w4 \<and>
          (r = Raised KeyboardInterrupt \<longrightarrow> r4 = Raised KeyboardInterrupt) \<and>
          (r = OutOfScript \<longrightarrow> r4 = OutOfScript)"
        using assms c Return Some b by (cases r4) (auto simp: cycle_def)
      ultimately show ?thesis
        by (auto simp: accounted_def)
    qed
  qed
qed

lemma main_loop_stops:
  "main_loop t w = (out, w') \<Longrightarrow>
   (out = Stopped \<longrightarrow> Fail KeyboardInterrupt \<in> set (script w)) \<and>
   (out = Running \<longrightarrow> script w' = [])"
proof (induction t w arbitrary: out w' rule: main_loop.induct)
  case (1 t w)
  obtain r w1 where c: "cycle t w = (r, w1)"
    by (cases "cycle t w")
  note a = cycle_accounted [OF c]
  show ?case
  proof (cases r)
    case OutOfScript
    with c "1.prems" a show ?thesis
      by (auto simp: main_loop.simps [of t w] accounted_def)
  next
    case (Return u)
    with c "1.prems" have "main_loop t w1 = (out, w')"
      by (simp add: main_loop.simps [of t w])
    from "1.IH"(1) [OF c [symmetric] Return this] a show ?thesis
      by (auto simp: accounted_def)
  next
    case (Raised e)
    show ?thesis
    proof (cases "e = KeyboardInterrupt")
      case True
      with Raised c "1.prems" a show ?thesis
        by (auto simp: main_loop.simps [of t w] accounted_def)
    next
      case False
      let ?w2 = "sleep 10 (logger INFO Retrying (logger ERROR (Error_occurred e) w1))"
      from False Raised c "1.prems" have "main_loop t ?w2 = (out, w')"
        by (simp add: main_loop.simps [of t w])
      from "1.IH"(2) [OF c [symmetric] Raised False this] a show ?thesis
        by (auto simp: accounted_def)
    qed
  qed
qed

text \<open>
  Claim C3, as amended. In every run, when a probe is answered with a snapshot in which
  some entry has no name, the cycle fails with a \<^verbatim>\<open>KeyError\<close> that is handled like a failure
  of the probe: until the next probe the program makes no call of the client, logs the
  error, sleeps the 10 seconds of the handler and starts a new cycle.

  An entry without \<^verbatim>\<open>expires_at\<close> is no failure where the program does not read that
  field. When every entry has a name and the target is among the names, whichever of the
  three probes of the program it is, the program makes no call of the client and logs no
  error until the next probe. And the probe that follows a wait reads the names only: on
  a snapshot that is not empty and whose entries all have a name, it logs the models still
  loaded and returns normally. (Where the program does read the field, at the start of a
  cycle and in the monitoring loop on a snapshot without the target, see claim C10.)
\<close>

theorem missing_name_fails_cycle:
  "(main_loop target w = (out, w') \<longrightarrow> (\<forall>e\<in>set (trace w). \<not> is_Ps e) \<longrightarrow>
      Call Ps (Some (Reply r)) # es \<in> set (segments (trace w')) \<longrightarrow>
      ((\<exists>m\<in>set (get_models r). name m = None) \<longrightarrow>
         requests es = [] \<and> sleeps es = [10] \<and>
         Error_occurred (KeyError ''name'') \<in> set (error_logs es) \<and>
         last es = Log INFO Entering_main_cycle) \<and>
      (model_names (get_models r) = Some ns \<longrightarrow> target \<in> set ns \<longrightarrow>
         requests es = [] \<and> error_logs es = [])) \<and>
   (script v = Reply r1 # rest \<longrightarrow> model_names (get_models r1) = Some ns1 \<longrightarrow>
      get_models r1 \<noteq> [] \<longrightarrow>
      check_again target v =
        (Return (),
         v\<lparr>script := rest,
            trace := trace v @
              [Call Ps (Some (Reply r1)), Log INFO (Models_still_loaded ns1)]\<rparr>))"
proof (intro conjI impI)
  assume run: "main_loop target w = (out, w')" "\<forall>e\<in>set (trace w). \<not> is_Ps e"
    "Call Ps (Some (Reply r)) # es \<in> set (segments (trace w'))"
  then have s: "shape target (now w) (Call Ps (Some (Reply r)) # es)"
    by (rule run_segments)
  {
    assume "\<exists>m\<in>set (get_models r). name m = None"
    from shape_nameless [OF s this]
    show "requests es = []" and "sleeps es = [10]"
      and "Error_occurred (KeyError ''name'') \<in> set (error_logs es)"
      and "last es = Log INFO Entering_main_cycle"
      by simp_all
  }
  {
    assume "model_names (get_models r) = Some ns" and "target \<in> set ns"
    with s have "requests es = [] \<and> error_logs es = []"
      by (rule shape_with_target)
    then show "requests es = []" and "error_logs es = []"
      by simp_all
  }
next
  assume "script v = Reply r1 # rest" and "model_names (get_models r1) = Some ns1"
    and "get_models r1 \<noteq> []"
  then show "check_again target v =
        (Return (),
         v\<lparr>script := rest,
            trace := trace v @
              [Call Ps (Some (Reply r1)), Log INFO (Models_still_loaded ns1)]\<rparr>)"
    by (simp add: check_again_still)
qed

theorem missing_name_fails_cycle_witness:
  "main_loop ''B''
     \<lparr>script = [Reply (Some [\<lparr>name = None, expires_at = Some (Datetime 2000)\<rparr>]),
                Reply (Some [\<lparr>name = Some ''B'', expires_at = None\<rparr>])],
      now = 1000, trace = []\<rparr> =
     (Running,
      \<lparr>script = [], now = 1010,
       trace =
         [Log INFO Entering_main_cycle,
          Call Ps (Some (Reply (Some [\<lparr>name = None, expires_at = Some (Datetime 2000)\<rparr>]))),
          Log ERROR (Error_occurred (KeyError ''name'')), Log INFO Retrying, Sleep 10,
          Log INFO Entering_main_cycle,
          Call Ps (Some (Reply (Some [\<lparr>name = Some ''B'', expires_at = None\<rparr>]))),
          Log INFO (Already_loaded ''B''), Call Ps None]\<rparr>) \<and>
   requests
     [Log ERROR (Error_occurred (KeyError ''name'')), Log INFO Retrying, Sleep 10,
      Log INFO Entering_main_cycle] = [] \<and>
   sleeps
     [Log ERROR (Error_occurred (KeyError ''name'')), Log INFO Retrying, Sleep 10,
      Log INFO Entering_main_cycle] = [10] \<and>
   Error_occurred (KeyError ''name'') \<in>
     set (error_logs
       [Log ERROR (Error_occurred (KeyError ''name'')), Log INFO Retrying, Sleep 10,
        Log INFO Entering_main_cycle]) \<and>
   requests [Log INFO (Already_loaded ''B'')] = [] \<and>
   error_logs [Log INFO (Already_loaded ''B'')] = [] \<and>
   check_again ''B''
     \<lparr>script = [Reply (Some [\<lparr>name = Some ''A'', expires_at = None\<rparr>])],
      now = 1000, trace = []\<rparr> =
     (Return (),
      \<lparr>script = [], now = 1000,
       trace =
         [Call Ps (Some (Reply (Some [\<lparr>name = Some ''A'', expires_at = None\<rparr>]))),
          Log INFO (Models_still_loaded [''A''])]\<rparr>)"
proof -
  let ?r1 = "Some [\<lparr>name = None, expires_at = Some (Datetime 2000)\<rparr>]"
  let ?r2 = "Some [\<lparr>name = Some ''A'', expires_at = None\<rparr>]"
  let ?r3 = "Some [\<lparr>name = Some ''B'', expires_at = None\<rparr>]"
  let ?w = "\<lparr>script = [Reply ?r1, Reply ?r3], now = 1000, trace = []\<rparr>"
  let ?v = "\<lparr>script = [Reply ?r2], now = 1000, trace = []\<rparr>"
  let ?es1 = "[Log ERROR (Error_occurred (KeyError ''name'')), Log INFO Retrying, Sleep 10,
      Log INFO Entering_main_cycle]"
  let ?es3 = "[Log INFO (Already_loaded ''B'')]"
  let ?w' = "\<lparr>script = [], now = 1010,
       trace = Log INFO Entering_main_cycle # Call Ps (Some (Reply ?r1)) # ?es1 @
               Call Ps (Some (Reply ?r3)) # ?es3 @ [Call Ps None]\<rparr>"
  have run: "main_loop ''B'' ?w = (Running, ?w')"
    by (simp add: run_defs)
  have init: "\<forall>e\<in>set (trace ?w). \<not> is_Ps e"
    by simp
  have seg1: "Call Ps (Some (Reply ?r1)) # ?es1 \<in> set (segments (trace ?w'))"
    by simp
  have seg3: "Call Ps (Some (Reply ?r3)) # ?es3 \<in> set (segments (trace ?w'))"
    by simp
  have nameless: "\<exists>m\<in>set (get_models ?r1). name m = None"
    by simp
  have names2: "model_names (get_models ?r2) = Some [''A'']"
    by simp
  have names3: "model_names (get_models ?r3) = Some [''B'']"
    by simp
  have present: "''B'' \<in> set [''B'']"
    by simp
  have sc: "script ?v = Reply ?r2 # []"
    by simp
  have ne: "get_models ?r2 \<noteq> []"
    by simp
  note inst = missing_name_fails_cycle [of "''B''" ?w Running ?w' _ _ _ ?v ?r2 "[]" "[''A'']"]
  from inst [of ?r1 ?es1 "[]"] inst [of ?r3 ?es3 "[''B'']"]
    run init seg1 seg3 nameless names2 names3 present sc ne
  show ?thesis
    by (simp add: run_defs)
qed

text \<open>
  Claim C3 as stated fails for \<^verbatim>\<open>expires_at\<close>: where the program does not read the field,
  an entry without it is no failure. A snapshot that holds the target alone, with its
  \<^verbatim>\<open>expires_at\<close> unset, is monitored as any other; and at the probe that follows a wait, an
  entry with a name and no \<^verbatim>\<open>expires_at\<close> is logged among the models still loaded and the
  cycle ends normally. Nothing is logged at level ERROR.
\<close>

theorem missing_expires_at_not_read_counterexample:
  "main_loop ''B''
     \<lparr>script = [Reply (Some [\<lparr>name = Some ''B'', expires_at = None\<rparr>]),
                Reply (Some [\<lparr>name = Some ''B'', expires_at = None\<rparr>])],
      now = 1000, trace = []\<rparr> =
     (Running,
      \<lparr>script = [], now = 1060,
       trace =
         [Log INFO Entering_main_cycle,
          Call Ps (Some (Reply (Some [\<lparr>name = Some ''B'', expires_at = None\<rparr>]))),
          Log INFO (Already_loaded ''B''),
          Call Ps (Some (Reply (Some [\<lparr>name = Some ''B'', expires_at = None\<rparr>]))),
          Log INFO (Only_target_loaded ''B''), Sleep 60, Call Ps None]\<rparr>) \<and>
   cycle ''B''
     \<lparr>script = [Reply (Some [\<lparr>name = Some ''A'', expires_at = Some (Datetime 1100)\<rparr>]),
                Reply (Some [\<lparr>name = Some ''A'', expires_at = None\<rparr>])],
      now = 1000, trace = []\<rparr> =
     (Return (),
      \<lparr>script = [], now = 1105,
       trace =
         [Log INFO Entering_main_cycle,
          Call Ps (Some (Reply (Some [\<lparr>name = Some ''A'', expires_at = Some (Datetime 1100)\<rparr>]))),
          Log INFO (Other_models_waiting 1100), Log INFO (Waiting_until_unload 100), Sleep 100,
          Call Ps (Some (Reply (Some [\<lparr>name = Some ''A'', expires_at = None\<rparr>]))),
          Log INFO (Models_still_loaded [''A'']), Log INFO Cycle_complete, Sleep 5]\<rparr>) \<and>
   error_logs
     [Log INFO Entering_main_cycle,
      Call Ps (Some (Reply (Some [\<lparr>name = Some ''B'', expires_at = None\<rparr>]))),
      Log INFO (Already_loaded ''B''),
      Call Ps (Some (Reply (Some [\<lparr>name = Some ''B'', expires_at = None\<rparr>]))),
      Log INFO (Only_target_loaded ''B''), Sleep 60, Call Ps None] = [] \<and>
   error_logs
     [Log INFO Entering_main_cycle,
      Call Ps (Some (Reply (Some [\<lparr>name = Some ''A'', expires_at = Some (Datetime 1100)\<rparr>]))),
      Log INFO (Other_models_waiting 1100), Log INFO (Waiting_until_unload 100), Sleep 100,
      Call Ps (Some (Reply (Some [\<lparr>name = Some ''A'', expires_at = None\<rparr>]))),
      Log INFO (Models_still_loaded [''A'']), Log INFO Cycle_complete, Sleep 5] = []"
  by (simp add: run_defs)

text \<open>
  Claim C8. In every run: after a probe that fails with an exception, the program makes
  no call of the client before the next probe (no retry in \<^verbatim>\<open>check_loaded_models\<close> or in
  the monitoring loop, and no load), logs the error in the handler of the main loop, sleeps
  10 seconds once, and the next probe is the first one of a new cycle. The same holds for
  what follows a Loader call that fails with an exception. In a cycle, every call of the
  client but the last is a probe, so that a cycle that ends with a failed probe has made no
  Loader call. The loop ends only when the daemon's script holds the interrupt of the
  operator; otherwise it is still running when every answer of the script has been used.
\<close>

theorem failure_backoff_retry:
  assumes "main_loop target w = (out, w')" and "\<forall>e\<in>set (trace w). \<not> is_Ps e"
  shows "(Call Ps (Some (Fail e)) # es \<in> set (segments (trace w')) \<longrightarrow> is_Exception e \<longrightarrow>
            requests es = [] \<and> sleeps es = [10] \<and>
            Error_occurred e \<in> set (error_logs es) \<and>
            last es = Log INFO Entering_main_cycle) \<and>
         (Call Ps a # es' \<in> set (segments (trace w')) \<longrightarrow>
            (Generate n k, Some (Fail e')) \<in> set (calls es') \<longrightarrow> is_Exception e' \<longrightarrow>
            requests (after_load es') = [] \<and> sleeps (after_load es') = [10] \<and>
            Error_occurred e' \<in> set (error_logs (after_load es')) \<and>
            last (after_load es') = Log INFO Entering_main_cycle) \<and>
         (cycle target w0 = (r, w1) \<longrightarrow> trace w0 = [] \<longrightarrow>
            list_all (\<lambda>q. q = Ps) (butlast (requests (trace w1)))) \<and>
         (out = Stopped \<longrightarrow> Fail KeyboardInterrupt \<in> set (script w)) \<and>
         (out = Running \<longrightarrow> script w' = [])"
proof (intro conjI impI)
  assume "Call Ps (Some (Fail e)) # es \<in> set (segments (trace w'))" and e: "is_Exception e"
  with assms have "shape target (now w) (Call Ps (Some (Fail e)) # es)"
    by (intro run_segments)
  from shape_failed_probe [OF this e]
  show "requests es = []" and "sleeps es = [10]"
    and "Error_occurred e \<in> set (error_logs es)"
    and "last es = Log INFO Entering_main_cycle"
    by simp_all
next
  assume "Call Ps a # es' \<in> set (segments (trace w'))"
    and c: "(Generate n k, Some (Fail e')) \<in> set (calls es')" and e: "is_Exception e'"
  with assms have "shape target (now w) (Call Ps a # es')"
    by (intro run_segments)
  from shape_failed_load [OF this c e]
  show "requests (after_load es') = []" and "sleeps (after_load es') = [10]"
    and "Error_occurred e' \<in> set (error_logs (after_load es'))"
    and "last (after_load es') = Log INFO Entering_main_cycle"
    by simp_all
next
  assume "cycle target w0 = (r, w1)" and "trace w0 = []"
  with cycle_butlast [of target w0 r w1]
  show "list_all (\<lambda>q. q = Ps) (butlast (requests (trace w1)))"
    by simp
next
  assume "out = Stopped"
  with main_loop_stops [OF assms(1)] show "Fail KeyboardInterrupt \<in> set (script w)"
    by simp
next
  assume "out = Running"
  with main_loop_stops [OF assms(1)] show "script w' = []"
    by simp
qed

theorem failure_backoff_retry_witness:
  "main_loop ''B''
     \<lparr>script = [Fail (ClientError ''down''), Reply (Some []), Fail (ClientError ''busy''),
                Fail KeyboardInterrupt],
      now = 1000, trace = []\<rparr> =
     (Stopped,
      \<lparr>script = [], now = 1020,
       trace =
         [Log INFO Entering_main_cycle, Call Ps (Some (Fail (ClientError ''down''))),
          Log ERROR (Error_checking_loaded_models (ClientError ''down'')),
          Log ERROR (Error_occurred (ClientError ''down'')), Log INFO Retrying, Sleep 10,
          Log INFO Entering_main_cycle, Call Ps (Some (Reply (Some []))),
          Log INFO (No_models_loading ''B''),
          Call (Generate ''B'' (- 1)) (Some (Fail (ClientError ''busy''))),
          Log ERROR (Error_loading_model ''B'' (ClientError ''busy'')),
          Log ERROR (Error_occurred (ClientError ''busy'')), Log INFO Retrying, Sleep 10,
          Log INFO Entering_main_cycle, Call Ps (Some (Fail KeyboardInterrupt)),
          Log INFO Stopped_by_user]\<rparr>) \<and>
   requests
     [Log ERROR (Error_checking_loaded_models (ClientError ''down'')),
      Log ERROR (Error_occurred (ClientError ''down'')), Log INFO Retrying, Sleep 10,
      Log INFO Entering_main_cycle] = [] \<and>
   sleeps
     [Log ERROR (Error_checking_loaded_models (ClientError ''down'')),
      Log ERROR (Error_occurred (ClientError ''down'')), Log INFO Retrying, Sleep 10,
      Log INFO Entering_main_cycle] = [10] \<and>
   after_load
     [Log INFO (No_models_loading ''B''),
      Call (Generate ''B'' (- 1)) (Some (Fail (ClientError ''busy''))),
      Log ERROR (Error_loading_model ''B'' (ClientError ''busy'')),
      Log ERROR (Error_occurred (ClientError ''busy'')), Log INFO Retrying, Sleep 10,
      Log INFO Entering_main_cycle] =
     [Log ERROR (Error_loading_model ''B'' (ClientError ''busy'')),
      Log ERROR (Error_occurred (ClientError ''busy'')), Log INFO Retrying, Sleep 10,
      Log INFO Entering_main_cycle] \<and>
   sleeps
     [Log ERROR (Error_loading_model ''B'' (ClientError ''busy'')),
      Log ERROR (Error_occurred (ClientError ''busy'')), Log INFO Retrying, Sleep 10,
      Log INFO Entering_main_cycle] = [10] \<and>
   cycle ''B''
     \<lparr>script = [Fail (ClientError ''down''), Reply (Some []), Fail (ClientError ''busy''),
                Fail KeyboardInterrupt],
      now = 1000, trace = []\<rparr> =
     (Raised (ClientError ''down''),
      \<lparr>script = [Reply (Some []), Fail (ClientError ''busy''), Fail KeyboardInterrupt],
       now = 1000,
       trace =
         [Log INFO Entering_main_cycle, Call Ps (Some (Fail (ClientError ''down''))),
          Log ERROR (Error_checking_loaded_models (ClientError ''down''))]\<rparr>) \<and>
   Fail KeyboardInterrupt \<in>
     set [Fail (ClientError ''down''), Reply (Some []), Fail (ClientError ''busy''),
          Fail KeyboardInterrupt]"
proof -
  let ?sc = "[Fail (ClientError ''down''), Reply (Some []), Fail (ClientError ''busy''),
                Fail KeyboardInterrupt]"
  let ?w = "\<lparr>script = ?sc, now = 1000, trace = []\<rparr>"
  let ?es = "[Log ERROR (Error_checking_loaded_models (ClientError ''down'')),
      Log ERROR (Error_occurred (ClientError ''down'')), Log INFO Retrying, Sleep 10,
      Log INFO Entering_main_cycle]"
  let ?es' = "[Log INFO (No_models_loading ''B''),
      Call (Generate ''B'' (- 1)) (Some (Fail (ClientError ''busy''))),
      Log ERROR (Error_loading_model ''B'' (ClientError ''busy'')),
      Log ERROR (Error_occurred (ClientError ''busy'')), Log INFO Retrying, Sleep 10,
      Log INFO Entering_main_cycle]"
  let ?w' = "\<lparr>script = [], now = 1020,
       trace = Log INFO Entering_main_cycle # Call Ps (Some (Fail (ClientError ''down''))) #
               ?es @ Call Ps (Some (Reply (Some []))) # ?es' @
               [Call Ps (Some (Fail KeyboardInterrupt)), Log INFO Stopped_by_user]\<rparr>"
  let ?w1 = "\<lparr>script = [Reply (Some []), Fail (ClientError ''busy''), Fail KeyboardInterrupt],
       now = 1000,
       trace =
         [Log INFO Entering_main_cycle, Call Ps (Some (Fail (ClientError ''down''))),
          Log ERROR (Error_checking_loaded_models (ClientError ''down''))]\<rparr>"
  have run: "main_loop ''B'' ?w = (Stopped, ?w')"
    by (simp add: run_defs)
  have init: "\<forall>e\<in>set (trace ?w). \<not> is_Ps e"
    by simp
  have seg: "Call Ps (Some (Fail (ClientError ''down''))) # ?es \<in> set (segments (trace ?w'))"
    by simp
  have seg': "Call Ps (Some (Reply (Some []))) # ?es' \<in> set (segments (trace ?w'))"
    by simp
  have failed: "(Generate ''B'' (- 1), Some (Fail (ClientError ''busy''))) \<in> set (calls ?es')"
    by simp
  have cyc: "cycle ''B'' ?w = (Raised (ClientError ''down''), ?w1)"
    by (simp add: run_defs)
  have empty: "trace ?w = []"
    by simp
  from failure_backoff_retry [OF run init, of "ClientError ''down''" ?es "Some (Reply (Some []))"
      ?es' "''B''" "- 1" "ClientError ''busy''" ?w "Raised (ClientError ''down'')" ?w1]
    run seg seg' failed cyc empty
  show ?thesis
    by simp
qed

section \<open>Other models that expire\<close>

text \<open>
  The value that the loops over the entries compute, when they raise nothing: it is not
  less than the expiry of any counted entry; in \<^verbatim>\<open>main\<close> it is the starting value or the
  expiry of a counted entry.
\<close>

lemma latest_main_readable:
  "\<forall>m\<in>set ms. readable m \<Longrightarrow> \<exists>l. latest_expires_at_main t ms acc = Inr l"
  by (induction ms arbitrary: acc) (auto simp: readable_def split: option.splits)

lemma latest_monitor_readable:
  "\<forall>m\<in>set ms. readable m \<Longrightarrow> \<exists>l. latest_expires_at_monitor t ms acc = Inr l"
  by (induction ms arbitrary: acc) (auto simp: readable_def split: option.splits)

lemma latest_main_ge: "latest_expires_at_main t ms acc = Inr l \<Longrightarrow> acc \<le> l"
proof (induction ms arbitrary: acc)
  case Nil
  then show ?case by simp
next
  case (Cons m ms)
  then show ?case
    by (fastforce split: option.splits if_splits)
qed

lemma latest_monitor_ge: "latest_expires_at_monitor t ms acc = Inr l \<Longrightarrow> acc \<le> l"
proof (induction ms arbitrary: acc)
  case Nil
  then show ?case by simp
next
  case (Cons m ms)
  then show ?case
    by (fastforce split: option.splits if_splits)
qed

lemma latest_main_upper:
  "latest_expires_at_main t ms acc = Inr l \<Longrightarrow> m \<in> set ms \<Longrightarrow> expires_at m = Some e \<Longrightarrow>
   counted t m \<Longrightarrow> timestamp e \<le> l"
proof (induction ms arbitrary: acc)
  case Nil
  then show ?case by simp
next
  case (Cons x xs)
  show ?case
  proof (cases "m = x")
    case True
    with Cons.prems have "latest_expires_at_main t xs (max acc (timestamp e)) = Inr l"
      by (simp add: counted_def)
    from latest_main_ge [OF this] show ?thesis by simp
  next
    case False
    with Cons.prems have "m \<in> set xs" by simp
    moreover from Cons.prems(1) obtain acc' where "latest_expires_at_main t xs acc' = Inr l"
      by (auto split: option.splits if_splits)
    ultimately show ?thesis
      using Cons.IH Cons.prems(3,4) by blast
  qed
qed

lemma latest_monitor_upper:
  "latest_expires_at_monitor t ms acc = Inr l \<Longrightarrow> m \<in> set ms \<Longrightarrow> expires_at m = Some e \<Longrightarrow>
   counted t m \<Longrightarrow> timestamp e \<le> l"
proof (induction ms arbitrary: acc)
  case Nil
  then show ?case by simp
next
  case (Cons x xs)
  show ?case
  proof (cases "m = x")
    case True
    with Cons.prems have "latest_expires_at_monitor t xs (max acc (timestamp e) + 5) = Inr l"
      by (simp add: counted_def)
    from latest_monitor_ge [OF this] show ?thesis by simp
  next
    case False
    with Cons.prems have "m \<in> set xs" by simp
    moreover from Cons.prems(1) obtain acc' where "latest_expires_at_monitor t xs acc' = Inr l"
      by (auto split: option.splits if_splits)
    ultimately show ?thesis
      using Cons.IH Cons.prems(3,4) by blast
  qed
qed

lemma latest_main_attained:
  "latest_expires_at_main t ms acc = Inr l \<Longrightarrow>
   l = acc \<or> (\<exists>m\<in>set ms. \<exists>e. expires_at m = Some e \<and> counted t m \<and> l = timestamp e)"
proof (induction ms arbitrary: acc)
  case Nil
  then show ?case by simp
next
  case (Cons x xs)
  show ?case
  proof (cases "counted t x")
    case False
    with Cons.prems have "latest_expires_at_main t xs acc = Inr l"
      by (auto simp: counted_def split: option.splits if_splits)
    from Cons.IH [OF this] show ?thesis by auto
  next
    case True
    then obtain e where e: "expires_at x = Some e"
      by (auto simp: counted_def split: option.splits)
    with True Cons.prems have "latest_expires_at_main t xs (max acc (timestamp e)) = Inr l"
      by (simp add: counted_def)
    from Cons.IH [OF this] e True show ?thesis
      by (auto simp: max_def split: if_splits)
  qed
qed

text \<open>
  The world after a probe answered with the response \<open>r\<close>, and after lines 137 and 138 of
  \<^verbatim>\<open>main\<close> (lines 91 and 92 of \<^verbatim>\<open>monitor_for_other_models\<close>): the message and the wait
  until the time \<open>l\<close> that the loop over the entries has computed.
\<close>

definition probed :: "response \<Rightarrow> world \<Rightarrow> world" where
  "probed r w = w\<lparr>script := tl (script w), trace := trace w @ [Call Ps (Some (Reply r))]\<rparr>"

definition waited :: "real \<Rightarrow> world \<Rightarrow> world" where
  "waited l w = wait_for_unload (Num l) (logger INFO (Other_models_waiting l) w)"

lemma check_loaded_models_probed:
  "script w = Reply r # rest \<Longrightarrow> check_loaded_models w = (Return r, probed r w)"
  by (simp add: check_loaded_models_def client_call_def probed_def)

lemma script_probed [simp]: "script (probed r w) = tl (script w)"
  by (simp add: probed_def)

lemma now_probed [simp]: "now (probed r w) = now w"
  by (simp add: probed_def)

lemma trace_probed [simp]: "trace (probed r w) = trace w @ [Call Ps (Some (Reply r))]"
  by (simp add: probed_def)

lemma script_waited [simp]: "script (waited l w) = script w"
  by (simp add: waited_def)

lemma now_waited: "now w < l \<Longrightarrow> now (waited l w) = l"
  by (simp add: waited_def wait_for_unload_def Let_def)

lemma requests_waited [simp]: "requests (trace (waited l w)) = requests (trace w)"
  by (simp add: waited_def)

lemma cycle_end_requests:
  "requests (trace (snd (case rw of
       (Return u, w4) \<Rightarrow> (Return (), sleep CYCLE_INTERVAL (logger INFO Cycle_complete w4))
     | (Raised e, w4) \<Rightarrow> (Raised e, w4)
     | (OutOfScript, w4) \<Rightarrow> (OutOfScript, w4)))) = requests (trace (snd rw))"
  by (cases rw; cases "fst rw") auto

text \<open>
  Claim C7, as amended. Take a snapshot of models other than the target in which every
  entry has a name and an \<^verbatim>\<open>expires_at\<close> that the program can read, and at least one entry
  is counted: its \<^verbatim>\<open>expires_at\<close> is not 0 and lies after the current time (the clock being
  past the epoch). Both loops over the entries then compute a time, \<open>l\<close> in \<^verbatim>\<open>main\<close> and
  \<open>l'\<close> in \<^verbatim>\<open>monitor_for_other_models\<close>, that lies after the current time and is not
  earlier than the expiry of any counted entry. (How far it lies after the latest expiry
  is the matter of claim C1.)

  When the snapshot answers the first probe of a cycle, the program waits until \<open>l\<close> and
  then probes exactly once more. If the new snapshot is empty, the cycle goes on with the
  Loader for the target, its third and last call of the client. Otherwise, every entry
  having a name, it logs the names of the models still loaded and ends as every cycle
  does, with the pause \<open>CYCLE_INTERVAL\<close>, without a Loader call.

  When the snapshot answers a probe of the monitoring loop and \<open>l'\<close> can be printed, the
  program waits until \<open>l'\<close> and the loop starts over with its own probe: if the new
  snapshot is empty the loop returns \<^verbatim>\<open>False\<close>, on which its caller calls the Loader;
  otherwise the loop goes on as after any of its probes.
\<close>

theorem future_expiry_wait_then_recheck:
  assumes "script w = Reply r # Reply r' # rest"
    and "model_names (get_models r) = Some ns" and "target \<notin> set ns"
    and "\<forall>m\<in>set (get_models r). readable m"
    and "\<exists>m\<in>set (get_models r). counted (now w) m"
    and "0 \<le> now w"
  shows "\<exists>l l'.
    latest_expires_at_main (now w) (get_models r) 0 = Inr l \<and>
    latest_expires_at_monitor (now w) (get_models r) 0 = Inr l' \<and>
    now w < l \<and> now w < l' \<and>
    (\<forall>m\<in>set (get_models r). \<forall>e. expires_at m = Some e \<longrightarrow> counted (now w) m \<longrightarrow>
       timestamp e \<le> l \<and> timestamp e \<le> l') \<and>
    now (waited l (probed r (logger INFO Entering_main_cycle w))) = l \<and>
    (get_models r' = [] \<longrightarrow>
       cycle target w =
         (case load_model target
                 (logger INFO (No_models_now_loading target)
                    (probed r' (waited l (probed r (logger INFO Entering_main_cycle w))))) of
            (Return u, w4) \<Rightarrow>
              (Return (), sleep CYCLE_INTERVAL (logger INFO Cycle_complete w4))
          | (Raised e, w4) \<Rightarrow> (Raised e, w4)
          | (OutOfScript, w4) \<Rightarrow> (OutOfScript, w4)) \<and>
       requests (trace (snd (cycle target w))) =
         requests (trace w) @ [Ps, Ps, Generate target (- 1)]) \<and>
    (get_models r' \<noteq> [] \<longrightarrow> model_names (get_models r') = Some ns' \<longrightarrow>
       cycle target w =
         (Return (),
          sleep CYCLE_INTERVAL
            (logger INFO Cycle_complete
               (logger INFO (Models_still_loaded ns')
                  (probed r' (waited l (probed r (logger INFO Entering_main_cycle w))))))) \<and>
       requests (trace (snd (cycle target w))) = requests (trace w) @ [Ps, Ps]) \<and>
    (fromtimestamp_ok l' \<longrightarrow>
       now (waited l' (probed r w)) = l' \<and>
       monitor_for_other_models target w =
         monitor_for_other_models target (waited l' (probed r w)) \<and>
       (get_models r' = [] \<longrightarrow>
          monitor_for_other_models target w =
            (Return False,
             logger INFO (No_longer_loaded target) (probed r' (waited l' (probed r w))))))"
proof -
  let ?ms = "get_models r"
  let ?w1 = "probed r (logger INFO Entering_main_cycle w)"
  from latest_main_readable [OF assms(4)]
  obtain l where l: "latest_expires_at_main (now w) ?ms 0 = Inr l"
    by blast
  from latest_monitor_readable [OF assms(4)]
  obtain l' where l': "latest_expires_at_monitor (now w) ?ms 0 = Inr l'"
    by blast
  let ?w2 = "waited l ?w1"
  let ?w3 = "probed r' ?w2"
  let ?v2 = "waited l' (probed r w)"
  from assms(5) obtain m e where m: "m \<in> set ?ms" "counted (now w) m" "expires_at m = Some e"
    by (auto simp: counted_def split: option.splits)
  then have future: "now w < timestamp e"
    by (simp add: counted_def)
  have up: "\<forall>m\<in>set ?ms. \<forall>e. expires_at m = Some e \<longrightarrow> counted (now w) m \<longrightarrow>
       timestamp e \<le> l \<and> timestamp e \<le> l'"
    using latest_main_upper [OF l] latest_monitor_upper [OF l'] by blast
  with m have "timestamp e \<le> l" and "timestamp e \<le> l'"
    by simp_all
  with future have lt: "now w < l" and lt': "now w < l'"
    by simp_all
  with assms(6) have pos: "0 < l" and pos': "0 < l'"
    by simp_all
  from latest_main_attained [OF l] pos have ok: "fromtimestamp_ok l"
    by (auto simp: counted_def)
  have ne: "?ms \<noteq> []"
    using m(1) by auto
  have c1: "check_loaded_models (logger INFO Entering_main_cycle w) = (Return r, ?w1)"
    using assms(1) by (intro check_loaded_models_probed) simp
  have now2: "now ?w2 = l"
    using lt by (simp add: now_waited)
  have c2: "check_loaded_models ?w2 = (Return r', ?w3)"
    using assms(1) by (intro check_loaded_models_probed) simp
  have ol: "others_loaded target ?ms ?w1 = check_again target ?w2"
    using l pos ok by (simp add: others_loaded_def waited_def)
  have cy: "cycle target w =
      (case check_again target ?w2 of
         (Return u, w4) \<Rightarrow> (Return (), sleep CYCLE_INTERVAL (logger INFO Cycle_complete w4))
       | (Raised e, w4) \<Rightarrow> (Raised e, w4)
       | (OutOfScript, w4) \<Rightarrow> (OutOfScript, w4))"
    using assms(2,3) ne by (simp add: cycle_def c1 ol)
  have rq3: "requests (trace ?w3) = requests (trace w) @ [Ps, Ps]"
    by simp
  have empty: "cycle target w =
         (case load_model target (logger INFO (No_models_now_loading target) ?w3) of
            (Return u, w4) \<Rightarrow>
              (Return (), sleep CYCLE_INTERVAL (logger INFO Cycle_complete w4))
          | (Raised e, w4) \<Rightarrow> (Raised e, w4)
          | (OutOfScript, w4) \<Rightarrow> (OutOfScript, w4))" if "get_models r' = []"
    using that by (simp add: cy check_again_def c2)
  have empty_rq: "requests (trace (snd (cycle target w))) =
         requests (trace w) @ [Ps, Ps, Generate target (- 1)]" if "get_models r' = []"
  proof -
    obtain r4 w4 where lm:
      "load_model target (logger INFO (No_models_now_loading target) ?w3) = (r4, w4)"
      by (cases "load_model target (logger INFO (No_models_now_loading target) ?w3)")
    from load_model_requests [OF lm]
    have "requests (trace w4) = requests (trace w) @ [Ps, Ps, Generate target (- 1)]"
      by simp
    then show ?thesis
      unfolding empty [OF that] cycle_end_requests lm by simp
  qed
  have still: "cycle target w =
         (Return (),
          sleep CYCLE_INTERVAL
            (logger INFO Cycle_complete (logger INFO (Models_still_loaded ns') ?w3)))"
    if "get_models r' \<noteq> []" and "model_names (get_models r') = Some ns'"
    using that by (simp add: cy check_again_def c2)
  have still_rq: "requests (trace (snd (cycle target w))) = requests (trace w) @ [Ps, Ps]"
    if "get_models r' \<noteq> []" and "model_names (get_models r') = Some ns'"
    unfolding still [OF that] by simp
  have cm: "check_loaded_models w = (Return r, probed r w)"
    using assms(1) by (rule check_loaded_models_probed)
  have mon: "monitor_for_other_models target w = monitor_for_other_models target ?v2"
    if "fromtimestamp_ok l'"
    using that assms(2,3) ne l' pos'
    by (simp add: monitor_for_other_models.simps [of target w] cm waited_def)
  have nowv: "now ?v2 = l'"
    using lt' by (simp add: now_waited)
  have cm2: "check_loaded_models ?v2 = (Return r', probed r' ?v2)"
    using assms(1) by (intro check_loaded_models_probed) simp
  have mon_empty: "monitor_for_other_models target w =
      (Return False, logger INFO (No_longer_loaded target) (probed r' ?v2))"
    if "fromtimestamp_ok l'" and "get_models r' = []"
    using that(2)
    by (simp add: mon [OF that(1)] monitor_for_other_models.simps [of target ?v2] cm2)
  from l l' lt lt' up now2 empty empty_rq still still_rq mon nowv mon_empty show ?thesis
    by blast
qed

theorem future_expiry_wait_then_recheck_witness:
  "cycle ''B''
     \<lparr>script = [Reply (Some [\<lparr>name = Some ''A'', expires_at = Some (Datetime 1100)\<rparr>]),
                Reply (Some [\<lparr>name = Some ''A'', expires_at = Some (Datetime 1100)\<rparr>])],
      now = 1000, trace = []\<rparr> =
     (Return (),
      \<lparr>script = [], now = 1105,
       trace =
         [Log INFO Entering_main_cycle,
          Call Ps (Some (Reply (Some [\<lparr>name = Some ''A'', expires_at = Some (Datetime 1100)\<rparr>]))),
          Log INFO (Other_models_waiting 1100), Log INFO (Waiting_until_unload 100), Sleep 100,
          Call Ps (Some (Reply (Some [\<lparr>name = Some ''A'', expires_at = Some (Datetime 1100)\<rparr>]))),
          Log INFO (Models_still_loaded [''A'']), Log INFO Cycle_complete, Sleep 5]\<rparr>) \<and>
   cycle ''B''
     \<lparr>script = [Reply (Some [\<lparr>name = Some ''A'', expires_at = Some (Datetime 1100)\<rparr>]),
                Reply (Some []), Reply None],
      now = 1000, trace = []\<rparr> =
     (Return (),
      \<lparr>script = [], now = 1105,
       trace =
         [Log INFO Entering_main_cycle,
          Call Ps (Some (Reply (Some [\<lparr>name = Some ''A'', expires_at = Some (Datetime 1100)\<rparr>]))),
          Log INFO (Other_models_waiting 1100), Log INFO (Waiting_until_unload 100), Sleep 100,
          Call Ps (Some (Reply (Some []))), Log INFO (No_models_now_loading ''B''),
          Call (Generate ''B'' (- 1)) (Some (Reply None)),
          Log INFO (Successfully_loaded ''B''), Log INFO Cycle_complete, Sleep 5]\<rparr>) \<and>
   monitor_for_other_models ''B''
     \<lparr>script = [Reply (Some [\<lparr>name = Some ''A'', expires_at = Some (Datetime 1100)\<rparr>]),
                Reply (Some []), Reply None],
      now = 1000, trace = []\<rparr> =
     (Return False,
      \<lparr>script = [Reply None], now = 1105,
       trace =
         [Call Ps (Some (Reply (Some [\<lparr>name = Some ''A'', expires_at = Some (Datetime 1100)\<rparr>]))),
          Log INFO (Other_models_waiting 1105), Log INFO (Waiting_until_unload 105), Sleep 105,
          Call Ps (Some (Reply (Some []))), Log INFO (No_longer_loaded ''B'')]\<rparr>) \<and>
   (1000 :: real) < 1100 \<and> (1000 :: real) < 1105"
proof -
  let ?r = "Some [\<lparr>name = Some ''A'', expires_at = Some (Datetime 1100)\<rparr>]"
  let ?w = "\<lparr>script = [Reply ?r, Reply ?r], now = 1000, trace = []\<rparr>"
  let ?v = "\<lparr>script = [Reply ?r, Reply (Some []), Reply None], now = 1000, trace = []\<rparr>"
  have sw: "script ?w = Reply ?r # Reply ?r # []"
    by simp
  have sv: "script ?v = Reply ?r # Reply (Some []) # [Reply None]"
    by simp
  have names: "model_names (get_models ?r) = Some [''A'']"
    by simp
  have absent: "''B'' \<notin> set [''A'']"
    by simp
  have readable: "\<forall>m\<in>set (get_models ?r). readable m"
    by (simp add: readable_def fromtimestamp_ok_def)
  have future_w: "\<exists>m\<in>set (get_models ?r). counted (now ?w) m"
    by (simp add: counted_def fromtimestamp_ok_def)
  have future_v: "\<exists>m\<in>set (get_models ?r). counted (now ?v) m"
    by (simp add: counted_def fromtimestamp_ok_def)
  have past_w: "0 \<le> now ?w"
    by simp
  have past_v: "0 \<le> now ?v"
    by simp
  from future_expiry_wait_then_recheck [OF sw names absent readable future_w past_w, of "[''A'']"]
    future_expiry_wait_then_recheck [OF sv names absent readable future_v past_v, of "[]"]
  show ?thesis
    by (simp add: run_defs probed_def waited_def)
qed

text \<open>
  Claim C7 as stated fails in two ways. A model whose expiry is not "never" but has already
  passed is not counted: the cycle takes the branch of the models that never expire,
  sleeps \<open>MONITOR_INTERVAL\<close> and ends without probing again (the second answer of the
  script is not read). And in the monitoring loop, when the probe after the wait finds the
  other model still loaded, the remaining models are not logged and the cycle does not
  end: the loop goes on, here with a sleep of \<open>MONITOR_INTERVAL\<close> and one more probe.
\<close>

theorem expiring_others_recheck_counterexample:
  "cycle ''B''
     \<lparr>script = [Reply (Some [\<lparr>name = Some ''A'', expires_at = Some (Datetime 950)\<rparr>]),
                Reply (Some [])],
      now = 1000, trace = []\<rparr> =
     (Return (),
      \<lparr>script = [Reply (Some [])], now = 1065,
       trace =
         [Log INFO Entering_main_cycle,
          Call Ps (Some (Reply (Some [\<lparr>name = Some ''A'', expires_at = Some (Datetime 950)\<rparr>]))),
          Log INFO Only_non_expiring, Sleep 60, Log INFO Cycle_complete, Sleep 5]\<rparr>) \<and>
   cycle ''B''
     \<lparr>script = [Reply (Some [\<lparr>name = Some ''B'', expires_at = Some (Datetime 4000)\<rparr>]),
                Reply (Some [\<lparr>name = Some ''A'', expires_at = Some (Datetime 1100)\<rparr>]),
                Reply (Some [\<lparr>name = Some ''A'', expires_at = Some (Datetime 1100)\<rparr>])],
      now = 1000, trace = []\<rparr> =
     (OutOfScript,
      \<lparr>script = [], now = 1165,
       trace =
         [Log INFO Entering_main_cycle,
          Call Ps (Some (Reply (Some [\<lparr>name = Some ''B'', expires_at = Some (Datetime 4000)\<rparr>]))),
          Log INFO (Already_loaded ''B''),
          Call Ps (Some (Reply (Some [\<lparr>name = Some ''A'', expires_at = Some (Datetime 1100)\<rparr>]))),
          Log INFO (Other_models_waiting 1105), Log INFO (Waiting_until_unload 105), Sleep 105,
          Call Ps (Some (Reply (Some [\<lparr>name = Some ''A'', expires_at = Some (Datetime 1100)\<rparr>]))),
          Log INFO Other_models_no_expiration, Sleep 60, Call Ps None]\<rparr>)"
  by (simp add: run_defs)

section \<open>The wait and the five seconds\<close>

text \<open>
  Claim C1. The claim is that the wait before the next probe is \<open>max 0 (t + 5 - now)\<close>, with
  \<open>t\<close> the greatest expiry. In \<^verbatim>\<open>main\<close> no buffer is added: with one model expiring at 1100
  and the clock at 1000, the cycle sleeps 100 and not 105. In \<^verbatim>\<open>monitor_for_other_models\<close> the
  five seconds are added once for each counted entry: with two models expiring at 1200 and
  at 1100, in that order, and the clock at 1000, the loop sleeps 210 and not 205.
\<close>

theorem wait_without_single_buffer:
  "cycle ''B''
     \<lparr>script = [Reply (Some [\<lparr>name = Some ''A'', expires_at = Some (Datetime 1100)\<rparr>])],
      now = 1000, trace = []\<rparr> =
     (OutOfScript,
      \<lparr>script = [], now = 1100,
       trace =
         [Log INFO Entering_main_cycle,
          Call Ps (Some (Reply (Some [\<lparr>name = Some ''A'', expires_at = Some (Datetime 1100)\<rparr>]))),
          Log INFO (Other_models_waiting 1100), Log INFO (Waiting_until_unload 100), Sleep 100,
          Call Ps None]\<rparr>) \<and>
   max 0 (1100 + 5 - 1000) = (105 :: real) \<and>
   monitor_for_other_models ''B''
     \<lparr>script = [Reply (Some [\<lparr>name = Some ''A'', expires_at = Some (Datetime 1200)\<rparr>,
                             \<lparr>name = Some ''C'', expires_at = Some (Datetime 1100)\<rparr>])],
      now = 1000, trace = []\<rparr> =
     (OutOfScript,
      \<lparr>script = [], now = 1210,
       trace =
         [Call Ps (Some (Reply (Some [\<lparr>name = Some ''A'', expires_at = Some (Datetime 1200)\<rparr>,
                                      \<lparr>name = Some ''C'', expires_at = Some (Datetime 1100)\<rparr>]))),
          Log INFO (Other_models_waiting 1210), Log INFO (Waiting_until_unload 210), Sleep 210,
          Call Ps None]\<rparr>) \<and>
   max 0 (1200 + 5 - 1000) = (205 :: real)"
  by (simp add: run_defs)

section \<open>The Loader\<close>

text \<open>
  Claim C9. \<^verbatim>\<open>load_model\<close> makes one call of the client, the generate request for the
  given model with \<^verbatim>\<open>keep_alive=-1\<close>. When the daemon answers with a response, the result
  does not depend on it: the response stands in the trace and nowhere else.
\<close>

theorem load_model_single_generate:
  "requests (trace (snd (load_model model_name w))) =
     requests (trace w) @ [Generate model_name (- 1)] \<and>
   load_model model_name (w\<lparr>script := Reply x # rest\<rparr>) =
     (Return (),
      w\<lparr>script := rest,
         trace := trace w @ [Call (Generate model_name (- 1)) (Some (Reply x)),
                             Log INFO (Successfully_loaded model_name)]\<rparr>)"
proof
  obtain r w' where l: "load_model model_name w = (r, w')"
    by (cases "load_model model_name w")
  from load_model_requests [OF l] l
  show "requests (trace (snd (load_model model_name w))) =
     requests (trace w) @ [Generate model_name (- 1)]"
    by simp
  show "load_model model_name (w\<lparr>script := Reply x # rest\<rparr>) =
     (Return (),
      w\<lparr>script := rest,
         trace := trace w @ [Call (Generate model_name (- 1)) (Some (Reply x)),
                             Log INFO (Successfully_loaded model_name)]\<rparr>)"
    by (simp add: load_model_def client_call_def logger_def)
qed

section \<open>An unset or zero \<^verbatim>\<open>expires_at\<close>\<close>

lemma datetime_epoch_not_counted:
  "0 \<le> t \<Longrightarrow> \<not> counted t (m\<lparr>expires_at := Some (Datetime 0)\<rparr>)"
  by (simp add: counted_def)

lemma datetime_epoch_skipped:
  "0 \<le> t \<Longrightarrow>
   latest_expires_at_main t (m\<lparr>expires_at := Some (Datetime 0)\<rparr> # ms) latest =
     latest_expires_at_main t ms latest \<and>
   latest_expires_at_monitor t (m\<lparr>expires_at := Some (Datetime 0)\<rparr> # ms) latest =
     latest_expires_at_monitor t ms latest"
  by (simp add: fromtimestamp_ok_def)

text \<open>
  Claim C10. The claim is that an entry whose \<^verbatim>\<open>expires_at\<close> is absent or equal to the
  number 0 is taken for a model that never expires, without an error. For the number 0
  this is what both loops over the entries do: the entry is skipped, wherever it stands in
  the snapshot and whatever the other entries are. For an \<^verbatim>\<open>expires_at\<close> that is unset
  the program says the same, with the default 0 of \<^verbatim>\<open>model.get("expires_at", 0)\<close> and the
  comments of lines 80 and 128, but does something else: the client gives \<^verbatim>\<open>None\<close>, the
  test \<^verbatim>\<open>expires_at == 0\<close> fails and \<^verbatim>\<open>datetime.fromtimestamp(None)\<close> raises a
  \<^verbatim>\<open>TypeError\<close> in both loops. On a snapshot of one other model without \<^verbatim>\<open>expires_at\<close> the
  main loop logs the error and retries after the 10 seconds of the handler, and the
  monitoring loop logs the error and raises it, where the same snapshot with the number 0,
  or with a \<^verbatim>\<open>datetime\<close> at the epoch, takes the branch of the models that never expire.
\<close>

theorem unset_expires_at_raises:
  "latest_expires_at_main t (m\<lparr>expires_at := Some (Num 0)\<rparr> # ms) latest =
     latest_expires_at_main t ms latest \<and>
   latest_expires_at_monitor t (m\<lparr>expires_at := Some (Num 0)\<rparr> # ms) latest =
     latest_expires_at_monitor t ms latest \<and>
   latest_expires_at_main t (m\<lparr>expires_at := None\<rparr> # ms) latest = Inl TypeError \<and>
   latest_expires_at_monitor t (m\<lparr>expires_at := None\<rparr> # ms) latest = Inl TypeError \<and>
   main_loop ''B''
     \<lparr>script = [Reply (Some [\<lparr>name = Some ''A'', expires_at = None\<rparr>])],
      now = 1000, trace = []\<rparr> =
     (Running,
      \<lparr>script = [], now = 1010,
       trace =
         [Log INFO Entering_main_cycle,
          Call Ps (Some (Reply (Some [\<lparr>name = Some ''A'', expires_at = None\<rparr>]))),
          Log ERROR (Error_occurred TypeError), Log INFO Retrying, Sleep 10,
          Log INFO Entering_main_cycle, Call Ps None]\<rparr>) \<and>
   monitor_for_other_models ''B''
     \<lparr>script = [Reply (Some [\<lparr>name = Some ''A'', expires_at = None\<rparr>])],
      now = 1000, trace = []\<rparr> =
     (Raised TypeError,
      \<lparr>script = [], now = 1000,
       trace =
         [Call Ps (Some (Reply (Some [\<lparr>name = Some ''A'', expires_at = None\<rparr>]))),
          Log ERROR (Error_during_monitoring TypeError)]\<rparr>) \<and>
   main_loop ''B''
     \<lparr>script = [Reply (Some [\<lparr>name = Some ''A'', expires_at = Some (Num 0)\<rparr>])],
      now = 1000, trace = []\<rparr> =
     (Running,
      \<lparr>script = [], now = 1065,
       trace =
         [Log INFO Entering_main_cycle,
          Call Ps (Some (Reply (Some [\<lparr>name = Some ''A'', expires_at = Some (Num 0)\<rparr>]))),
          Log INFO Only_non_expiring, Sleep 60, Log INFO Cycle_complete, Sleep 5,
          Log INFO Entering_main_cycle, Call Ps None]\<rparr>) \<and>
   main_loop ''B''
     \<lparr>script = [Reply (Some [\<lparr>name = Some ''A'', expires_at = Some (Datetime 0)\<rparr>])],
      now = 1000, trace = []\<rparr> =
     (Running,
      \<lparr>script = [], now = 1065,
       trace =
         [Log INFO Entering_main_cycle,
          Call Ps (Some (Reply (Some [\<lparr>name = Some ''A'', expires_at = Some (Datetime 0)\<rparr>]))),
          Log INFO Only_non_expiring, Sleep 60, Log INFO Cycle_complete, Sleep 5,
          Log INFO Entering_main_cycle, Call Ps None]\<rparr>)"
  by (simp add: run_defs)

end
